(* ===== verification/Prelude.thy ===== *)
theory Prelude
  imports Main "HOL-Library.Word" "HOL-Library.Multiset"
begin

text \<open>
  Shared vocabulary of the development: the machine types of the crate, results as sums
  (\<open>Inl\<close> an error, \<open>Inr\<close> a value), durations, the joining and splitting of byte strings,
  decimal printing, and the arbitrary iteration order of a hash map.
\<close>

unbundle bit_operations_syntax

named_theorems frame "fields an operation leaves alone"
named_theorems model_defs "definitions that component proofs unfold"

section \<open>Machine types\<close>

type_synonym u8 = "8 word"
type_synonym u16 = "16 word"
type_synonym u32 = "32 word"
type_synonym u64 = "64 word"
type_synonym bytes = "u8 list"

text \<open>
  A Rust \<open>String\<close> is its UTF-8 byte sequence, here a HOL \<open>string\<close> (each \<open>char\<close> is one byte).
  A \<open>std::time::Duration\<close> is its number of nanoseconds, so that \<open>as_millis\<close> truncates as in Rust.
\<close>

type_synonym duration = nat

definition from_millis :: "nat \<Rightarrow> duration" where
  "from_millis ms = ms * 1000000"

definition from_secs :: "nat \<Rightarrow> duration" where
  "from_secs s = s * 1000000000"

definition as_millis :: "duration \<Rightarrow> nat" where
  "as_millis d = d div 1000000"

lemma from_millis_as_millis_le: "from_millis (as_millis d) \<le> d"
  by (simp add: from_millis_def as_millis_def)

lemma from_millis_mono: "a \<le> b \<Longrightarrow> from_millis a \<le> from_millis b"
  by (simp add: from_millis_def)

lemma as_millis_from_millis [simp]: "as_millis (from_millis n) = n"
  by (simp add: as_millis_def from_millis_def)

lemma as_millis_from_secs [simp]: "as_millis (from_secs n) = n * 1000"
  by (simp add: as_millis_def from_secs_def)

lemma from_millis_0 [simp]: "from_millis 0 = 0"
  by (simp add: from_millis_def)

text \<open>Between machine words and natural numbers.\<close>

lemma unat_of_nat_u32 [simp]: "n < 2 ^ 32 \<Longrightarrow> unat (word_of_nat n :: u32) = n"
  by (simp add: unat_of_nat)

lemma unat_u32_less: "unat (w :: u32) < 2 ^ 32"
  using unsigned_less [of w] by simp

lemma word_of_nat_unat: "word_of_nat (unat (w :: u32)) = w"
  by simp

section \<open>Results\<close>

text \<open>Rust's \<open>?\<close>: stop at the first error.\<close>

fun and_then :: "'e + 'a \<Rightarrow> ('a \<Rightarrow> 'e + 'b) \<Rightarrow> 'e + 'b" where
  "and_then (Inl e) f = Inl e"
| "and_then (Inr a) f = f a"

fun is_ok :: "'e + 'a \<Rightarrow> bool" where
  "is_ok (Inl e) = False"
| "is_ok (Inr a) = True"

text \<open>Collecting an iterator of results: the first error, or all the values.\<close>

fun collect_results :: "('e + 'a) list \<Rightarrow> 'e + 'a list" where
  "collect_results [] = Inr []"
| "collect_results (r # rs) =
     (case r of Inl e \<Rightarrow> Inl e
      | Inr a \<Rightarrow> and_then (collect_results rs) (\<lambda>as. Inr (a # as)))"

lemma and_then_Inr_iff: "and_then r f = Inr b \<longleftrightarrow> (\<exists>a. r = Inr a \<and> f a = Inr b)"
  by (cases r) auto

lemma collect_results_map_Inr [simp]: "collect_results (map (\<lambda>x. Inr (f x)) xs) = Inr (map f xs)"
  by (induction xs) auto

lemma collect_results_append:
  "collect_results (xs @ ys) =
     and_then (collect_results xs) (\<lambda>as. and_then (collect_results ys) (\<lambda>bs. Inr (as @ bs)))"
proof (induction xs)
  case Nil
  show ?case by (cases "collect_results ys") auto
next
  case (Cons x xs)
  then show ?case
    by (cases x; cases "collect_results xs"; cases "collect_results ys") auto
qed

section \<open>Joining and splitting\<close>

fun join_with :: "'a list \<Rightarrow> 'a list list \<Rightarrow> 'a list" where
  "join_with sep [] = []"
| "join_with sep [x] = x"
| "join_with sep (x # y # zs) = x @ sep @ join_with sep (y # zs)"

text \<open>\<open>str::split\<close> on one separator: always at least one piece.\<close>

fun split_on :: "'a \<Rightarrow> 'a list \<Rightarrow> 'a list list" where
  "split_on c [] = [[]]"
| "split_on c (x # xs) =
     (if x = c then [] # split_on c xs
      else (case split_on c xs of [] \<Rightarrow> [[x]] | p # ps \<Rightarrow> (x # p) # ps))"

lemma split_on_nonempty: "split_on c xs \<noteq> []"
  by (induction xs) (auto split: list.splits)

lemma split_on_no_sep: "c \<notin> set xs \<Longrightarrow> split_on c xs = [xs]"
  by (induction xs) auto

lemma split_on_append_sep:
  "c \<notin> set xs \<Longrightarrow> split_on c (xs @ c # ys) = xs # split_on c ys"
  by (induction xs) auto

lemma split_on_join_with:
  assumes "\<forall>x \<in> set xs. c \<notin> set x" and "xs \<noteq> []"
  shows "split_on c (join_with [c] xs) = xs"
  using assms
proof (induction xs)
  case Nil
  then show ?case by simp
next
  case (Cons x xs)
  then show ?case
    by (cases xs) (simp_all add: split_on_no_sep split_on_append_sep)
qed

section \<open>Decimal printing\<close>

fun show_nat :: "nat \<Rightarrow> string" where
  "show_nat n = (if n < 10 then [char_of (48 + n)] else show_nat (n div 10) @ [char_of (48 + n mod 10)])"

declare show_nat.simps [simp del]

lemma show_nat_nonempty [simp]: "show_nat n \<noteq> []"
  by (subst show_nat.simps) simp

section \<open>Iteration order\<close>

text \<open>
  A Rust \<open>HashMap\<close> iterates in an order nothing fixes. \<open>reorder ks xs\<close> picks the elements of
  \<open>xs\<close> in an order chosen by \<open>ks\<close>: the next element taken is number \<open>k mod length\<close> of those
  left. It is always a permutation, and every permutation is \<open>reorder ks xs\<close> for some \<open>ks\<close>.
\<close>

fun reorder :: "nat list \<Rightarrow> 'a list \<Rightarrow> 'a list" where
  "reorder ks [] = []"
| "reorder [] (x # xs) = x # xs"
| "reorder (k # ks) (x # xs) =
     (let i = k mod Suc (length xs)
      in (x # xs) ! i # reorder ks (take i (x # xs) @ drop (Suc i) (x # xs)))"

lemma mset_take_nth_drop:
  "i < length xs \<Longrightarrow> mset xs = add_mset (xs ! i) (mset (take i xs @ drop (Suc i) xs))"
  by (metis id_take_nth_drop mset.simps(2) mset_append union_mset_add_mset_right)

lemma mset_reorder [simp]: "mset (reorder ks xs) = mset xs"
proof (induction ks xs rule: reorder.induct)
  case (3 k ks x xs)
  let ?i = "k mod Suc (length xs)"
  have i: "?i < length (x # xs)" by simp
  have "mset (reorder (k # ks) (x # xs))
    = add_mset ((x # xs) ! ?i) (mset (take ?i (x # xs) @ drop (Suc ?i) (x # xs)))"
    using "3.IH" [OF refl] by (simp add: Let_def)
  also have "\<dots> = mset (x # xs)"
    using mset_take_nth_drop [OF i] by (rule sym)
  finally show ?case .
qed simp_all

lemma set_reorder [simp]: "set (reorder ks xs) = set xs"
  using mset_reorder by (rule mset_eq_setD)

lemma distinct_reorder [simp]: "distinct (reorder ks xs) = distinct xs"
  using mset_reorder by (rule mset_eq_imp_distinct_iff)

lemma length_reorder [simp]: "length (reorder ks xs) = length xs"
  using mset_reorder by (rule mset_eq_length)

lemma reorder_surj: "mset ys = mset xs \<Longrightarrow> \<exists>ks. reorder ks xs = ys"
proof (induction ys arbitrary: xs)
  case Nil
  then show ?case by simp
next
  case (Cons y ys)
  then have "y \<in> set xs" by (metis list.set_intros(1) mset_eq_setD)
  then obtain i where i: "i < length xs" "xs ! i = y" by (auto simp: in_set_conv_nth)
  then obtain x zs where xs: "xs = x # zs" by (cases xs) auto
  have "mset ys = mset (take i xs @ drop (Suc i) xs)"
    using Cons.prems mset_take_nth_drop [OF i(1)] i(2) by simp
  then obtain ks where "reorder ks (take i xs @ drop (Suc i) xs) = ys"
    using Cons.IH by blast
  then have "reorder (i # ks) xs = y # ys"
    using i by (simp add: xs Let_def)
  then show ?case by blast
qed

end
