(* ===== verification/HashMap.thy ===== *)
theory HashMap
  imports Prelude "HOL-Library.DAList"
begin

text \<open>
  \<open>std::collections::HashMap\<close> as the crate uses it. The contract is the locale \<open>hash_map\<close>;
  its model is an association list with distinct keys. The order of the list is never relied on:
  every loop over a map of the actor first permutes the keys with \<open>reorder\<close>.
\<close>

section \<open>The contract\<close>

locale hash_map =
  fixes empty :: "'m"
    and get :: "'m \<Rightarrow> 'k \<Rightarrow> 'v option"
    and insert :: "'k \<Rightarrow> 'v \<Rightarrow> 'm \<Rightarrow> 'm"
    and remove :: "'k \<Rightarrow> 'm \<Rightarrow> 'm"
    and keys :: "'m \<Rightarrow> 'k list"
  assumes get_empty: "get empty k = None"
    and get_insert: "get (insert k v m) k' = (if k' = k then Some v else get m k')"
    and get_remove: "get (remove k m) k' = (if k' = k then None else get m k')"
    and set_keys: "k \<in> set (keys m) \<longleftrightarrow> get m k \<noteq> None"
    and distinct_keys: "distinct (keys m)"
begin

lemma get_insert_same: "get (insert k v m) k = Some v"
  by (simp add: get_insert)

lemma get_remove_same: "get (remove k m) k = None"
  by (simp add: get_remove)

lemma keys_insert: "set (keys (insert k v m)) = Set.insert k (set (keys m))"
  by (auto simp: set_keys get_insert split: if_splits)

lemma keys_remove: "set (keys (remove k m)) = set (keys m) - {k}"
  by (auto simp: set_keys get_remove split: if_splits)

lemma keys_empty: "keys empty = []"
  using set_keys [of _ empty] by (cases "keys empty") (auto simp: get_empty)

text \<open>A loop over some keys that rewrites the value of each one (\<open>values_mut\<close>).\<close>

lemma get_fold_update:
  "distinct ks \<Longrightarrow>
   get (fold (\<lambda>k m. case get m k of None \<Rightarrow> m | Some v \<Rightarrow> insert k (f k v) m) ks m) k'
     = (if k' \<in> set ks then map_option (f k') (get m k') else get m k')"
proof (induction ks arbitrary: m)
  case Nil
  show ?case by simp
next
  case (Cons a ks)
  let ?m = "case get m a of None \<Rightarrow> m | Some v \<Rightarrow> insert a (f a v) m"
  have "get ?m k' = (if k' = a then map_option (f a) (get m a) else get m k')"
    by (auto simp: get_insert split: option.splits)
  with Cons show ?case by auto
qed

text \<open>Removing every key of a list (\<open>drain\<close>).\<close>

lemma get_fold_remove: "get (fold remove ks m) k = (if k \<in> set ks then None else get m k)"
  by (induction ks arbitrary: m) (auto simp: get_remove)

lemma drain_empty: "set ks = set (keys m) \<Longrightarrow> get (fold remove ks m) k = None"
  using set_keys [of k m] by (auto simp: get_fold_remove)

lemma keys_cong: "(\<And>k. get m k = get m' k) \<Longrightarrow> set (keys m) = set (keys m')"
  by (auto simp: set_keys)

end

section \<open>The model\<close>

type_synonym ('k, 'v) hashmap = "('k, 'v) alist"

definition hm_empty :: "('k, 'v) hashmap" where
  "hm_empty = DAList.empty"

definition hm_get :: "('k, 'v) hashmap \<Rightarrow> 'k \<Rightarrow> 'v option" where
  "hm_get m k = DAList.lookup m k"

definition hm_insert :: "'k \<Rightarrow> 'v \<Rightarrow> ('k, 'v) hashmap \<Rightarrow> ('k, 'v) hashmap" where
  "hm_insert k v m = DAList.update k v m"

definition hm_remove :: "'k \<Rightarrow> ('k, 'v) hashmap \<Rightarrow> ('k, 'v) hashmap" where
  "hm_remove k m = DAList.delete k m"

definition hm_entries :: "('k, 'v) hashmap \<Rightarrow> ('k \<times> 'v) list" where
  "hm_entries m = DAList.impl_of m"

definition hm_keys :: "('k, 'v) hashmap \<Rightarrow> 'k list" where
  "hm_keys m = map fst (DAList.impl_of m)"

definition hm_contains :: "('k, 'v) hashmap \<Rightarrow> 'k \<Rightarrow> bool" where
  "hm_contains m k = (hm_get m k \<noteq> None)"

definition hm_map_values :: "('v \<Rightarrow> 'w) \<Rightarrow> ('k, 'v) hashmap \<Rightarrow> ('k, 'w) hashmap" where
  "hm_map_values f m = fold (\<lambda>(k, v). hm_insert k (f v)) (hm_entries m) hm_empty"

text \<open>\<open>if let Some(v) = m.get_mut(k) { v = f(v) }\<close>\<close>

definition hm_adjust :: "'k \<Rightarrow> ('v \<Rightarrow> 'v) \<Rightarrow> ('k, 'v) hashmap \<Rightarrow> ('k, 'v) hashmap" where
  "hm_adjust k f m = (case hm_get m k of None \<Rightarrow> m | Some v \<Rightarrow> hm_insert k (f v) m)"

text \<open>The multiset of a feature of the values, for conservation arguments.\<close>

definition hm_sum :: "('v \<Rightarrow> 'a multiset) \<Rightarrow> ('k, 'v) hashmap \<Rightarrow> 'a multiset" where
  "hm_sum f m = sum_list (map (f \<circ> snd) (hm_entries m))"

interpretation hm: hash_map hm_empty hm_get hm_insert hm_remove hm_keys
proof
  fix m :: "('k, 'v) hashmap" and k k' :: 'k and v :: 'v
  show "hm_get hm_empty k = (None :: 'v option)"
    by (simp add: hm_get_def hm_empty_def DAList.lookup_empty)
  show "hm_get (hm_insert k v m) k' = (if k' = k then Some v else hm_get m k')"
    by (simp add: hm_get_def hm_insert_def DAList.lookup.rep_eq DAList.update.rep_eq update_conv)
  show "hm_get (hm_remove k m) k' = (if k' = k then None else hm_get m k')"
    by (simp add: hm_get_def hm_remove_def DAList.lookup.rep_eq DAList.delete.rep_eq delete_conv)
  show "k \<in> set (hm_keys m) \<longleftrightarrow> hm_get m k \<noteq> None"
    by (auto simp: hm_keys_def hm_get_def DAList.lookup.rep_eq map_of_eq_None_iff)
  show "distinct (hm_keys m)"
    by (simp add: hm_keys_def)
qed

lemmas hm_simps [simp] = hm.get_empty hm.get_insert hm.get_remove hm.keys_empty hm.distinct_keys

lemma hm_contains_iff [simp]: "hm_contains m k \<longleftrightarrow> k \<in> set (hm_keys m)"
  by (simp add: hm_contains_def hm.set_keys)

lemma hm_keys_iff_get: "k \<in> set (hm_keys m) \<longleftrightarrow> (\<exists>v. hm_get m k = Some v)"
  by (simp add: hm.set_keys)

lemma hm_get_adjust [simp]:
  "hm_get (hm_adjust k f m) k' = (if k' = k then map_option f (hm_get m k) else hm_get m k')"
  by (auto simp: hm_adjust_def split: option.splits)

lemma keys_update: "map fst (AList.update k v xs)
    = (if k \<in> set (map fst xs) then map fst xs else map fst xs @ [k])"
  by (induction xs) auto

lemma hm_keys_insert [simp]:
  "hm_keys (hm_insert k v m) = (if k \<in> set (hm_keys m) then hm_keys m else hm_keys m @ [k])"
  unfolding hm_keys_def hm_insert_def DAList.update.rep_eq by (rule keys_update)

lemma hm_keys_remove [simp]: "hm_keys (hm_remove k m) = filter (\<lambda>x. x \<noteq> k) (hm_keys m)"
  unfolding hm_keys_def hm_remove_def DAList.delete.rep_eq delete_keys removeAll_filter_not_eq
  by (rule filter_cong) auto

lemma hm_keys_adjust [simp]: "hm_keys (hm_adjust k f m) = hm_keys m"
  by (auto simp: hm_adjust_def hm_keys_iff_get split: option.splits)

lemma hm_entries_empty [simp]: "hm_entries hm_empty = []"
  by (simp add: hm_entries_def hm_empty_def DAList.empty.rep_eq)

section \<open>Sums over the values\<close>

lemma sum_list_update:
  fixes f :: "'v \<Rightarrow> 'a multiset"
  shows "distinct (map fst xs) \<Longrightarrow>
   sum_list (map (f \<circ> snd) (AList.update k v xs)) + (case map_of xs k of None \<Rightarrow> {#} | Some w \<Rightarrow> f w)
     = sum_list (map (f \<circ> snd) xs) + f v"
  by (induction xs) (auto simp: map_of_eq_None_iff ac_simps split: option.splits)

lemma sum_list_delete:
  fixes f :: "'v \<Rightarrow> 'a multiset"
  shows "distinct (map fst xs) \<Longrightarrow>
   sum_list (map (f \<circ> snd) (AList.delete k xs)) + (case map_of xs k of None \<Rightarrow> {#} | Some w \<Rightarrow> f w)
     = sum_list (map (f \<circ> snd) xs)"
proof (induction xs)
  case (Cons x xs)
  show ?case
  proof (cases "fst x = k")
    case True
    with Cons.prems have "k \<notin> fst ` set xs" by auto
    then have "AList.delete k xs = xs"
      by (intro delete_id) simp
    with True show ?thesis by (cases x) (simp add: ac_simps)
  next
    case False
    with Cons show ?thesis by (cases x) (auto simp: ac_simps)
  qed
qed simp

lemma hm_sum_empty [simp]: "hm_sum f hm_empty = {#}"
  by (simp add: hm_sum_def)

lemma hm_sum_insert:
  "hm_sum f (hm_insert k v m) + (case hm_get m k of None \<Rightarrow> {#} | Some w \<Rightarrow> f w) = hm_sum f m + f v"
  unfolding hm_sum_def hm_get_def hm_insert_def hm_entries_def DAList.lookup.rep_eq DAList.update.rep_eq
  by (rule sum_list_update) simp

lemma hm_sum_remove:
  "hm_sum f (hm_remove k m) + (case hm_get m k of None \<Rightarrow> {#} | Some w \<Rightarrow> f w) = hm_sum f m"
  unfolding hm_sum_def hm_get_def hm_remove_def hm_entries_def DAList.lookup.rep_eq DAList.delete.rep_eq
  by (rule sum_list_delete) simp

lemma hm_sum_insert_None: "hm_get m k = None \<Longrightarrow> hm_sum f (hm_insert k v m) = hm_sum f m + f v"
  using hm_sum_insert [of f k v m] by simp

lemma hm_sum_insert_Some:
  "hm_get m k = Some w \<Longrightarrow> hm_sum f (hm_insert k v m) + f w = hm_sum f m + f v"
  using hm_sum_insert [of f k v m] by simp

lemma hm_sum_insert_same:
  "hm_get m k = Some w \<Longrightarrow> f v = f w \<Longrightarrow> hm_sum f (hm_insert k v m) = hm_sum f m"
  using hm_sum_insert_Some [of m k w f v] by simp

lemma hm_sum_remove_Some:
  "hm_get m k = Some w \<Longrightarrow> hm_sum f (hm_remove k m) + f w = hm_sum f m"
  using hm_sum_remove [of f k m] by simp

lemma hm_sum_remove_None: "hm_get m k = None \<Longrightarrow> hm_sum f (hm_remove k m) = hm_sum f m"
  using hm_sum_remove [of f k m] by simp

lemma hm_sum_eq_sum_keys:
  "hm_sum f m = (\<Sum>k\<leftarrow>hm_keys m. case hm_get m k of None \<Rightarrow> {#} | Some v \<Rightarrow> f v)"
proof -
  have "map (f \<circ> snd) (hm_entries m) = map (\<lambda>x. case hm_get m (fst x) of None \<Rightarrow> {#} | Some v \<Rightarrow> f v) (hm_entries m)"
    by (rule map_cong [OF refl])
      (auto simp: hm_entries_def hm_get_def DAList.lookup.rep_eq map_of_eq_Some_iff)
  moreover have "map (\<lambda>k. case hm_get m k of None \<Rightarrow> {#} | Some v \<Rightarrow> f v) (hm_keys m)
      = map (\<lambda>x. case hm_get m (fst x) of None \<Rightarrow> {#} | Some v \<Rightarrow> f v) (hm_entries m)"
    by (simp add: hm_keys_def hm_entries_def)
  ultimately show ?thesis by (simp only: hm_sum_def)
qed

section \<open>Mapping the values\<close>

lemma hm_get_fold_insert:
  "distinct (map fst xs) \<Longrightarrow>
   hm_get (fold (\<lambda>(k, v). hm_insert k (f v)) xs m) k
     = (case map_of xs k of Some v \<Rightarrow> Some (f v) | None \<Rightarrow> hm_get m k)"
  by (induction xs arbitrary: m) (auto split: option.splits simp: map_of_eq_None_iff rev_image_eqI)

lemma hm_get_map_values [simp]: "hm_get (hm_map_values f m) k = map_option f (hm_get m k)"
  unfolding hm_map_values_def
  by (subst hm_get_fold_insert)
    (auto simp: hm_entries_def hm_get_def DAList.lookup.rep_eq hm_empty_def DAList.empty.rep_eq
      split: option.splits)

end
