(* ===== verification/Errors.thy ===== *)
theory Errors
  imports Prelude
begin

text \<open>
  \<open>src/errors.rs\<close>, \<open>src/codes.rs\<close> and \<open>src/backoff.rs\<close>: the error type of the crate with its
  messages, the reason codes with the reconnect and resubscribe decisions, and the reconnect delay.
\<close>

section \<open>Errors\<close>

record server_error =
  se_code :: u32
  se_message :: string
  se_temporary :: bool

text \<open>
  The boxed source of a transport error is opaque to the crate; only its message is used.
\<close>

datatype centrifuge_error =
    Timeout
  | ClientDisconnected
  | ClientClosed
  | SubscriptionUnsubscribed
  | DuplicateSubscription
  | Unauthorized
  | Transport string
  | Protocol string
  | BadConfiguration string
  | Server server_error

type_synonym 'a res = "centrifuge_error + 'a"

fun error_to_string :: "centrifuge_error \<Rightarrow> string" where
  "error_to_string Timeout = ''operation timed out''"
| "error_to_string ClientDisconnected = ''client disconnected''"
| "error_to_string ClientClosed = ''client closed''"
| "error_to_string SubscriptionUnsubscribed = ''subscription unsubscribed''"
| "error_to_string DuplicateSubscription = ''subscription to this channel already exists''"
| "error_to_string Unauthorized = ''unauthorized''"
| "error_to_string (Transport e) = ''transport error: '' @ e"
| "error_to_string (Protocol m) = ''protocol error: '' @ m"
| "error_to_string (BadConfiguration m) = ''bad configuration: '' @ m"
| "error_to_string (Server e) =
     ''server error '' @ show_nat (unat (se_code e)) @ '': '' @ se_message e"

section \<open>Codes\<close>

definition DISCONNECT_CALLED :: u32 where "DISCONNECT_CALLED = 0"
definition DISCONNECT_UNAUTHORIZED :: u32 where "DISCONNECT_UNAUTHORIZED = 1"
definition BAD_PROTOCOL :: u32 where "BAD_PROTOCOL = 2"
definition MESSAGE_SIZE_LIMIT :: u32 where "MESSAGE_SIZE_LIMIT = 3"

definition CONNECT_CALLED :: u32 where "CONNECT_CALLED = 0"
definition CONNECTING_TRANSPORT_CLOSED :: u32 where "CONNECTING_TRANSPORT_CLOSED = 1"
definition NO_PING :: u32 where "NO_PING = 2"
definition SUBSCRIBE_TIMEOUT :: u32 where "SUBSCRIBE_TIMEOUT = 3"
definition UNSUBSCRIBE_ERROR :: u32 where "UNSUBSCRIBE_ERROR = 4"

definition SUBSCRIBE_CALLED :: u32 where "SUBSCRIBE_CALLED = 0"
definition SUBSCRIBING_TRANSPORT_CLOSED :: u32 where "SUBSCRIBING_TRANSPORT_CLOSED = 1"

definition UNSUBSCRIBE_CALLED :: u32 where "UNSUBSCRIBE_CALLED = 0"
definition UNSUBSCRIBED_UNAUTHORIZED :: u32 where "UNSUBSCRIBED_UNAUTHORIZED = 1"
definition CLIENT_CLOSED :: u32 where "CLIENT_CLOSED = 2"
definition SERVER_SUB_REMOVED :: u32 where "SERVER_SUB_REMOVED = 3"

definition INTERNAL_ERROR :: u32 where "INTERNAL_ERROR = 100"
definition ALREADY_SUBSCRIBED :: u32 where "ALREADY_SUBSCRIBED = 105"
definition TOKEN_EXPIRED :: u32 where "TOKEN_EXPIRED = 109"

lemmas code_defs = DISCONNECT_CALLED_def DISCONNECT_UNAUTHORIZED_def BAD_PROTOCOL_def
  MESSAGE_SIZE_LIMIT_def CONNECT_CALLED_def CONNECTING_TRANSPORT_CLOSED_def NO_PING_def
  SUBSCRIBE_TIMEOUT_def UNSUBSCRIBE_ERROR_def SUBSCRIBE_CALLED_def SUBSCRIBING_TRANSPORT_CLOSED_def
  UNSUBSCRIBE_CALLED_def UNSUBSCRIBED_UNAUTHORIZED_def CLIENT_CLOSED_def SERVER_SUB_REMOVED_def
  INTERNAL_ERROR_def ALREADY_SUBSCRIBED_def TOKEN_EXPIRED_def

text \<open>\<open>(a..b).contains(&c)\<close>\<close>

definition in_range :: "u32 \<Rightarrow> u32 \<Rightarrow> u32 \<Rightarrow> bool" where
  "in_range a b c = (a \<le> c \<and> c < b)"

definition should_reconnect_on_disconnect :: "u32 \<Rightarrow> bool" where
  "should_reconnect_on_disconnect code = (\<not> in_range 3500 5000 code \<or> in_range 4000 4500 code)"

definition should_resubscribe_on_unsubscribe :: "u32 \<Rightarrow> bool" where
  "should_resubscribe_on_unsubscribe code = (code \<ge> 2500)"

definition is_temporary :: "u32 \<Rightarrow> bool \<Rightarrow> bool" where
  "is_temporary code temporary = (temporary \<or> code < INTERNAL_ERROR \<or> code = TOKEN_EXPIRED)"

text \<open>
  The reconnect decision is the table of the Centrifuge protocol: codes 3500 to 3999 and 4500 to
  4999 are terminal, every other code reconnects.
\<close>

theorem should_reconnect_table:
  "should_reconnect_on_disconnect c \<longleftrightarrow>
     \<not> (3500 \<le> unat c \<and> unat c \<le> 3999 \<or> 4500 \<le> unat c \<and> unat c \<le> 4999)"
  unfolding should_reconnect_on_disconnect_def in_range_def word_le_nat_alt word_less_nat_alt
  by simp linarith

section \<open>Backoff\<close>

text \<open>Rust's saturating arithmetic on \<open>u128\<close>.\<close>

definition U128_MAX :: nat where
  "U128_MAX = 2 ^ 128 - 1"

definition saturating_mul_u128 :: "nat \<Rightarrow> nat \<Rightarrow> nat" where
  "saturating_mul_u128 a b = min (a * b) U128_MAX"

definition saturating_pow_u128 :: "nat \<Rightarrow> nat \<Rightarrow> nat" where
  "saturating_pow_u128 a n = min (a ^ n) U128_MAX"

text \<open>
  The random source is a parameter: \<open>rnd n\<close> is what \<open>random_range(0..=n)\<close> returns. \<open>as u64\<close> truncates.
\<close>

definition next_delay :: "(nat \<Rightarrow> nat) \<Rightarrow> nat \<Rightarrow> duration \<Rightarrow> duration \<Rightarrow> duration" where
  "next_delay rnd attempt min_delay max_delay =
     (let base = saturating_mul_u128 (as_millis min_delay) (saturating_pow_u128 2 attempt);
          capped = min base (as_millis max_delay)
      in if capped = 0 then 0
         else let jittered = rnd capped in from_millis (jittered mod 2 ^ 64))"

definition in_range_rng :: "(nat \<Rightarrow> nat) \<Rightarrow> bool" where
  "in_range_rng rnd = (\<forall>n. rnd n \<le> n)"

lemma saturating_mul_pow_le:
  "saturating_mul_u128 a (saturating_pow_u128 2 n) \<le> a * 2 ^ n"
  by (simp add: saturating_mul_u128_def saturating_pow_u128_def min.coboundedI1)

lemma capped_delay_le: "x \<le> c \<Longrightarrow> (if c = 0 then 0 else from_millis x) \<le> from_millis c"
  by (simp add: from_millis_mono)

lemma next_delay_le:
  assumes "in_range_rng rnd"
  shows "next_delay rnd attempt min_delay max_delay \<le> max_delay
       \<and> next_delay rnd attempt min_delay max_delay \<le> min_delay * 2 ^ attempt"
proof -
  let ?b = "saturating_mul_u128 (as_millis min_delay) (saturating_pow_u128 2 attempt)"
  let ?c = "min ?b (as_millis max_delay)"
  have "next_delay rnd attempt min_delay max_delay \<le> from_millis ?c"
  proof -
    have "rnd ?c mod 2 ^ 64 \<le> ?c"
      using assms mod_less_eq_dividend [of "rnd ?c" "2 ^ 64"] le_trans
      by (auto simp only: in_range_rng_def)
    then show ?thesis
      unfolding next_delay_def Let_def by (rule capped_delay_le)
  qed
  moreover have "from_millis ?c \<le> max_delay"
    using from_millis_mono [of ?c "as_millis max_delay"] from_millis_as_millis_le [of max_delay]
    by simp
  moreover have "from_millis ?c \<le> min_delay * 2 ^ attempt"
  proof -
    have "from_millis ?c \<le> from_millis (as_millis min_delay * 2 ^ attempt)"
      using saturating_mul_pow_le by (intro from_millis_mono) (simp add: min.coboundedI1)
    also have "\<dots> = from_millis (as_millis min_delay) * 2 ^ attempt"
      by (simp add: from_millis_def)
    also have "\<dots> \<le> min_delay * 2 ^ attempt"
      using from_millis_as_millis_le by simp
    finally show ?thesis .
  qed
  ultimately show ?thesis by linarith
qed

text \<open>
  Full jitter: the delay never exceeds the configured maximum nor the exponential bound
  \<open>min_delay * 2^attempt\<close>, whatever the random source returns within its range.
\<close>

theorem next_delay_bounds:
  assumes "in_range_rng rnd"
  shows "next_delay rnd attempt min_delay max_delay \<le> max_delay
       \<and> next_delay rnd attempt min_delay max_delay \<le> min_delay * 2 ^ attempt"
  by (rule next_delay_le [OF assms])

theorem next_delay_bounds_witness:
  "next_delay (\<lambda>n. n) 5 (from_millis 500) (from_secs 20) \<le> from_secs 20
   \<and> next_delay (\<lambda>n. n) 5 (from_millis 500) (from_secs 20) \<le> from_millis 500 * 2 ^ 5"
  using next_delay_bounds [of "\<lambda>n. n" 5 "from_millis 500" "from_secs 20"]
  by (simp add: in_range_rng_def)

lemma next_delay_zero_min [simp]: "next_delay rnd attempt 0 max_delay = 0"
  by (simp add: next_delay_def as_millis_def saturating_mul_u128_def)

text \<open>The range of delays really grows with the attempt and is reached.\<close>

lemma next_delay_max:
  assumes "as_millis min_delay * 2 ^ attempt \<le> U128_MAX" and "(2::nat) ^ attempt \<le> U128_MAX"
    and "as_millis max_delay < 2 ^ 64"
  shows "next_delay (\<lambda>n. n) attempt min_delay max_delay
       = from_millis (min (as_millis min_delay * 2 ^ attempt) (as_millis max_delay))"
  using assms by (auto simp: next_delay_def saturating_mul_u128_def saturating_pow_u128_def Let_def)

end
