(* ===== verification/Protocol.thy ===== *)
theory Protocol
  imports HashMap Errors
begin

text \<open>
  The messages of \<open>proto/client.proto\<close> (the types \<open>prost\<close> generates from it, every scalar with its
  default) and the public types of \<open>src/protocol.rs\<close>: states, contexts, events and the
  conversions from the wire types. A field \<open>f\<close> of a message is a record field with a prefix for
  the message.
\<close>

section \<open>Messages of the protocol\<close>

datatype filter_node =
  FilterNode (fn_op: string) (fn_key: string) (fn_cmp: string) (fn_val: string)
    (fn_vals: "string list") (fn_nodes: "filter_node list")

record proto_error =
  pe_code :: "u32"
  pe_message :: "string"
  pe_temporary :: "bool"

record proto_client_info =
  pci_user :: "string"
  pci_client :: "string"
  pci_conn_info :: "bytes"
  pci_chan_info :: "bytes"

record proto_publication =
  pp_data :: "bytes"
  pp_info :: "proto_client_info option"
  pp_offset :: "u64"
  pp_tags :: "(string, string) hashmap"
  pp_delta :: "bool"
  pp_time :: "u64"
  pp_channel :: "string"

record proto_join =
  pj_info :: "proto_client_info option"

record proto_leave =
  pl_info :: "proto_client_info option"

record proto_unsubscribe =
  pu_code :: "u32"
  pu_reason :: "string"

record proto_subscribe =
  ps_recoverable :: "bool"
  ps_epoch :: "string"
  ps_offset :: "u64"
  ps_positioned :: "bool"
  ps_data :: "bytes"

record proto_message =
  pm_data :: "bytes"

record proto_disconnect =
  pd_code :: "u32"
  pd_reason :: "string"
  pd_reconnect :: "bool"

record proto_refresh =
  pf_expires :: "bool"
  pf_ttl :: "u32"

record subscribe_request =
  sq_channel :: "string"
  sq_token :: "string"
  sq_recover :: "bool"
  sq_epoch :: "string"
  sq_offset :: "u64"
  sq_data :: "bytes"
  sq_positioned :: "bool"
  sq_recoverable :: "bool"
  sq_join_leave :: "bool"
  sq_delta :: "string"
  sq_tf :: "filter_node option"
  sq_flag :: "u64"

record subscribe_result =
  sr_expires :: "bool"
  sr_ttl :: "u32"
  sr_recoverable :: "bool"
  sr_epoch :: "string"
  sr_publications :: "proto_publication list"
  sr_recovered :: "bool"
  sr_offset :: "u64"
  sr_positioned :: "bool"
  sr_data :: "bytes"
  sr_was_recovering :: "bool"
  sr_delta :: "bool"
  sr_id :: "u64"

record proto_connect =
  pc_client :: "string"
  pc_version :: "string"
  pc_data :: "bytes"
  pc_subs :: "(string, subscribe_result) hashmap"
  pc_expires :: "bool"
  pc_ttl :: "u32"
  pc_ping :: "u32"
  pc_pong :: "bool"
  pc_session :: "string"
  pc_node :: "string"
  pc_time :: "u64"

record proto_push =
  ph_id :: "u64"
  ph_channel :: "string"
  ph_pub :: "proto_publication option"
  ph_join :: "proto_join option"
  ph_leave :: "proto_leave option"
  ph_unsubscribe :: "proto_unsubscribe option"
  ph_message :: "proto_message option"
  ph_subscribe :: "proto_subscribe option"
  ph_connect :: "proto_connect option"
  ph_disconnect :: "proto_disconnect option"
  ph_refresh :: "proto_refresh option"

record connect_request =
  cq_token :: "string"
  cq_data :: "bytes"
  cq_subs :: "(string, subscribe_request) hashmap"
  cq_name :: "string"
  cq_version :: "string"
  cq_headers :: "(string, string) hashmap"
  cq_flag :: "u64"

record connect_result =
  cr_client :: "string"
  cr_version :: "string"
  cr_expires :: "bool"
  cr_ttl :: "u32"
  cr_data :: "bytes"
  cr_subs :: "(string, subscribe_result) hashmap"
  cr_ping :: "u32"
  cr_pong :: "bool"
  cr_session :: "string"
  cr_node :: "string"
  cr_time :: "u64"

record refresh_request =
  rq_token :: "string"

record refresh_result =
  rr_client :: "string"
  rr_version :: "string"
  rr_expires :: "bool"
  rr_ttl :: "u32"

record sub_refresh_request =
  srq_channel :: "string"
  srq_token :: "string"

record sub_refresh_result =
  srr_expires :: "bool"
  srr_ttl :: "u32"

record unsubscribe_request =
  uq_channel :: "string"

record publish_request =
  pq_channel :: "string"
  pq_data :: "bytes"

record presence_request =
  prq_channel :: "string"

record presence_result =
  prr_presence :: "(string, proto_client_info) hashmap"

record presence_stats_request =
  psq_channel :: "string"

record presence_stats_result =
  psr_num_clients :: "u32"
  psr_num_users :: "u32"

record proto_stream_position =
  psp_offset :: "u64"
  psp_epoch :: "string"

record history_request =
  hq_channel :: "string"
  hq_limit :: "u32"
  hq_since :: "proto_stream_position option"
  hq_reverse :: "bool"

record history_result =
  hr_publications :: "proto_publication list"
  hr_epoch :: "string"
  hr_offset :: "u64"

record rpc_request =
  rpq_data :: "bytes"
  rpq_method :: "string"

record rpc_result =
  rpr_data :: "bytes"

record send_request =
  snq_data :: "bytes"

record proto_command =
  cmd_id :: "u32"
  cmd_connect :: "connect_request option"
  cmd_subscribe :: "subscribe_request option"
  cmd_unsubscribe :: "unsubscribe_request option"
  cmd_publish :: "publish_request option"
  cmd_presence :: "presence_request option"
  cmd_presence_stats :: "presence_stats_request option"
  cmd_history :: "history_request option"
  cmd_ping :: "unit option"
  cmd_send :: "send_request option"
  cmd_rpc :: "rpc_request option"
  cmd_refresh :: "refresh_request option"
  cmd_sub_refresh :: "sub_refresh_request option"

record proto_reply =
  rp_id :: "u32"
  rp_error :: "proto_error option"
  rp_push :: "proto_push option"
  rp_connect :: "connect_result option"
  rp_subscribe :: "subscribe_result option"
  rp_unsubscribe :: "unit option"
  rp_publish :: "unit option"
  rp_presence :: "presence_result option"
  rp_presence_stats :: "presence_stats_result option"
  rp_history :: "history_result option"
  rp_ping :: "unit option"
  rp_rpc :: "rpc_result option"
  rp_refresh :: "refresh_result option"
  rp_sub_refresh :: "sub_refresh_result option"

text \<open>\<open>..Default::default()\<close>\<close>

definition default_command :: proto_command where
  "default_command = \<lparr>cmd_id = 0, cmd_connect = None, cmd_subscribe = None, cmd_unsubscribe = None,
     cmd_publish = None, cmd_presence = None, cmd_presence_stats = None, cmd_history = None,
     cmd_ping = None, cmd_send = None, cmd_rpc = None, cmd_refresh = None, cmd_sub_refresh = None\<rparr>"

definition default_reply :: proto_reply where
  "default_reply = \<lparr>rp_id = 0, rp_error = None, rp_push = None, rp_connect = None, rp_subscribe = None,
     rp_unsubscribe = None, rp_publish = None, rp_presence = None, rp_presence_stats = None,
     rp_history = None, rp_ping = None, rp_rpc = None, rp_refresh = None, rp_sub_refresh = None\<rparr>"

definition default_subscribe_request :: subscribe_request where
  "default_subscribe_request = \<lparr>sq_channel = [], sq_token = [], sq_recover = False, sq_epoch = [],
     sq_offset = 0, sq_data = [], sq_positioned = False, sq_recoverable = False,
     sq_join_leave = False, sq_delta = [], sq_tf = None, sq_flag = 0\<rparr>"

definition default_subscribe_result :: subscribe_result where
  "default_subscribe_result = \<lparr>sr_expires = False, sr_ttl = 0, sr_recoverable = False, sr_epoch = [],
     sr_publications = [], sr_recovered = False, sr_offset = 0, sr_positioned = False, sr_data = [],
     sr_was_recovering = False, sr_delta = False, sr_id = 0\<rparr>"

definition default_connect_result :: connect_result where
  "default_connect_result = \<lparr>cr_client = [], cr_version = [], cr_expires = False, cr_ttl = 0,
     cr_data = [], cr_subs = hm_empty, cr_ping = 0, cr_pong = False, cr_session = [], cr_node = [],
     cr_time = 0\<rparr>"

definition default_publication :: proto_publication where
  "default_publication = \<lparr>pp_data = [], pp_info = None, pp_offset = 0, pp_tags = hm_empty,
     pp_delta = False, pp_time = 0, pp_channel = []\<rparr>"

definition default_push :: proto_push where
  "default_push = \<lparr>ph_id = 0, ph_channel = [], ph_pub = None, ph_join = None, ph_leave = None,
     ph_unsubscribe = None, ph_message = None, ph_subscribe = None, ph_connect = None,
     ph_disconnect = None, ph_refresh = None\<rparr>"

section \<open>States\<close>

datatype client_state = Disconnected | Connecting | Connected | Closed

fun as_u8 :: "client_state \<Rightarrow> u8" where
  "as_u8 Disconnected = 0"
| "as_u8 Connecting = 1"
| "as_u8 Connected = 2"
| "as_u8 Closed = 3"

definition from_u8 :: "u8 \<Rightarrow> client_state" where
  "from_u8 v = (if v = 1 then Connecting else if v = 2 then Connected else if v = 3 then Closed
     else Disconnected)"

lemma from_u8_as_u8 [simp]: "from_u8 (as_u8 s) = s"
  by (cases s) (simp_all add: from_u8_def)

datatype subscription_state = Unsubscribed | Subscribing | Subscribed

section \<open>Public data and contexts\<close>


record stream_position =
  sp_offset :: "u64"
  sp_epoch :: "string"

record client_info =
  ci_client :: "string"
  ci_user :: "string"
  ci_conn_info :: "bytes"
  ci_chan_info :: "bytes"

record publication =
  pub_data :: "bytes"
  pub_info :: "client_info option"
  pub_offset :: "u64"
  pub_tags :: "(string, string) hashmap"

record history_options =
  ho_limit :: "u32"
  ho_since :: "stream_position option"
  ho_reverse :: "bool"

record history_result_out =
  hro_publications :: "publication list"
  hro_offset :: "u64"
  hro_epoch :: "string"

record connected_context =
  cc_client_id :: "string"
  cc_version :: "string"
  cc_data :: "bytes"
  cc_session :: "string"
  cc_node :: "string"

record subscribed_context =
  sc_channel :: "string"
  sc_recoverable :: "bool"
  sc_positioned :: "bool"
  sc_stream_position :: "stream_position option"
  sc_was_recovering :: "bool"
  sc_recovered :: "bool"
  sc_has_recovered_publications :: "bool"
  sc_data :: "bytes"

record connecting_context =
  cgc_code :: u32
  cgc_reason :: string

record disconnected_context =
  dcc_code :: u32
  dcc_reason :: string

record subscribing_context =
  sgc_code :: u32
  sgc_reason :: string

record unsubscribed_context =
  usc_code :: u32
  usc_reason :: string

record error_context =
  erc_error :: string

record message_context =
  msc_data :: bytes

record server_subscribed_event =
  sse_channel :: string
  sse_recoverable :: bool
  sse_positioned :: bool
  sse_stream_position :: "stream_position option"
  sse_was_recovering :: bool
  sse_recovered :: bool
  sse_has_recovered_publications :: bool
  sse_data :: bytes

record server_subscribing_context =
  ssg_channel :: string
  ssg_code :: u32
  ssg_reason :: string

record server_unsubscribed_context =
  suc_channel :: string
  suc_code :: u32
  suc_reason :: string

record server_publication_context =
  spc_channel :: string
  spc_publication :: publication

record server_join_context =
  sjc_channel :: string
  sjc_info :: client_info

record server_leave_context =
  slc_channel :: string
  slc_info :: client_info

record presence_result_out =
  pro_presence :: "(string, client_info) hashmap"

record presence_stats_out =
  pso_num_clients :: u32
  pso_num_users :: u32

record rpc_result_out =
  rro_data :: bytes

datatype sub_event =
    SubscribingEvent subscribing_context
  | SE_Subscribed subscribed_context
  | UnsubscribedEvent unsubscribed_context
  | SE_Publication publication
  | SE_Join client_info
  | SE_Leave client_info
  | SubErrorEvent error_context

datatype client_event =
    ConnectingEvent connecting_context
  | CE_Connected connected_context
  | DisconnectedEvent disconnected_context
  | ErrorEvent error_context
  | MessageEvent message_context
  | CE_ServerSubscribed server_subscribed_event
  | ServerSubscribingEvent server_subscribing_context
  | ServerUnsubscribedEvent server_unsubscribed_context
  | ServerPublicationEvent server_publication_context
  | ServerJoinEvent server_join_context
  | ServerLeaveEvent server_leave_context

text \<open>Events with their contexts filled in.\<close>

abbreviation SE_Subscribing :: "u32 \<Rightarrow> string \<Rightarrow> sub_event" where
  "SE_Subscribing code reason \<equiv> SubscribingEvent \<lparr>sgc_code = code, sgc_reason = reason\<rparr>"

abbreviation SE_Unsubscribed :: "u32 \<Rightarrow> string \<Rightarrow> sub_event" where
  "SE_Unsubscribed code reason \<equiv> UnsubscribedEvent \<lparr>usc_code = code, usc_reason = reason\<rparr>"

abbreviation SE_Error :: "string \<Rightarrow> sub_event" where
  "SE_Error error \<equiv> SubErrorEvent \<lparr>erc_error = error\<rparr>"

abbreviation CE_Connecting :: "u32 \<Rightarrow> string \<Rightarrow> client_event" where
  "CE_Connecting code reason \<equiv> ConnectingEvent \<lparr>cgc_code = code, cgc_reason = reason\<rparr>"

abbreviation CE_Disconnected :: "u32 \<Rightarrow> string \<Rightarrow> client_event" where
  "CE_Disconnected code reason \<equiv> DisconnectedEvent \<lparr>dcc_code = code, dcc_reason = reason\<rparr>"

abbreviation CE_Error :: "string \<Rightarrow> client_event" where
  "CE_Error error \<equiv> ErrorEvent \<lparr>erc_error = error\<rparr>"

abbreviation CE_Message :: "bytes \<Rightarrow> client_event" where
  "CE_Message data \<equiv> MessageEvent \<lparr>msc_data = data\<rparr>"

abbreviation CE_ServerSubscribing :: "string \<Rightarrow> u32 \<Rightarrow> string \<Rightarrow> client_event" where
  "CE_ServerSubscribing channel code reason \<equiv> ServerSubscribingEvent \<lparr>ssg_channel = channel, ssg_code = code, ssg_reason = reason\<rparr>"

abbreviation CE_ServerUnsubscribed :: "string \<Rightarrow> u32 \<Rightarrow> string \<Rightarrow> client_event" where
  "CE_ServerUnsubscribed channel code reason \<equiv> ServerUnsubscribedEvent \<lparr>suc_channel = channel, suc_code = code, suc_reason = reason\<rparr>"

abbreviation CE_ServerPublication :: "string \<Rightarrow> publication \<Rightarrow> client_event" where
  "CE_ServerPublication channel publication \<equiv> ServerPublicationEvent \<lparr>spc_channel = channel, spc_publication = publication\<rparr>"

abbreviation CE_ServerJoin :: "string \<Rightarrow> client_info \<Rightarrow> client_event" where
  "CE_ServerJoin channel info \<equiv> ServerJoinEvent \<lparr>sjc_channel = channel, sjc_info = info\<rparr>"

abbreviation CE_ServerLeave :: "string \<Rightarrow> client_info \<Rightarrow> client_event" where
  "CE_ServerLeave channel info \<equiv> ServerLeaveEvent \<lparr>slc_channel = channel, slc_info = info\<rparr>"

section \<open>Conversions\<close>

definition client_info_from :: "proto_client_info \<Rightarrow> client_info" where
  "client_info_from i = \<lparr>ci_client = pci_client i, ci_user = pci_user i,
     ci_conn_info = pci_conn_info i, ci_chan_info = pci_chan_info i\<rparr>"

definition default_client_info :: client_info where
  "default_client_info = \<lparr>ci_client = [], ci_user = [], ci_conn_info = [], ci_chan_info = []\<rparr>"

definition publication_from :: "proto_publication \<Rightarrow> publication" where
  "publication_from p = \<lparr>pub_data = pp_data p, pub_info = map_option client_info_from (pp_info p),
     pub_offset = pp_offset p, pub_tags = pp_tags p\<rparr>"

definition server_error_from :: "proto_error \<Rightarrow> server_error" where
  "server_error_from e = \<lparr>se_code = pe_code e, se_message = pe_message e, se_temporary = pe_temporary e\<rparr>"

section \<open>History options\<close>

definition default_history_options :: history_options where
  "default_history_options = \<lparr>ho_limit = 0, ho_since = None, ho_reverse = False\<rparr>"

definition with_limit :: "u32 \<Rightarrow> history_options" where
  "with_limit limit = default_history_options\<lparr>ho_limit := limit\<rparr>"

definition ho_with_since :: "stream_position \<Rightarrow> history_options \<Rightarrow> history_options" where
  "ho_with_since pos opts = opts\<lparr>ho_since := Some pos\<rparr>"

definition ho_with_reverse :: "history_options \<Rightarrow> history_options" where
  "ho_with_reverse opts = opts\<lparr>ho_reverse := True\<rparr>"

end
