(* ===== verification/Config.thy ===== *)
theory Config
  imports Protocol
begin

text \<open>
  \<open>src/config.rs\<close>: the client and subscription configurations, their defaults, validation and
  builders. A callback is a function of the number of external interactions so far, so that it may
  answer differently each time it is called.
\<close>

section \<open>Strings\<close>

text \<open>
  \<open>String::truncate\<close> panics (\<open>None\<close>) when the cut is not on a character boundary of the UTF-8
  bytes: a cut is on a boundary when it is at an end or the byte there is no continuation byte.
\<close>

definition is_continuation :: "char \<Rightarrow> bool" where
  "is_continuation c = (128 \<le> (of_char c :: nat) \<and> (of_char c :: nat) < 192)"

definition is_char_boundary :: "string \<Rightarrow> nat \<Rightarrow> bool" where
  "is_char_boundary s n = (n = 0 \<or> n = length s \<or> (n < length s \<and> \<not> is_continuation (s ! n)))"

definition truncate_string :: "nat \<Rightarrow> string \<Rightarrow> string option" where
  "truncate_string n s =
     (if n \<ge> length s then Some s
      else if is_char_boundary s n then Some (take n s) else None)"

section \<open>Client configuration\<close>

datatype protocol_type = Json | Protobuf

text \<open>\<open>#[derive(Default)]\<close> with \<open>#[default]\<close> on a variant: the value, and the instance of the class \<open>default\<close>.\<close>

definition protocol_type_default :: protocol_type where
  "protocol_type_default = Json"

instantiation protocol_type :: default
begin

definition default_protocol_type :: protocol_type where
  "default_protocol_type = protocol_type_default"

instance ..

end

record client_config =
  cfg_url :: string
  cfg_protocol_type :: protocol_type
  cfg_token :: string
  cfg_get_token :: "(nat \<Rightarrow> string res) option"
  cfg_data :: bytes
  cfg_get_data :: "(nat \<Rightarrow> bytes res) option"
  cfg_name :: string
  cfg_version :: string
  cfg_min_reconnect_delay :: duration
  cfg_max_reconnect_delay :: duration
  cfg_timeout :: duration
  cfg_max_server_ping_delay :: duration
  cfg_headers :: "(string, string) hashmap"

definition default_client_config :: client_config where
  "default_client_config = \<lparr>cfg_url = [], cfg_protocol_type = Json, cfg_token = [],
     cfg_get_token = None, cfg_data = [], cfg_get_data = None, cfg_name = ''rs'', cfg_version = [],
     cfg_min_reconnect_delay = from_millis 500, cfg_max_reconnect_delay = from_secs 20,
     cfg_timeout = from_secs 5, cfg_max_server_ping_delay = from_secs 10, cfg_headers = hm_empty\<rparr>"

definition new_client_config :: "string \<Rightarrow> client_config" where
  "new_client_config url = default_client_config\<lparr>cfg_url := url\<rparr>"

definition validate_client_config :: "client_config \<Rightarrow> unit res" where
  "validate_client_config c =
     (if cfg_url c = [] then Inl (BadConfiguration ''url must not be empty'')
      else if cfg_min_reconnect_delay c > cfg_max_reconnect_delay c then
        Inl (BadConfiguration ''min_reconnect_delay must be <= max_reconnect_delay'')
      else if cfg_timeout c = 0 then Inl (BadConfiguration ''timeout must be > 0'')
      else Inr ())"

text \<open>The four helpers box a closure; the callback is the closure.\<close>

definition get_token_fn :: "(nat \<Rightarrow> string res) \<Rightarrow> (nat \<Rightarrow> string res)" where
  "get_token_fn f = (\<lambda>t. f t)"

definition get_sub_token_fn :: "(string \<Rightarrow> nat \<Rightarrow> string res) \<Rightarrow> (string \<Rightarrow> nat \<Rightarrow> string res)" where
  "get_sub_token_fn f = (\<lambda>channel t. f channel t)"

definition get_data_fn :: "(nat \<Rightarrow> bytes res) \<Rightarrow> (nat \<Rightarrow> bytes res)" where
  "get_data_fn f = (\<lambda>t. f t)"

definition get_sub_data_fn :: "(string \<Rightarrow> nat \<Rightarrow> bytes res) \<Rightarrow> (string \<Rightarrow> nat \<Rightarrow> bytes res)" where
  "get_sub_data_fn f = (\<lambda>channel t. f channel t)"

definition with_protocol_type :: "protocol_type \<Rightarrow> client_config \<Rightarrow> client_config" where
  "with_protocol_type pt c = c\<lparr>cfg_protocol_type := pt\<rparr>"

definition with_token :: "string \<Rightarrow> client_config \<Rightarrow> client_config" where
  "with_token token c = c\<lparr>cfg_token := token\<rparr>"

definition with_get_token :: "(nat \<Rightarrow> string res) \<Rightarrow> client_config \<Rightarrow> client_config" where
  "with_get_token f c = c\<lparr>cfg_get_token := Some f\<rparr>"

definition with_data :: "bytes \<Rightarrow> client_config \<Rightarrow> client_config" where
  "with_data data c = c\<lparr>cfg_data := data\<rparr>"

definition with_get_data :: "(nat \<Rightarrow> bytes res) \<Rightarrow> client_config \<Rightarrow> client_config" where
  "with_get_data f c = c\<lparr>cfg_get_data := Some f\<rparr>"

definition with_name :: "string \<Rightarrow> client_config \<Rightarrow> client_config option" where
  "with_name name c = map_option (\<lambda>n. c\<lparr>cfg_name := n\<rparr>) (truncate_string 16 name)"

definition with_version :: "string \<Rightarrow> client_config \<Rightarrow> client_config option" where
  "with_version version c = map_option (\<lambda>v. c\<lparr>cfg_version := v\<rparr>) (truncate_string 64 version)"

definition with_min_reconnect_delay :: "duration \<Rightarrow> client_config \<Rightarrow> client_config" where
  "with_min_reconnect_delay d c = c\<lparr>cfg_min_reconnect_delay := d\<rparr>"

definition with_max_reconnect_delay :: "duration \<Rightarrow> client_config \<Rightarrow> client_config" where
  "with_max_reconnect_delay d c = c\<lparr>cfg_max_reconnect_delay := d\<rparr>"

definition with_timeout :: "duration \<Rightarrow> client_config \<Rightarrow> client_config" where
  "with_timeout d c = c\<lparr>cfg_timeout := d\<rparr>"

definition with_max_server_ping_delay :: "duration \<Rightarrow> client_config \<Rightarrow> client_config" where
  "with_max_server_ping_delay d c = c\<lparr>cfg_max_server_ping_delay := d\<rparr>"

definition with_header :: "string \<Rightarrow> string \<Rightarrow> client_config \<Rightarrow> client_config" where
  "with_header k v c = c\<lparr>cfg_headers := hm_insert k v (cfg_headers c)\<rparr>"

section \<open>Subscription configuration\<close>

datatype delta_type = DeltaNone | DeltaFossil

definition delta_type_default :: delta_type where
  "delta_type_default = DeltaNone"

instantiation delta_type :: default
begin

definition default_delta_type :: delta_type where
  "default_delta_type = delta_type_default"

instance ..

end

record subscription_config =
  scfg_token :: string
  scfg_get_token :: "(string \<Rightarrow> nat \<Rightarrow> string res) option"
  scfg_data :: bytes
  scfg_get_data :: "(string \<Rightarrow> nat \<Rightarrow> bytes res) option"
  scfg_positioned :: bool
  scfg_recoverable :: bool
  scfg_join_leave :: bool
  scfg_delta :: delta_type
  scfg_tags_filter :: "filter_node option"
  scfg_min_resubscribe_delay :: duration
  scfg_max_resubscribe_delay :: duration
  scfg_since :: "stream_position option"

definition default_subscription_config :: subscription_config where
  "default_subscription_config = \<lparr>scfg_token = [], scfg_get_token = None, scfg_data = [],
     scfg_get_data = None, scfg_positioned = False, scfg_recoverable = False,
     scfg_join_leave = False, scfg_delta = DeltaNone, scfg_tags_filter = None,
     scfg_min_resubscribe_delay = from_millis 500, scfg_max_resubscribe_delay = from_secs 20,
     scfg_since = None\<rparr>"

definition validate_subscription_config :: "subscription_config \<Rightarrow> unit res" where
  "validate_subscription_config c =
     (if scfg_min_resubscribe_delay c > scfg_max_resubscribe_delay c then
        Inl (BadConfiguration ''min_resubscribe_delay must be <= max_resubscribe_delay'')
      else Inr ())"

definition sub_recoverable :: "subscription_config \<Rightarrow> subscription_config" where
  "sub_recoverable c = c\<lparr>scfg_recoverable := True\<rparr>"

definition sub_with_delta :: "delta_type \<Rightarrow> subscription_config \<Rightarrow> subscription_config" where
  "sub_with_delta d c = c\<lparr>scfg_delta := d\<rparr>"

definition sub_join_leave :: "subscription_config \<Rightarrow> subscription_config" where
  "sub_join_leave c = c\<lparr>scfg_join_leave := True\<rparr>"

definition sub_with_token :: "string \<Rightarrow> subscription_config \<Rightarrow> subscription_config" where
  "sub_with_token t c = c\<lparr>scfg_token := t\<rparr>"

definition sub_with_get_token ::
  "(string \<Rightarrow> nat \<Rightarrow> string res) \<Rightarrow> subscription_config \<Rightarrow> subscription_config" where
  "sub_with_get_token f c = c\<lparr>scfg_get_token := Some f\<rparr>"

definition sub_with_since :: "stream_position \<Rightarrow> subscription_config \<Rightarrow> subscription_config" where
  "sub_with_since pos c = c\<lparr>scfg_since := Some pos\<rparr>"

definition sub_with_data :: "bytes \<Rightarrow> subscription_config \<Rightarrow> subscription_config" where
  "sub_with_data d c = c\<lparr>scfg_data := d\<rparr>"

definition sub_with_get_data ::
  "(string \<Rightarrow> nat \<Rightarrow> bytes res) \<Rightarrow> subscription_config \<Rightarrow> subscription_config" where
  "sub_with_get_data f c = c\<lparr>scfg_get_data := Some f\<rparr>"

section \<open>Properties\<close>

text \<open>The configurations start from the defaults of the enums.\<close>

lemma default_config_enums:
  "cfg_protocol_type default_client_config = default" "scfg_delta default_subscription_config = default"
  by (simp_all add: default_client_config_def default_subscription_config_def default_protocol_type_def
      default_delta_type_def protocol_type_default_def delta_type_default_def)

lemma truncate_string_Some: "truncate_string n s = Some t \<Longrightarrow> t = take n s"
  by (auto simp: truncate_string_def split: if_splits)

lemma truncate_string_None_iff:
  "truncate_string n s = None \<longleftrightarrow> 0 < n \<and> n < length s \<and> is_continuation (s ! n)"
  by (auto simp: truncate_string_def is_char_boundary_def)

text \<open>
  The name builder keeps at most 16 bytes, a prefix of the name given, and it aborts exactly
  when the sixteenth byte falls inside a multi-byte character.
\<close>

theorem with_name_spec:
  "with_name name c =
     (if 16 < length name \<and> is_continuation (name ! 16) then None
      else Some (c\<lparr>cfg_name := take 16 name\<rparr>))"
proof (cases "truncate_string 16 name")
  case None
  then show ?thesis by (auto simp: with_name_def truncate_string_None_iff)
next
  case (Some t)
  then have "\<not> (16 < length name \<and> is_continuation (name ! 16))"
    using truncate_string_None_iff [of 16 name] by simp
  then show ?thesis using truncate_string_Some [OF Some] Some by (simp add: with_name_def)
qed

text \<open>
  A name of sixteen two-byte characters is within the documented limit of 16 characters, is 32 bytes
  long and is cut to its first eight characters; one ASCII letter before it makes the builder abort.
\<close>

definition e_acute :: string where
  "e_acute = [char_of (195 :: nat), char_of (169 :: nat)]"

lemma with_name_aborts: "with_name (CHR ''a'' # concat (replicate 8 e_acute)) c = None"
proof -
  have "replicate 8 e_acute = [e_acute, e_acute, e_acute, e_acute, e_acute, e_acute, e_acute, e_acute]"
    by (simp add: eval_nat_numeral)
  then show ?thesis
    by (simp add: with_name_def truncate_string_def is_char_boundary_def e_acute_def is_continuation_def)
qed

lemma default_config_valid: "url \<noteq> [] \<Longrightarrow> validate_client_config (new_client_config url) = Inr ()"
  by (simp add: validate_client_config_def new_client_config_def default_client_config_def
      from_millis_def from_secs_def)

end
