(* ===== verification/Codec.thy ===== *)
theory Codec
  imports Config
begin

text \<open>
  \<open>src/codec.rs\<close>: the JSON and Protobuf codecs. The framing (newline-separated lines, varint length
  prefixes) is the crate's and is modelled; \<open>serde_json\<close> and \<open>prost\<close> are the parameters of
  \<open>codec_env\<close>. What \<open>flush_batch\<close> relies on, that single commands encoded one by one and combined
  are the encoding of the whole list, is the locale \<open>batch_codec\<close>.
\<close>

section \<open>The libraries as parameters\<close>

text \<open>
  \<open>decode_varint\<close> advances its buffer by one to ten bytes; the parameter returns the value and the
  number of bytes taken after the first one, so the model advances by at least one byte.
  \<open>json_as_str\<close> gives the bytes of the string a JSON document consists of, if it is one.
\<close>

record codec_env =
  json_to_string :: "proto_command \<Rightarrow> string + bytes"
  json_from_str :: "nat list \<Rightarrow> string + proto_reply"
  encode_to_vec :: "proto_command \<Rightarrow> bytes"
  reply_decode :: "bytes \<Rightarrow> string + proto_reply"
  encode_varint :: "u64 \<Rightarrow> bytes"
  decode_varint :: "bytes \<Rightarrow> string + (u64 \<times> nat)"
  utf8_error :: "bytes \<Rightarrow> string"
  json_as_str :: "bytes \<Rightarrow> bytes option"

section \<open>Text\<close>

text \<open>\<open>std::str::from_utf8\<close>: the code points of well-formed UTF-8, nothing otherwise.\<close>

definition utf8_tail :: "u8 \<Rightarrow> bool" where
  "utf8_tail b = (128 \<le> unat b \<and> unat b < 192)"

fun from_utf8 :: "bytes \<Rightarrow> nat list option" where
  "from_utf8 [] = Some []"
| "from_utf8 (b # bs) =
     (let b0 = unat b in
      if b0 < 128 then map_option ((#) b0) (from_utf8 bs)
      else if 194 \<le> b0 \<and> b0 \<le> 223 then
        (case bs of b1 # r \<Rightarrow>
           if utf8_tail b1
           then map_option ((#) ((b0 - 192) * 64 + (unat b1 - 128))) (from_utf8 r) else None
         | _ \<Rightarrow> None)
      else if 224 \<le> b0 \<and> b0 \<le> 239 then
        (case bs of b1 # b2 # r \<Rightarrow>
           if utf8_tail b1 \<and> utf8_tail b2 \<and> (b0 = 224 \<longrightarrow> 160 \<le> unat b1) \<and> (b0 = 237 \<longrightarrow> unat b1 < 160)
           then map_option ((#) ((b0 - 224) * 4096 + (unat b1 - 128) * 64 + (unat b2 - 128))) (from_utf8 r)
           else None
         | _ \<Rightarrow> None)
      else if 240 \<le> b0 \<and> b0 \<le> 244 then
        (case bs of b1 # b2 # b3 # r \<Rightarrow>
           if utf8_tail b1 \<and> utf8_tail b2 \<and> utf8_tail b3
              \<and> (b0 = 240 \<longrightarrow> 144 \<le> unat b1) \<and> (b0 = 244 \<longrightarrow> unat b1 < 144)
           then map_option ((#) ((b0 - 240) * 262144 + (unat b1 - 128) * 4096 + (unat b2 - 128) * 64
                  + (unat b3 - 128))) (from_utf8 r)
           else None
         | _ \<Rightarrow> None)
      else None)"

text \<open>\<open>str::trim\<close>: strips the code points with the Unicode \<open>White_Space\<close> property.\<close>

definition is_white_space :: "nat \<Rightarrow> bool" where
  "is_white_space c =
     (9 \<le> c \<and> c \<le> 13 \<or> c \<in> set [32, 133, 160, 5760, 8232, 8233, 8239, 8287, 12288]
      \<or> 8192 \<le> c \<and> c \<le> 8202)"

definition trim :: "nat list \<Rightarrow> nat list" where
  "trim s = rev (dropWhile is_white_space (rev (dropWhile is_white_space s)))"

section \<open>JSON\<close>

definition json_encode_commands :: "codec_env \<Rightarrow> proto_command list \<Rightarrow> bytes res" where
  "json_encode_commands E commands =
     and_then (collect_results (map (\<lambda>cmd. case json_to_string E cmd of
         Inl e \<Rightarrow> Inl (Protocol (''json encode: '' @ e)) | Inr json \<Rightarrow> Inr json) commands))
       (\<lambda>parts. Inr (join_with [10] parts))"

fun json_decode_lines :: "codec_env \<Rightarrow> nat list list \<Rightarrow> proto_reply list res" where
  "json_decode_lines E [] = Inr []"
| "json_decode_lines E (line # rest) =
     (let line = trim line in
      if line = [] then json_decode_lines E rest
      else case json_from_str E line of
          Inl e \<Rightarrow> Inl (Protocol (''json decode: '' @ e))
        | Inr reply \<Rightarrow> and_then (json_decode_lines E rest) (\<lambda>replies. Inr (reply # replies)))"

definition json_decode_replies :: "codec_env \<Rightarrow> bytes \<Rightarrow> proto_reply list res" where
  "json_decode_replies E data =
     (case from_utf8 data of
        None \<Rightarrow> Inl (Protocol (utf8_error E data))
      | Some text \<Rightarrow> json_decode_lines E (split_on 10 text))"

section \<open>Protobuf\<close>

definition pb_frame :: "codec_env \<Rightarrow> bytes \<Rightarrow> bytes" where
  "pb_frame E encoded = encode_varint E (of_nat (length encoded)) @ encoded"

definition pb_encode_commands :: "codec_env \<Rightarrow> proto_command list \<Rightarrow> bytes res" where
  "pb_encode_commands E commands = Inr (concat (map (\<lambda>cmd. pb_frame E (encode_to_vec E cmd)) commands))"

text \<open>\<open>usize::try_from\<close> on a \<open>u64\<close> cannot fail on a 64-bit target.\<close>

function pb_decode_replies :: "codec_env \<Rightarrow> bytes \<Rightarrow> proto_reply list res" where
  "pb_decode_replies E buf =
     (if buf = [] then Inr []
      else case decode_varint E buf of
          Inl e \<Rightarrow> Inl (Protocol (''varint decode: '' @ e))
        | Inr (len, extra) \<Rightarrow>
            let buf = drop (Suc extra) buf; n = unat len in
            if n > length buf then Inl (Protocol ''protobuf frame exceeds data length'')
            else (case reply_decode E (take n buf) of
                Inl e \<Rightarrow> Inl (Protocol (''protobuf decode: '' @ e))
              | Inr reply \<Rightarrow>
                  and_then (pb_decode_replies E (drop n buf)) (\<lambda>replies. Inr (reply # replies))))"
  by pat_completeness auto
termination
  by (relation "measure (\<lambda>(E, buf). length buf)") auto

declare pb_decode_replies.simps [simp del]

section \<open>The codec of a protocol type\<close>

definition encode_commands :: "codec_env \<Rightarrow> protocol_type \<Rightarrow> proto_command list \<Rightarrow> bytes res" where
  "encode_commands E pt commands =
     (case pt of Json \<Rightarrow> json_encode_commands E commands | Protobuf \<Rightarrow> pb_encode_commands E commands)"

definition decode_replies :: "codec_env \<Rightarrow> protocol_type \<Rightarrow> bytes \<Rightarrow> proto_reply list res" where
  "decode_replies E pt data =
     (case pt of Json \<Rightarrow> json_decode_replies E data | Protobuf \<Rightarrow> pb_decode_replies E data)"

text \<open>How \<open>flush_batch\<close> puts separately encoded entries together.\<close>

definition combine_batch :: "protocol_type \<Rightarrow> bytes list \<Rightarrow> bytes" where
  "combine_batch pt queue = (case pt of Json \<Rightarrow> join_with [10] queue | Protobuf \<Rightarrow> concat queue)"

section \<open>The contract batching relies on\<close>

locale batch_codec =
  fixes encode :: "'c list \<Rightarrow> 'e + 'b list"
    and combine :: "'b list list \<Rightarrow> 'b list"
  assumes encode_all: "collect_results (map (\<lambda>c. encode [c]) cs) = Inr ds \<Longrightarrow> encode cs = Inr (combine ds)"
    and combine_one: "combine [d] = d"
begin

lemma encode_singleton_fixed: "encode [c] = Inr d \<Longrightarrow> encode [c] = Inr (combine [d])"
  by (simp add: combine_one)

text \<open>Appending one more encoded command to a queue.\<close>

lemma encode_snoc:
  assumes "collect_results (map (\<lambda>c. encode [c]) cs) = Inr ds" and "encode [c] = Inr d"
  shows "encode (cs @ [c]) = Inr (combine (ds @ [d]))"
  using assms by (intro encode_all) (simp add: collect_results_append)

lemma encode_agrees:
  assumes "collect_results (map (\<lambda>c. encode [c]) cs) = Inr ds"
    and "collect_results (map (\<lambda>c. encode [c]) cs') = Inr ds"
  shows "encode cs = encode cs'"
  using encode_all [OF assms(1)] encode_all [OF assms(2)] by simp

end

lemma json_encode_one: "json_encode_commands E [c] =
    (case json_to_string E c of Inl e \<Rightarrow> Inl (Protocol (''json encode: '' @ e)) | Inr j \<Rightarrow> Inr j)"
  by (auto simp: json_encode_commands_def split: sum.splits)

interpretation json: batch_codec "json_encode_commands E" "combine_batch Json" for E
proof
  fix cs ds
  assume "collect_results (map (\<lambda>c. json_encode_commands E [c]) cs) = Inr ds"
  then show "json_encode_commands E cs = Inr (combine_batch Json ds)"
    by (simp add: json_encode_one) (simp add: json_encode_commands_def combine_batch_def)
qed (simp add: combine_batch_def)

interpretation pb: batch_codec "pb_encode_commands E" "combine_batch Protobuf" for E
proof
  fix cs ds
  assume "collect_results (map (\<lambda>c. pb_encode_commands E [c]) cs) = Inr ds"
  then show "pb_encode_commands E cs = Inr (combine_batch Protobuf ds)"
    by (auto simp: pb_encode_commands_def combine_batch_def)
qed (simp add: combine_batch_def)

interpretation codec: batch_codec "encode_commands E pt" "combine_batch pt" for E pt
proof (cases pt)
  case Json
  show "batch_codec (encode_commands E pt) (combine_batch pt)"
    using json.batch_codec_axioms [of E] by (simp add: encode_commands_def [abs_def] Json cong: if_cong)
next
  case Protobuf
  show "batch_codec (encode_commands E pt) (combine_batch pt)"
    using pb.batch_codec_axioms [of E] by (simp add: encode_commands_def [abs_def] Protobuf)
qed

section \<open>Decoding what a server frames\<close>

text \<open>What the Protobuf framing needs of the varint library: reading back what it wrote.\<close>

definition varint_ok :: "codec_env \<Rightarrow> bool" where
  "varint_ok E = (\<forall>n rest. encode_varint E n \<noteq> [] \<and>
     decode_varint E (encode_varint E n @ rest) = Inr (n, length (encode_varint E n) - 1))"

lemma unat_of_nat_u64 [simp]: "n < 2 ^ 64 \<Longrightarrow> unat (word_of_nat n :: u64) = n"
  by (simp add: unat_of_nat)

lemma pb_decode_frame:
  assumes "varint_ok E" and "length m < 2 ^ 64"
  shows "pb_decode_replies E (pb_frame E m @ rest) =
    (case reply_decode E m of
       Inl e \<Rightarrow> Inl (Protocol (''protobuf decode: '' @ e))
     | Inr reply \<Rightarrow> and_then (pb_decode_replies E rest) (\<lambda>replies. Inr (reply # replies)))"
proof -
  let ?v = "encode_varint E (of_nat (length m))"
  have ne: "?v \<noteq> []" and dec: "decode_varint E (?v @ m @ rest) = Inr (of_nat (length m), length ?v - 1)"
    using assms(1) by (auto simp: varint_ok_def)
  have "Suc (length ?v - 1) = length ?v" using ne by (cases ?v) auto
  then have "drop (Suc (length ?v - 1)) (?v @ m @ rest) = m @ rest" by simp
  with ne dec assms(2) show ?thesis
    by (subst pb_decode_replies.simps) (simp add: pb_frame_def Let_def split: sum.splits)
qed

text \<open>
  C31. A frame the server builds from any list of Protobuf messages, each with its varint length
  prefix, decodes to the list of their decodings, in order.
\<close>

theorem pb_decode_frames:
  assumes "varint_ok E" and "\<forall>m \<in> set ms. length m < 2 ^ 64"
    and "map (reply_decode E) ms = map Inr rs"
  shows "pb_decode_replies E (concat (map (pb_frame E) ms)) = Inr rs"
  using assms(2,3)
proof (induction ms arbitrary: rs)
  case Nil
  then show ?case by (simp add: pb_decode_replies.simps)
next
  case (Cons m ms)
  then obtain r rs' where "rs = r # rs'" "reply_decode E m = Inr r" "map (reply_decode E) ms = map Inr rs'"
    by (cases rs) auto
  with Cons show ?case using assms(1) by (simp add: pb_decode_frame)
qed

text \<open>The varint format of Protobuf: little-endian groups of seven bits.\<close>

fun leb128_encode :: "nat \<Rightarrow> bytes" where
  "leb128_encode n =
     (if n < 128 then [of_nat n] else of_nat (n mod 128 + 128) # leb128_encode (n div 128))"

declare leb128_encode.simps [simp del]

fun leb128_decode :: "bytes \<Rightarrow> (nat \<times> nat) option" where
  "leb128_decode [] = None"
| "leb128_decode (b # bs) =
     (if unat b < 128 then Some (unat b, 0)
      else map_option (\<lambda>(v, k). (unat b - 128 + 128 * v, Suc k)) (leb128_decode bs))"

lemma leb128_nonempty: "leb128_encode n \<noteq> []"
  by (subst leb128_encode.simps) simp

lemma leb128_roundtrip:
  "leb128_decode (leb128_encode n @ rest) = Some (n, length (leb128_encode n) - 1)"
proof (induction n rule: leb128_encode.induct)
  case (1 n)
  show ?case
  proof (cases "n < 128")
    case True
    then show ?thesis by (simp add: leb128_encode.simps [of n] unat_of_nat)
  next
    case False
    have "unat (word_of_nat (n mod 128 + 128) :: u8) = n mod 128 + 128"
      by (subst unat_of_nat) simp
    moreover have "length (leb128_encode (n div 128)) > 0" using leb128_nonempty by simp
    ultimately show ?thesis using False "1.IH"
      by (simp add: leb128_encode.simps [of n])
  qed
qed

definition sample_codec :: codec_env where
  "sample_codec = \<lparr>json_to_string = (\<lambda>c. Inr [123, 125]),
     json_from_str = (\<lambda>t. Inr (default_reply\<lparr>rp_id := of_nat (length t)\<rparr>)),
     encode_to_vec = (\<lambda>c. [8, ucast (cmd_id c)]),
     reply_decode = (\<lambda>m. Inr (default_reply\<lparr>rp_id := of_nat (length m)\<rparr>)),
     encode_varint = (\<lambda>n. leb128_encode (unat n)),
     decode_varint = (\<lambda>b. case leb128_decode b of None \<Rightarrow> Inl ''invalid varint''
        | Some (n, k) \<Rightarrow> Inr (of_nat n, k)),
     utf8_error = (\<lambda>b. ''invalid utf-8 sequence''),
     json_as_str = (\<lambda>b. if length b \<ge> 2 \<and> hd b = 34 \<and> last b = 34 then Some (butlast (tl b)) else None)\<rparr>"

lemma sample_codec_varint_ok: "varint_ok sample_codec"
  by (simp add: varint_ok_def sample_codec_def leb128_nonempty leb128_roundtrip)

theorem pb_decode_frames_witness:
  "pb_decode_replies sample_codec (concat (map (pb_frame sample_codec) [[8, 1], []]))
   = Inr [default_reply\<lparr>rp_id := 2\<rparr>, default_reply\<lparr>rp_id := 0\<rparr>]"
  by (rule pb_decode_frames [OF sample_codec_varint_ok]) (simp_all add: sample_codec_def)

text \<open>A frame that announces more bytes than there are is refused, whatever came before it.\<close>

lemma pb_decode_truncated:
  assumes "varint_ok E" and "n < 2 ^ 64" and "length part < n"
  shows "pb_decode_replies E (encode_varint E (of_nat n) @ part)
    = Inl (Protocol ''protobuf frame exceeds data length'')"
proof -
  let ?v = "encode_varint E (of_nat n)"
  have ne: "?v \<noteq> []" and dec: "decode_varint E (?v @ part) = Inr (of_nat n, length ?v - 1)"
    using assms(1) by (auto simp: varint_ok_def)
  have "Suc (length ?v - 1) = length ?v" using ne by (cases ?v) auto
  then have "drop (Suc (length ?v - 1)) (?v @ part) = part" by simp
  with ne dec assms(2,3) show ?thesis
    by (subst pb_decode_replies.simps) (simp add: Let_def)
qed

text \<open>
  Truncation: when the last frame of a message announces more bytes than arrived, decoding fails
  and none of the replies before it is delivered.
\<close>

theorem pb_decode_truncated_frames:
  assumes "varint_ok E" and "\<forall>m \<in> set ms. length m < 2 ^ 64 \<and> is_ok (reply_decode E m)"
    and "n < 2 ^ 64" and "length part < n"
  shows "pb_decode_replies E (concat (map (pb_frame E) ms) @ encode_varint E (of_nat n) @ part)
    = Inl (Protocol ''protobuf frame exceeds data length'')"
  using assms(2)
proof (induction ms)
  case Nil
  then show ?case using assms by (simp add: pb_decode_truncated)
next
  case (Cons m ms)
  then have "is_ok (reply_decode E m)" by simp
  with Cons show ?case
    using assms(1) by (cases "reply_decode E m") (simp_all add: pb_decode_frame)
qed

theorem pb_decode_truncated_frames_witness:
  "pb_decode_replies sample_codec
     (concat (map (pb_frame sample_codec) [[8, 1]]) @ encode_varint sample_codec (of_nat 5) @ [8])
   = Inl (Protocol ''protobuf frame exceeds data length'')"
  by (rule pb_decode_truncated_frames [OF sample_codec_varint_ok]) (simp_all add: sample_codec_def)

section \<open>JSON lines\<close>

lemma from_utf8_ascii: "\<forall>b \<in> set bs. unat b < 128 \<Longrightarrow> from_utf8 bs = Some (map unat bs)"
  by (induction bs) (auto simp: Let_def)

text \<open>A line as the server writes it: not empty, no newline inside, no white space at its ends.\<close>

definition clean_line :: "nat list \<Rightarrow> bool" where
  "clean_line l = (l \<noteq> [] \<and> 10 \<notin> set l \<and> \<not> is_white_space (hd l) \<and> \<not> is_white_space (last l))"

lemma trim_clean: "clean_line l \<Longrightarrow> trim l = l"
proof -
  assume l: "clean_line l"
  then have "dropWhile is_white_space l = l" "dropWhile is_white_space (rev l) = rev l"
    by (auto simp: clean_line_def dropWhile_eq_self_iff hd_rev)
  then show ?thesis by (simp add: trim_def)
qed

lemma json_decode_clean_lines:
  assumes "\<forall>l \<in> set ls. clean_line l" and "map (json_from_str E) ls = map Inr rs"
  shows "json_decode_lines E ls = Inr rs"
  using assms
proof (induction ls arbitrary: rs)
  case Nil
  then show ?case by simp
next
  case (Cons l ls)
  then obtain r rs' where "rs = r # rs'" "json_from_str E l = Inr r" "map (json_from_str E) ls = map Inr rs'"
    by (cases rs) auto
  with Cons show ?case by (simp add: Let_def trim_clean) (simp add: clean_line_def)
qed

text \<open>
  C32. A JSON message of lines joined by newlines decodes to the list of the lines' replies, in
  order; an empty message decodes to no reply. (A line is taken as it is if it is not blank, has no
  newline in it and no white space around it.)
\<close>

theorem json_decode_frames:
  assumes "from_utf8 data = Some (join_with [10] ls)"
    and "\<forall>l \<in> set ls. clean_line l" and "map (json_from_str E) ls = map Inr rs"
  shows "json_decode_replies E data = Inr rs"
proof (cases "ls = []")
  case True
  with assms show ?thesis by (simp add: json_decode_replies_def trim_def)
next
  case False
  have "split_on 10 (join_with [10] ls) = ls"
    using assms(2) False by (intro split_on_join_with) (auto simp: clean_line_def)
  with assms show ?thesis by (simp add: json_decode_replies_def json_decode_clean_lines)
qed

theorem json_decode_frames_witness:
  "json_decode_replies sample_codec [123, 125, 10, 123, 49, 125]
   = Inr [default_reply\<lparr>rp_id := 2\<rparr>, default_reply\<lparr>rp_id := 3\<rparr>]"
  by (rule json_decode_frames [of _ "[[123, 125], [123, 49, 125]]"])
    (simp_all add: from_utf8_ascii sample_codec_def clean_line_def is_white_space_def)

end
