(* ===== verification/Delta.thy ===== *)
theory Delta
  imports Prelude
begin

text \<open>
  \<open>src/delta.rs\<close>: applying a Fossil delta. The reader with its position, the base-64 integers, the
  checksum and the command loop are the code's; \<open>Panic\<close> is a value of the model, for the slice
  indexing and the checked additions that a Rust debug build would abort on. The encoder side
  (\<open>encode_int\<close>, of the crate's own tests, and \<open>encode_delta\<close>) is what the server produces.
\<close>

section \<open>Data\<close>

datatype delta_error =
    UnexpectedEnd
  | InvalidByte
  | MissingNewline
  | MissingComma
  | CopyPastSource nat nat nat
  | CopyExceedsLimit
  | InsertExceedsLimit
  | InsertPastDelta
  | BadChecksum u32 u32
  | SizeMismatch nat nat
  | UnknownOperator u8
  | Unterminated

text \<open>What a run of the code can do: panic, return an error, return a value.\<close>

datatype 'a run = Panic | Err delta_error | Ok 'a

fun bind_run :: "'a run \<Rightarrow> ('a \<Rightarrow> 'b run) \<Rightarrow> 'b run" where
  "bind_run Panic f = Panic"
| "bind_run (Err e) f = Err e"
| "bind_run (Ok a) f = f a"

lemma bind_run_Ok_iff: "bind_run r f = Ok b \<longleftrightarrow> (\<exists>a. r = Ok a \<and> f a = Ok b)"
  by (cases r) auto

lemma bind_run_Panic_iff: "bind_run r f = Panic \<longleftrightarrow> r = Panic \<or> (\<exists>a. r = Ok a \<and> f a = Panic)"
  by (cases r) auto

text \<open>Checked 64-bit \<open>usize\<close> and \<open>u32\<close> additions, and slicing \<open>xs[i..j]\<close>.\<close>

definition usize_add :: "nat \<Rightarrow> nat \<Rightarrow> nat run" where
  "usize_add a b = (if a + b < 2 ^ 64 then Ok (a + b) else Panic)"

definition u32_add :: "u32 \<Rightarrow> u32 \<Rightarrow> u32 run" where
  "u32_add a b = (if unat a + unat b < 2 ^ 32 then Ok (a + b) else Panic)"

definition slice :: "'a list \<Rightarrow> nat \<Rightarrow> nat \<Rightarrow> 'a list run" where
  "slice xs i j = (if i \<le> j \<and> j \<le> length xs then Ok (take (j - i) (drop i xs)) else Panic)"

definition Z_VALUE :: "int list" where
  "Z_VALUE = fold (\<lambda>(b, v) t. t[b := v])
    [
     (48, 0), (49, 1), (50, 2), (51, 3), (52, 4), (53, 5), (54, 6), (55, 7), (56, 8), (57,
     9), (65, 10), (66, 11), (67, 12), (68, 13), (69, 14), (70, 15), (71, 16), (72, 17),
     (73, 18), (74, 19), (75, 20), (76, 21), (77, 22), (78, 23), (79, 24), (80, 25), (81,
     26), (82, 27), (83, 28), (84, 29), (85, 30), (86, 31), (87, 32), (88, 33), (89, 34),
     (90, 35), (95, 36), (97, 37), (98, 38), (99, 39), (100, 40), (101, 41), (102, 42),
     (103, 43), (104, 44), (105, 45), (106, 46), (107, 47), (108, 48), (109, 49), (110, 50),
     (111, 51), (112, 52), (113, 53), (114, 54), (115, 55), (116, 56), (117, 57), (118, 58),
     (119, 59), (120, 60), (121, 61), (122, 62), (126, 63)]
    (replicate 128 (-1))"

lemma Z_VALUE_eq: "Z_VALUE =
   [
    -1, -1, -1, -1, -1, -1, -1, -1, -1, -1, -1, -1, -1, -1, -1, -1, -1, -1, -1, -1, -1, -1,
    -1, -1, -1, -1, -1, -1, -1, -1, -1, -1, -1, -1, -1, -1, -1, -1, -1, -1, -1, -1, -1, -1,
    -1, -1, -1, -1, 0, 1, 2, 3, 4, 5, 6, 7, 8, 9, -1, -1, -1, -1, -1, -1, -1, 10, 11, 12,
    13, 14, 15, 16, 17, 18, 19, 20, 21, 22, 23, 24, 25, 26, 27, 28, 29, 30, 31, 32, 33, 34,
    35, -1, -1, -1, -1, 36, -1, 37, 38, 39, 40, 41, 42, 43, 44, 45, 46, 47, 48, 49, 50, 51,
    52, 53, 54, 55, 56, 57, 58, 59, 60, 61, 62, -1, -1, -1, 63, -1
   ]"
  by code_simp

lemma length_Z_VALUE [simp]: "length Z_VALUE = 128"
  by (simp add: Z_VALUE_eq)

section \<open>The reader\<close>

record delta_reader =
  dr_data :: bytes
  dr_pos :: nat

definition new_reader :: "bytes \<Rightarrow> delta_reader" where
  "new_reader d = \<lparr>dr_data = d, dr_pos = 0\<rparr>"

definition have_bytes :: "delta_reader \<Rightarrow> bool" where
  "have_bytes r = (dr_pos r < length (dr_data r))"

definition get_byte :: "delta_reader \<Rightarrow> (u8 \<times> delta_reader) run" where
  "get_byte r =
     (if dr_pos r \<ge> length (dr_data r) then Err UnexpectedEnd
      else Ok (dr_data r ! dr_pos r, r\<lparr>dr_pos := dr_pos r + 1\<rparr>))"

text \<open>\<open>as char\<close> keeps the byte: a byte is the code point of the same number.\<close>

definition get_char :: "delta_reader \<Rightarrow> (u8 \<times> delta_reader) run" where
  "get_char r = get_byte r"

lemma get_byte_Ok:
  "get_byte r = Ok (b, r') \<longleftrightarrow>
     have_bytes r \<and> b = dr_data r ! dr_pos r \<and> r' = r\<lparr>dr_pos := dr_pos r + 1\<rparr>"
  by (auto simp: get_byte_def have_bytes_def)

lemma get_byte_no_panic [simp]: "get_byte r \<noteq> Panic"
  by (simp add: get_byte_def)

function get_int_loop :: "u32 \<Rightarrow> delta_reader \<Rightarrow> (u32 \<times> delta_reader) run" where
  "get_int_loop v r =
     (if have_bytes r then
        case get_byte r of
          Panic \<Rightarrow> Panic
        | Err e \<Rightarrow> Err e
        | Ok (b, r1) \<Rightarrow>
            if unat b \<ge> 128 then Err InvalidByte
            else let c = Z_VALUE ! unat b in
              if c < 0 then
                (if dr_pos r1 = 0 then Panic else Ok (v, r1\<lparr>dr_pos := dr_pos r1 - 1\<rparr>))
              else case u32_add (push_bit 6 v) (word_of_int c) of
                  Panic \<Rightarrow> Panic
                | Err e \<Rightarrow> Err e
                | Ok v' \<Rightarrow> get_int_loop v' r1
      else Ok (v, r))"
  by pat_completeness auto
termination
  by (relation "measure (\<lambda>(v, r). length (dr_data r) - dr_pos r)")
    (auto simp: get_byte_Ok have_bytes_def)

declare get_int_loop.simps [simp del]

definition get_int :: "delta_reader \<Rightarrow> (u32 \<times> delta_reader) run" where
  "get_int r = get_int_loop 0 r"

text \<open>A reader that moved forward on the same data.\<close>

definition advances :: "delta_reader \<Rightarrow> delta_reader \<Rightarrow> bool" where
  "advances r r' = (dr_data r' = dr_data r \<and> dr_pos r \<le> dr_pos r' \<and>
     (dr_pos r \<le> length (dr_data r) \<longrightarrow> dr_pos r' \<le> length (dr_data r)))"

lemma advances_refl [simp]: "advances r r"
  by (simp add: advances_def)

lemma advances_trans [trans]: "advances r r' \<Longrightarrow> advances r' r'' \<Longrightarrow> advances r r''"
  by (auto simp: advances_def)

lemma get_byte_advances: "get_byte r = Ok (b, r') \<Longrightarrow> advances r r' \<and> dr_pos r < dr_pos r'"
  by (auto simp: get_byte_Ok advances_def have_bytes_def)

lemma get_int_loop_advances: "get_int_loop v r = Ok (n, r') \<Longrightarrow> advances r r'"
proof (induction v r rule: get_int_loop.induct)
  case (1 v r)
  show ?case
  proof (cases "have_bytes r")
    case False
    with "1.prems" show ?thesis by (simp add: get_int_loop.simps [of v r])
  next
    case True
    then obtain b r1 where b: "get_byte r = Ok (b, r1)"
      by (auto simp: get_byte_def have_bytes_def)
    then have adv: "advances r r1" and r1: "r1 = r\<lparr>dr_pos := dr_pos r + 1\<rparr>"
      using get_byte_advances [OF b] by (auto simp: get_byte_Ok)
    from "1.prems" True b have lt: "\<not> unat b \<ge> 128"
      by (auto simp: get_int_loop.simps [of v r])
    show ?thesis
    proof (cases "Z_VALUE ! unat b < 0")
      case neg: True
      with "1.prems" True b lt have "r' = r"
        by (auto simp: get_int_loop.simps [of v r] Let_def r1)
      then show ?thesis by simp
    next
      case False
      with "1.prems" True b lt obtain v' where
          v': "u32_add (push_bit 6 v) (word_of_int (Z_VALUE ! unat b)) = Ok v'"
        and rec: "get_int_loop v' r1 = Ok (n, r')"
        by (auto simp: get_int_loop.simps [of v r] Let_def split: run.splits)
      from "1.IH" [OF True b refl lt refl False v' rec] adv
      show ?thesis by (blast intro: advances_trans)
    qed
  qed
qed

lemma get_int_advances: "get_int r = Ok (n, r') \<Longrightarrow> advances r r'"
  by (simp add: get_int_def get_int_loop_advances)

section \<open>The checksum\<close>

text \<open>The four running sums over \<open>chunks_exact(4)\<close>, with the remainder of the chunks.\<close>

fun sum_chunks :: "u32 \<times> u32 \<times> u32 \<times> u32 \<Rightarrow> bytes \<Rightarrow> (u32 \<times> u32 \<times> u32 \<times> u32) \<times> bytes" where
  "sum_chunks (s0, s1, s2, s3) (a # b # c # d # rest) =
     sum_chunks (s0 + ucast a, s1 + ucast b, s2 + ucast c, s3 + ucast d) rest"
| "sum_chunks s rest = (s, rest)"

definition checksum :: "bytes \<Rightarrow> u32" where
  "checksum data =
     (case sum_chunks (0, 0, 0, 0) data of
        ((s0, s1, s2, s3), remainder) \<Rightarrow>
          let result = s3 + push_bit 8 s2 + push_bit 16 s1 + push_bit 24 s0;
              result = (if length remainder \<ge> 3 then result + push_bit 8 (ucast (remainder ! 2)) else result);
              result = (if length remainder \<ge> 2 then result + push_bit 16 (ucast (remainder ! 1)) else result)
          in (if remainder \<noteq> [] then result + push_bit 24 (ucast (remainder ! 0)) else result))"

text \<open>
  Reference: the sum, modulo \<open>2 ^ 32\<close>, of the big-endian 32-bit words of the data, the last one
  filled up with zero bytes.
\<close>

definition big_endian :: "u8 \<Rightarrow> u8 \<Rightarrow> u8 \<Rightarrow> u8 \<Rightarrow> u32" where
  "big_endian a b c d = of_nat (((unat a * 256 + unat b) * 256 + unat c) * 256 + unat d)"

fun be_words :: "bytes \<Rightarrow> u32 list" where
  "be_words (a # b # c # d # rest) = big_endian a b c d # be_words rest"
| "be_words [] = []"
| "be_words [a] = [big_endian a 0 0 0]"
| "be_words [a, b] = [big_endian a b 0 0]"
| "be_words [a, b, c] = [big_endian a b c 0]"

lemma big_endian_push_bit:
  "big_endian a b c d
   = ucast d + push_bit 8 (ucast c) + push_bit 16 (ucast b) + push_bit 24 (ucast a)"
  by (simp add: big_endian_def push_bit_eq_mult algebra_simps)

definition weigh :: "u32 \<times> u32 \<times> u32 \<times> u32 \<Rightarrow> u32" where
  "weigh s = (case s of (s0, s1, s2, s3) \<Rightarrow> s3 + push_bit 8 s2 + push_bit 16 s1 + push_bit 24 s0)"

definition weigh_rest :: "bytes \<Rightarrow> u32" where
  "weigh_rest r =
     (if length r \<ge> 3 then push_bit 8 (ucast (r ! 2)) else 0)
   + (if length r \<ge> 2 then push_bit 16 (ucast (r ! 1)) else 0)
   + (if r \<noteq> [] then push_bit 24 (ucast (r ! 0)) else 0)"

lemma checksum_weigh:
  "checksum data = (let (s, r) = sum_chunks (0, 0, 0, 0) data in weigh s + weigh_rest r)"
  by (auto simp: checksum_def weigh_def weigh_rest_def Let_def split: prod.splits)

lemma sum_chunks_be_words:
  "(let (s', r) = sum_chunks s data in weigh s' + weigh_rest r) = weigh s + sum_list (be_words data)"
  by (induction s data rule: sum_chunks.induct)
    (simp_all add: weigh_def weigh_rest_def big_endian_push_bit push_bit_eq_mult algebra_simps)

text \<open>
  C40. The strided checksum of the code is the checksum of the Fossil format: the wrapping sum of
  the big-endian words of the zero-padded data.
\<close>

theorem checksum_be_words: "checksum data = sum_list (be_words data)"
  unfolding checksum_weigh sum_chunks_be_words by (simp add: weigh_def)

section \<open>Applying a delta\<close>

text \<open>
  The three arms of the loop body, entered with the reader after the operator. The result \<open>Inl\<close> is
  the state at the end of the loop body (reader, total, output), \<open>Inr\<close> the result returned.
\<close>

type_synonym delta_state = "delta_reader \<times> nat \<times> bytes"

definition copy_comma :: "delta_reader \<Rightarrow> delta_reader run" where
  "copy_comma r =
     (if have_bytes r
      then bind_run (get_char r) (\<lambda>(c, r). if c \<noteq> 44 then Err MissingComma else Ok r)
      else Ok r)"

definition copy_command :: "bytes \<Rightarrow> nat \<Rightarrow> nat \<Rightarrow> delta_state \<Rightarrow> (delta_state + bytes) run" where
  "copy_command source limit cnt = (\<lambda>(r, tot, out).
     bind_run (get_int r) (\<lambda>(ofst_raw, r).
     let ofst = unat ofst_raw in
     bind_run (copy_comma r) (\<lambda>r.
     bind_run (usize_add tot cnt) (\<lambda>tot.
     if tot > limit then Err CopyExceedsLimit
     else bind_run (usize_add ofst cnt) (\<lambda>end.
       if end > length source then Err (CopyPastSource ofst cnt (length source))
       else bind_run (slice source ofst end) (\<lambda>chunk.
         Ok (Inl (r, tot, out @ chunk))))))))"

definition insert_command :: "nat \<Rightarrow> nat \<Rightarrow> delta_state \<Rightarrow> (delta_state + bytes) run" where
  "insert_command limit cnt = (\<lambda>(r, tot, out).
     bind_run (usize_add tot cnt) (\<lambda>tot.
     if tot > limit then Err InsertExceedsLimit
     else bind_run (usize_add (dr_pos r) cnt) (\<lambda>end.
       if end > length (dr_data r) then Err InsertPastDelta
       else bind_run (slice (dr_data r) (dr_pos r) end) (\<lambda>chunk.
         Ok (Inl (r\<lparr>dr_pos := end\<rparr>, tot, out @ chunk))))))"

definition end_command :: "nat \<Rightarrow> u32 \<Rightarrow> delta_state \<Rightarrow> (delta_state + bytes) run" where
  "end_command limit cnt_raw = (\<lambda>(r, tot, out).
     let actual = checksum out in
     if cnt_raw \<noteq> actual then Err (BadChecksum cnt_raw actual)
     else if tot \<noteq> limit then Err (SizeMismatch limit tot)
     else Ok (Inr out))"

definition delta_command :: "bytes \<Rightarrow> nat \<Rightarrow> delta_state \<Rightarrow> (delta_state + bytes) run" where
  "delta_command source limit = (\<lambda>(r, tot, out).
     bind_run (get_int r) (\<lambda>(cnt_raw, r).
     let cnt = unat cnt_raw in
     bind_run (get_char r) (\<lambda>(c, r).
     if c = 64 \<comment> \<open>@\<close> then copy_command source limit cnt (r, tot, out)
     else if c = 58 \<comment> \<open>:\<close> then insert_command limit cnt (r, tot, out)
     else if c = 59 \<comment> \<open>;\<close> then end_command limit cnt_raw (r, tot, out)
     else Err (UnknownOperator c))))"

lemma copy_comma_advances: "copy_comma r = Ok r' \<Longrightarrow> advances r r'"
  by (auto simp: copy_comma_def get_char_def bind_run_Ok_iff dest: get_byte_advances split: if_splits)

lemma copy_command_Ok:
  assumes "copy_command source limit cnt (r, tot, out) = Ok res"
  obtains r' ofst where "advances r r'" "ofst + cnt \<le> length source" "tot + cnt \<le> limit"
    "res = Inl (r', tot + cnt, out @ take cnt (drop ofst source))"
  using assms
  by (auto simp: copy_command_def bind_run_Ok_iff Let_def usize_add_def slice_def split: if_splits
      dest!: get_int_advances copy_comma_advances)
    (use advances_trans linorder_not_less in blast)

lemma insert_command_Ok:
  assumes "insert_command limit cnt (r, tot, out) = Ok res"
  obtains "dr_pos r + cnt \<le> length (dr_data r)" "tot + cnt \<le> limit"
    "res = Inl (r\<lparr>dr_pos := dr_pos r + cnt\<rparr>, tot + cnt, out @ take cnt (drop (dr_pos r) (dr_data r)))"
  using assms
  by (auto simp: insert_command_def bind_run_Ok_iff usize_add_def slice_def split: if_splits)

lemma end_command_Ok:
  "end_command limit cnt (r, tot, out) = Ok res \<longleftrightarrow>
     cnt = checksum out \<and> tot = limit \<and> res = Inr out"
  by (auto simp: end_command_def Let_def)

text \<open>What one successful turn of the loop does.\<close>

lemma delta_command_Ok:
  assumes "delta_command source limit (r, tot, out) = Ok res"
  obtains
    (copy) r' cnt ofst where "advances r r'" "dr_pos r < dr_pos r'" "ofst + cnt \<le> length source"
      "tot + cnt \<le> limit" "res = Inl (r', tot + cnt, out @ take cnt (drop ofst source))"
  | (insert) r' cnt ofst where "advances r r'" "dr_pos r < dr_pos r'" "ofst + cnt \<le> length (dr_data r)"
      "tot + cnt \<le> limit" "res = Inl (r', tot + cnt, out @ take cnt (drop ofst (dr_data r)))"
  | (finish) r1 r2 where "get_int r = Ok (checksum out, r1)" "get_byte r1 = Ok (59, r2)"
      "tot = limit" "res = Inr out"
proof -
  from assms obtain cnt r1 c r2 where
      r1: "get_int r = Ok (cnt, r1)" and r2: "get_byte r1 = Ok (c, r2)"
    and body: "(if c = 64 then copy_command source limit (unat cnt) (r2, tot, out)
      else if c = 58 then insert_command limit (unat cnt) (r2, tot, out)
      else if c = 59 then end_command limit cnt (r2, tot, out)
      else Err (UnknownOperator c)) = Ok res"
    by (auto simp: delta_command_def bind_run_Ok_iff Let_def get_char_def)
  from get_int_advances [OF r1] get_byte_advances [OF r2]
  have r12: "advances r r2" "dr_pos r < dr_pos r2"
    by (auto intro: advances_trans simp: advances_def)
  consider "c = 64" "copy_command source limit (unat cnt) (r2, tot, out) = Ok res"
    | "c = 58" "insert_command limit (unat cnt) (r2, tot, out) = Ok res"
    | "c = 59" "end_command limit cnt (r2, tot, out) = Ok res"
    using body by (auto split: if_splits)
  then show thesis
  proof cases
    case 1
    from 1(2) show thesis
    proof (rule copy_command_Ok)
      fix r' ofst
      assume a: "advances r2 r'" "ofst + unat cnt \<le> length source" "tot + unat cnt \<le> limit"
        "res = Inl (r', tot + unat cnt, out @ take (unat cnt) (drop ofst source))"
      from r12 a(1) have adv: "advances r r'" "dr_pos r < dr_pos r'"
        by (auto simp: advances_def)
      show thesis by (rule copy [OF adv a(2-4)])
    qed
  next
    case 2
    have same: "dr_data r2 = dr_data r" using r12 by (simp add: advances_def)
    let ?r = "r2\<lparr>dr_pos := dr_pos r2 + unat cnt\<rparr>"
    from 2(2) show thesis
    proof (rule insert_command_Ok)
      assume a: "dr_pos r2 + unat cnt \<le> length (dr_data r2)" "tot + unat cnt \<le> limit"
        "res = Inl (?r, tot + unat cnt, out @ take (unat cnt) (drop (dr_pos r2) (dr_data r2)))"
      from r12 a(1) same have "advances r ?r" "dr_pos r < dr_pos ?r"
        by (auto simp: advances_def)
      with a same show thesis by (intro insert [of ?r "dr_pos r2" "unat cnt"]) simp_all
    qed
  next
    case 3
    with r1 r2 show thesis by (auto simp: end_command_Ok intro: finish)
  qed
qed

lemma delta_command_advances:
  "delta_command source limit (r, tot, out) = Ok (Inl (r', tot', out')) \<Longrightarrow>
     advances r r' \<and> dr_pos r < dr_pos r'"
  by (erule delta_command_Ok) auto

function delta_loop :: "bytes \<Rightarrow> nat \<Rightarrow> delta_reader \<Rightarrow> nat \<Rightarrow> bytes \<Rightarrow> bytes run" where
  "delta_loop source limit r tot out =
     (if have_bytes r then
        case delta_command source limit (r, tot, out) of
          Panic \<Rightarrow> Panic
        | Err e \<Rightarrow> Err e
        | Ok (Inr result) \<Rightarrow> Ok result
        | Ok (Inl (r', tot', out')) \<Rightarrow> delta_loop source limit r' tot' out'
      else Err Unterminated)"
  by pat_completeness auto
termination
  by (relation "measure (\<lambda>(source, limit, r, tot, out). length (dr_data r) - dr_pos r)")
    (auto dest!: delta_command_advances simp: have_bytes_def advances_def)

declare delta_loop.simps [simp del]

text \<open>The buffer that the code reserves for the declared size is not modelled: allocation does not fail here.\<close>

definition apply_delta :: "bytes \<Rightarrow> bytes \<Rightarrow> bytes run" where
  "apply_delta source delta =
     bind_run (get_int (new_reader delta)) (\<lambda>(limit, r).
     bind_run (get_char r) (\<lambda>(c, r).
     if c \<noteq> 10 then Err MissingNewline
     else delta_loop source (unat limit) r 0 []))"

text \<open>
  C29. The loop over the commands of a delta ends: a turn that goes on has consumed at least one byte of
  the delta, so there are at most as many turns as bytes. It stays inside the delta and the declared
  size, keeps what was written, and appends exactly as many bytes as it counts.
\<close>

theorem delta_progress:
  assumes "delta_command source limit (r, tot, out) = Ok (Inl (r', tot', out'))"
    and "dr_pos r \<le> length (dr_data r)"
  shows "dr_data r' = dr_data r \<and> dr_pos r < dr_pos r' \<and> dr_pos r' \<le> length (dr_data r) \<and> tot' \<le> limit \<and>
    (\<exists>chunk. out' = out @ chunk \<and> tot' = tot + length chunk)"
  using assms by (elim delta_command_Ok) (auto simp: advances_def)

section \<open>No panic\<close>

text \<open>
  The additions and slices never leave their range: a \<open>u32\<close> count plus an offset below \<open>2 ^ 63\<close>
  (the size limit of a Rust allocation) fits in \<open>usize\<close>, and every slice is checked first.
\<close>

definition word_small :: "bytes \<Rightarrow> bool" where
  "word_small xs = (length xs < 2 ^ 63)"

lemma unat_push_bit_6_le: "unat (push_bit 6 (v :: u32)) \<le> 2 ^ 32 - 64"
proof -
  have "unat (push_bit 6 v) = (unat v * 64) mod 2 ^ 32"
    by (simp add: push_bit_eq_mult unat_word_ariths)
  moreover have "(unat v * 64) mod (67108864 * 64) = (unat v mod 67108864) * 64"
    by (rule mult_mod_left [symmetric])
  moreover have "unat v mod 67108864 < 67108864" by simp
  ultimately show ?thesis by simp
qed

lemma Z_VALUE_bounds: "list_all (\<lambda>c. -1 \<le> c \<and> c < 64) Z_VALUE"
  by code_simp

lemma Z_VALUE_less: "b < 128 \<Longrightarrow> Z_VALUE ! b < 64"
  using Z_VALUE_bounds by (simp add: list_all_length)

lemma u32_add_digit:
  assumes "b < 128" and "0 \<le> Z_VALUE ! b"
  shows "u32_add (push_bit 6 v) (word_of_int (Z_VALUE ! b)) = Ok (push_bit 6 v + word_of_int (Z_VALUE ! b))"
proof -
  have "unat (word_of_int (Z_VALUE ! b) :: u32) = nat (Z_VALUE ! b)"
    using assms Z_VALUE_less [OF assms(1)]
    by (simp add: unsigned_of_int take_bit_int_eq_self)
  then show ?thesis
    using unat_push_bit_6_le [of v] assms Z_VALUE_less [OF assms(1)] by (simp add: u32_add_def)
qed

lemma get_int_loop_no_panic: "get_int_loop v r \<noteq> Panic"
proof (induction v r rule: get_int_loop.induct)
  case (1 v r)
  show ?case
  proof (cases "have_bytes r")
    case False
    then show ?thesis by (simp add: get_int_loop.simps [of v r])
  next
    case True
    then obtain b r1 where b: "get_byte r = Ok (b, r1)"
      by (auto simp: get_byte_def have_bytes_def)
    then have pos: "dr_pos r1 \<noteq> 0" by (auto simp: get_byte_Ok)
    show ?thesis
    proof (cases "unat b \<ge> 128 \<or> Z_VALUE ! unat b < 0")
      case True
      then show ?thesis using b pos by (auto simp: get_int_loop.simps [of v r] Let_def)
    next
      case False
      then have lt: "\<not> unat b \<ge> 128" and nn: "\<not> Z_VALUE ! unat b < 0" by auto
      note add = u32_add_digit [of "unat b" v]
      from "1.IH" [OF True b refl lt refl nn add] lt nn
      show ?thesis
        using b add by (simp add: get_int_loop.simps [of v r] Let_def)
    qed
  qed
qed

lemma get_int_no_panic [simp]: "get_int r \<noteq> Panic"
  by (simp add: get_int_def get_int_loop_no_panic)

lemma copy_comma_no_panic [simp]: "copy_comma r \<noteq> Panic"
  by (auto simp: copy_comma_def get_char_def bind_run_Panic_iff split: if_splits)

lemma delta_command_no_panic:
  assumes "word_small source" "word_small (dr_data r)" "dr_pos r \<le> length (dr_data r)"
    and "tot \<le> limit" "limit < 2 ^ 32"
  shows "delta_command source limit (r, tot, out) \<noteq> Panic"
proof
  assume "delta_command source limit (r, tot, out) = Panic"
  then obtain cnt r1 c r2 where
      r1: "get_int r = Ok (cnt, r1)" and r2: "get_byte r1 = Ok (c, r2)"
    and body: "copy_command source limit (unat cnt) (r2, tot, out) = Panic
      \<or> insert_command limit (unat cnt) (r2, tot, out) = Panic"
    by (auto simp: delta_command_def bind_run_Panic_iff get_char_def end_command_def Let_def
        split: if_splits)
  from get_int_advances [OF r1] get_byte_advances [OF r2] assms
  have r12: "dr_pos r2 \<le> length (dr_data r2)" "word_small (dr_data r2)"
    by (auto simp: advances_def)
  have cnt: "unat cnt < 2 ^ 32" using unsigned_less [of cnt] by simp
  have "copy_command source limit (unat cnt) (r2, tot, out) \<noteq> Panic"
  proof -
    have "unat (ofst :: u32) < 2 ^ 32" for ofst using unsigned_less [of ofst] by simp
    then have "unat ofst + unat cnt < 2 ^ 64" for ofst :: u32
      using cnt add_strict_mono [of "unat ofst" "2 ^ 32" "unat cnt" "2 ^ 32"] by fastforce
    then show ?thesis using cnt assms(4,5)
      by (auto simp: copy_command_def bind_run_Panic_iff usize_add_def slice_def Let_def split: if_splits)
  qed
  moreover have "insert_command limit (unat cnt) (r2, tot, out) \<noteq> Panic"
    using cnt r12 assms(4,5)
    by (auto simp: insert_command_def bind_run_Panic_iff usize_add_def slice_def word_small_def
        split: if_splits)
  ultimately show False using body by simp
qed

lemma delta_loop_no_panic:
  "word_small source \<Longrightarrow> word_small (dr_data r) \<Longrightarrow> dr_pos r \<le> length (dr_data r) \<Longrightarrow>
   tot \<le> limit \<Longrightarrow> limit < 2 ^ 32 \<Longrightarrow> delta_loop source limit r tot out \<noteq> Panic"
proof (induction source limit r tot out rule: delta_loop.induct)
  case (1 source limit r tot out)
  note np = delta_command_no_panic [OF "1.prems"]
  show ?case
  proof (cases "have_bytes r")
    case False
    then show ?thesis by (simp add: delta_loop.simps [of source limit r tot out])
  next
    case True
    show ?thesis
    proof (cases "delta_command source limit (r, tot, out)")
      case (Ok res)
      from Ok show ?thesis
      proof (cases rule: delta_command_Ok)
        case finish
        with Ok True show ?thesis by (subst delta_loop.simps) simp
      next
        case (copy r' cnt ofst)
        from "1.IH" [OF True Ok copy(5) refl refl] copy "1.prems" True Ok
        show ?thesis by (simp add: delta_loop.simps [of source limit r tot out] advances_def)
      next
        case (insert r' cnt ofst)
        from "1.IH" [OF True Ok insert(5) refl refl] insert "1.prems" True Ok
        show ?thesis by (simp add: delta_loop.simps [of source limit r tot out] advances_def)
      qed
    qed (use np True in \<open>simp_all add: delta_loop.simps [of source limit r tot out]\<close>)
  qed
qed

text \<open>
  C28. Applying any delta to any source never panics: for every input a Rust slice can hold, the
  run ends in a value or in a \<open>DeltaError\<close>.
\<close>

theorem apply_delta_no_panic:
  assumes "word_small source" "word_small delta"
  shows "apply_delta source delta \<noteq> Panic"
proof
  assume "apply_delta source delta = Panic"
  then obtain limit r1 c r2 where
      r1: "get_int (new_reader delta) = Ok (limit, r1)" and r2: "get_byte r1 = Ok (c, r2)"
    and loop: "delta_loop source (unat limit) r2 0 [] = Panic"
    by (auto simp: apply_delta_def bind_run_Panic_iff get_char_def split: if_splits)
  from get_int_advances [OF r1] get_byte_advances [OF r2] assms
  have "dr_pos r2 \<le> length (dr_data r2)" "word_small (dr_data r2)"
    by (auto simp: advances_def new_reader_def)
  moreover have "unat limit < 2 ^ 32" using unsigned_less [of limit] by simp
  ultimately show False using delta_loop_no_panic loop assms(1) by blast
qed

theorem apply_delta_no_panic_witness: "apply_delta [] [53, 10, 53, 64, 48, 44] \<noteq> Panic"
  by (rule apply_delta_no_panic) (simp_all add: word_small_def)

section \<open>What an accepted delta produces\<close>

text \<open>The commands of a delta, and what they denote over a source.\<close>

datatype delta_cmd = Copy_from nat nat | Insert_lit bytes

fun denote :: "bytes \<Rightarrow> delta_cmd \<Rightarrow> bytes" where
  "denote source (Copy_from cnt ofst) = take cnt (drop ofst source)"
| "denote source (Insert_lit lit) = lit"

definition denote_all :: "bytes \<Rightarrow> delta_cmd list \<Rightarrow> bytes" where
  "denote_all source cmds = concat (map (denote source) cmds)"

text \<open>A command that stays within the source, or within the delta it was read from.\<close>

fun cmd_within :: "bytes \<Rightarrow> bytes \<Rightarrow> delta_cmd \<Rightarrow> bool" where
  "cmd_within source delta (Copy_from cnt ofst) = (ofst + cnt \<le> length source)"
| "cmd_within source delta (Insert_lit lit) =
     (\<exists>i \<le> length delta. lit = take (length lit) (drop i delta))"

lemma denote_all_snoc: "denote_all source (cmds @ [c]) = denote_all source cmds @ denote source c"
  by (simp add: denote_all_def)

lemma delta_loop_Ok:
  assumes "delta_loop source limit r tot out = Ok result"
    and "out = denote_all source cmds" "\<forall>c \<in> set cmds. cmd_within source (dr_data r) c" "tot = length out"
  shows "\<exists>cmds. result = denote_all source cmds \<and> (\<forall>c \<in> set cmds. cmd_within source (dr_data r) c)
    \<and> length result = limit \<and> (\<exists>r0 r1 r2. dr_data r0 = dr_data r \<and>
       get_int r0 = Ok (checksum result, r1) \<and> get_byte r1 = Ok (59, r2))"
  using assms
proof (induction source limit r tot out arbitrary: cmds rule: delta_loop.induct)
  case (1 source limit r tot out)
  from "1.prems"(1) obtain res where hb: "have_bytes r"
    and res: "delta_command source limit (r, tot, out) = Ok res"
    by (subst (asm) delta_loop.simps) (auto split: if_splits run.splits)
  from res show ?case
  proof (cases rule: delta_command_Ok)
    case finish
    with "1.prems" hb res have "result = out"
      by (subst (asm) delta_loop.simps) simp
    with finish "1.prems" show ?thesis by auto
  next
    case (copy r' cnt ofst)
    let ?out = "out @ take cnt (drop ofst source)"
    have data: "dr_data r' = dr_data r" using copy by (simp add: advances_def)
    have "delta_loop source limit r' (tot + cnt) ?out = Ok result"
      using "1.prems"(1) hb res copy by (subst (asm) delta_loop.simps) simp
    moreover have "?out = denote_all source (cmds @ [Copy_from cnt ofst])"
      using "1.prems"(2) by (simp add: denote_all_snoc)
    moreover have "\<forall>c \<in> set (cmds @ [Copy_from cnt ofst]). cmd_within source (dr_data r') c"
      using "1.prems"(3) copy data by auto
    moreover have "tot + cnt = length ?out" using copy "1.prems"(4) by simp
    ultimately show ?thesis using "1.IH" [OF hb res copy(5) refl refl] data by simp
  next
    case (insert r' cnt ofst)
    let ?lit = "take cnt (drop ofst (dr_data r))"
    have data: "dr_data r' = dr_data r" using insert by (simp add: advances_def)
    have "delta_loop source limit r' (tot + cnt) (out @ ?lit) = Ok result"
      using "1.prems"(1) hb res insert by (subst (asm) delta_loop.simps) simp
    moreover have "out @ ?lit = denote_all source (cmds @ [Insert_lit ?lit])"
      using "1.prems"(2) by (simp add: denote_all_snoc)
    moreover have "cmd_within source (dr_data r') (Insert_lit ?lit)"
      using insert(3) data by (auto intro!: exI [of _ ofst])
    then have "\<forall>c \<in> set (cmds @ [Insert_lit ?lit]). cmd_within source (dr_data r') c"
      using "1.prems"(3) data by auto
    moreover have "tot + cnt = length (out @ ?lit)" using insert "1.prems"(4) by simp
    ultimately show ?thesis using "1.IH" [OF hb res insert(5) refl refl] data by simp
  qed
qed

text \<open>
  C27. Integrity: an accepted delta starts with the exact length of the output, the output is made
  of slices of the source and of the delta only, and the terminator of the delta carries the
  output's checksum.
\<close>

theorem apply_delta_integrity:
  assumes "apply_delta source delta = Ok out"
  shows "(\<exists>r. get_int (new_reader delta) = Ok (of_nat (length out), r)) \<and>
     (\<exists>cmds. out = denote_all source cmds \<and> (\<forall>c \<in> set cmds. cmd_within source delta c)) \<and>
     (\<exists>r r' r''. dr_data r = delta \<and> get_int r = Ok (checksum out, r') \<and> get_byte r' = Ok (59, r''))"
proof -
  from assms obtain limit r1 c r2 where
      r1: "get_int (new_reader delta) = Ok (limit, r1)" and r2: "get_byte r1 = Ok (c, r2)"
    and loop: "delta_loop source (unat limit) r2 0 [] = Ok out"
    by (auto simp: apply_delta_def bind_run_Ok_iff get_char_def split: if_splits)
  from get_int_advances [OF r1] get_byte_advances [OF r2]
  have data: "dr_data r2 = delta" by (simp add: advances_def new_reader_def)
  from delta_loop_Ok [OF loop, of "[]"] data obtain cmds where
      "out = denote_all source cmds" "\<forall>c \<in> set cmds. cmd_within source delta c"
      "length out = unat limit"
      "\<exists>r r' r''. dr_data r = delta \<and> get_int r = Ok (checksum out, r') \<and> get_byte r' = Ok (59, r'')"
    by (auto simp: denote_all_def)
  moreover from this have "of_nat (length out) = limit" by simp
  ultimately show ?thesis using r1 by blast
qed

section \<open>Round trip with the encoder\<close>

definition DIGITS :: bytes where
  "DIGITS = map of_char ''0123456789ABCDEFGHIJKLMNOPQRSTUVWXYZ_abcdefghijklmnopqrstuvwxyz~''"

function digits_rev :: "u32 \<Rightarrow> bytes" where
  "digits_rev v = (if v = 0 then [] else DIGITS ! unat (v AND 63) # digits_rev (drop_bit 6 v))"
  by pat_completeness auto
termination
proof (relation "measure unat")
  fix v :: u32
  assume "v \<noteq> 0"
  then have "0 < unat v" by (simp add: unat_gt_0)
  then show "(drop_bit 6 v, v) \<in> measure unat"
    by (simp add: drop_bit_eq_div unat_div)
qed simp

declare digits_rev.simps [simp del]

definition encode_int :: "u32 \<Rightarrow> bytes" where
  "encode_int v = (if v = 0 then [48] else rev (digits_rev v))"

fun encode_cmd :: "delta_cmd \<Rightarrow> bytes" where
  "encode_cmd (Copy_from cnt ofst) = encode_int (of_nat cnt) @ [64] @ encode_int (of_nat ofst) @ [44]"
| "encode_cmd (Insert_lit lit) = encode_int (of_nat (length lit)) @ [58] @ lit"

definition encode_delta :: "bytes \<Rightarrow> delta_cmd list \<Rightarrow> bytes" where
  "encode_delta source cmds =
     (let out = denote_all source cmds
      in encode_int (of_nat (length out)) @ [10] @ concat (map encode_cmd cmds)
         @ encode_int (checksum out) @ [59])"

definition is_digit :: "u8 \<Rightarrow> bool" where
  "is_digit b = (unat b < 128 \<and> 0 \<le> Z_VALUE ! unat b)"

definition digit_val :: "u8 \<Rightarrow> u32" where
  "digit_val b = word_of_int (Z_VALUE ! unat b)"

text \<open>The reader standing between a consumed prefix and the rest.\<close>

definition at :: "bytes \<Rightarrow> bytes \<Rightarrow> delta_reader" where
  "at pre rest = \<lparr>dr_data = pre @ rest, dr_pos = length pre\<rparr>"

lemma at_simps [simp]:
  "have_bytes (at pre rest) \<longleftrightarrow> rest \<noteq> []"
  "get_byte (at pre (b # rest)) = Ok (b, at (pre @ [b]) rest)"
  "dr_data (at pre rest) = pre @ rest" "dr_pos (at pre rest) = length pre"
  by (auto simp: at_def have_bytes_def get_byte_def)

lemma at_back: "at (pre @ [t]) rest\<lparr>dr_pos := length pre\<rparr> = at pre (t # rest)"
  by (simp add: at_def)

lemma new_reader_at: "new_reader d = at [] d"
  by (simp add: new_reader_def at_def)

lemma get_int_loop_digits:
  "\<forall>b \<in> set ds. is_digit b \<Longrightarrow>
   get_int_loop v (at pre (ds @ rest))
     = get_int_loop (fold (\<lambda>b v. push_bit 6 v + digit_val b) ds v) (at (pre @ ds) rest)"
proof (induction ds arbitrary: v pre)
  case Nil
  show ?case by simp
next
  case (Cons b ds)
  have b: "unat b < 128" "0 \<le> Z_VALUE ! unat b" using Cons.prems by (auto simp: is_digit_def)
  have "get_int_loop v (at pre ((b # ds) @ rest))
      = get_int_loop (push_bit 6 v + digit_val b) (at (pre @ [b]) (ds @ rest))"
    using b u32_add_digit [OF b, of v]
    by (subst get_int_loop.simps) (simp add: Let_def digit_val_def)
  then show ?case using Cons by simp
qed

lemma get_int_loop_stop:
  "unat t < 128 \<Longrightarrow> Z_VALUE ! unat t < 0 \<Longrightarrow> get_int_loop v (at pre (t # rest)) = Ok (v, at pre (t # rest))"
  by (subst get_int_loop.simps) (simp add: Let_def at_back)

lemma DIGITS_eq: "DIGITS =
   [
    48, 49, 50, 51, 52, 53, 54, 55, 56, 57, 65, 66, 67, 68, 69, 70, 71, 72, 73, 74, 75, 76,
    77, 78, 79, 80, 81, 82, 83, 84, 85, 86, 87, 88, 89, 90, 95, 97, 98, 99, 100, 101, 102,
    103, 104, 105, 106, 107, 108, 109, 110, 111, 112, 113, 114, 115, 116, 117, 118, 119,
    120, 121, 122, 126
   ]"
  by (simp add: DIGITS_def of_char_def)

lemma DIGITS_bytes: "map unat DIGITS =
   [
    48, 49, 50, 51, 52, 53, 54, 55, 56, 57, 65, 66, 67, 68, 69, 70, 71, 72, 73, 74, 75, 76,
    77, 78, 79, 80, 81, 82, 83, 84, 85, 86, 87, 88, 89, 90, 95, 97, 98, 99, 100, 101, 102,
    103, 104, 105, 106, 107, 108, 109, 110, 111, 112, 113, 114, 115, 116, 117, 118, 119,
    120, 121, 122, 126
   ]"
  by (simp add: DIGITS_eq)

lemma DIGITS_values: "map (\<lambda>b. Z_VALUE ! b) (map unat DIGITS) = map int [0..<64]"
  unfolding DIGITS_bytes Z_VALUE_eq by code_simp

lemma DIGITS_ascii: "list_all (\<lambda>b. b < 128) (map unat DIGITS)"
  unfolding DIGITS_bytes by simp

lemma DIGITS_nth:
  assumes "i < 64"
  shows "is_digit (DIGITS ! i)" and "digit_val (DIGITS ! i) = of_nat i"
proof -
  have len: "length DIGITS = 64" by (simp add: DIGITS_eq)
  have "unat (DIGITS ! i) < 128" using DIGITS_ascii assms len by (simp add: list_all_length)
  moreover have "Z_VALUE ! unat (DIGITS ! i) = int i"
    using arg_cong [OF DIGITS_values, of "\<lambda>xs. xs ! i"] assms len by simp
  ultimately show "is_digit (DIGITS ! i)" and "digit_val (DIGITS ! i) = of_nat i"
    by (simp_all add: is_digit_def digit_val_def)
qed

lemma unat_and_63: "unat ((v :: u32) AND 63) = unat v mod 64"
proof -
  have "v AND 63 = v AND mask 6" by (simp add: mask_numeral)
  also have "\<dots> = v mod 64" by (simp only: take_bit_eq_mask [symmetric] take_bit_eq_mod) simp
  finally show ?thesis by (simp add: unat_mod)
qed

lemma unat_drop_6: "unat (drop_bit 6 (v :: u32)) = unat v div 64"
  by (simp add: drop_bit_eq_div unat_div)

lemma word_split_6: "push_bit 6 (drop_bit 6 (v :: u32)) + of_nat (unat (v AND 63)) = v"
proof -
  have "unat v = unat v div 64 * 64 + unat v mod 64" by simp
  then have "v = of_nat (unat v div 64 * 64 + unat v mod 64)"
    by (metis word_of_nat_unat)
  also have "\<dots> = of_nat (unat v div 64) * 64 + of_nat (unat v mod 64)"
    by (simp only: of_nat_add of_nat_mult of_nat_numeral)
  also have "(of_nat (unat v div 64) :: u32) = drop_bit 6 v"
    by (metis unat_drop_6 word_of_nat_unat)
  finally show ?thesis
    by (simp add: push_bit_eq_mult unat_and_63)
qed

lemma digits_rev_is_digit: "\<forall>b \<in> set (digits_rev v). is_digit b"
proof (induction v rule: digits_rev.induct)
  case (1 v)
  show ?case
  proof (cases "v = 0")
    case True
    then show ?thesis by (simp add: digits_rev.simps)
  next
    case False
    have "is_digit (DIGITS ! unat (v AND 63))" by (rule DIGITS_nth) (simp add: unat_and_63)
    with False "1.IH" show ?thesis by (simp add: digits_rev.simps [of v])
  qed
qed

lemma fold_digits_rev: "foldr (\<lambda>b v. push_bit 6 v + digit_val b) (digits_rev v) 0 = v"
proof (induction v rule: digits_rev.induct)
  case (1 v)
  show ?case
  proof (cases "v = 0")
    case True
    then show ?thesis by (simp add: digits_rev.simps)
  next
    case False
    have "digit_val (DIGITS ! unat (v AND 63)) = of_nat (unat (v AND 63))"
      by (rule DIGITS_nth) (simp add: unat_and_63)
    with False "1.IH" show ?thesis using word_split_6 [of v] by (simp add: digits_rev.simps [of v])
  qed
qed

lemma encode_int_digits: "\<forall>b \<in> set (encode_int v). is_digit b"
  using digits_rev_is_digit [of v] by (auto simp: encode_int_def is_digit_def Z_VALUE_eq)

lemma fold_encode_int: "fold (\<lambda>b v. push_bit 6 v + digit_val b) (encode_int v) 0 = v"
  using fold_digits_rev [of v]
  by (simp add: encode_int_def foldr_conv_fold digit_val_def Z_VALUE_eq)

text \<open>Reading an encoded number back, up to a byte that ends it.\<close>

definition ends_int :: "u8 \<Rightarrow> bool" where
  "ends_int t = (unat t < 128 \<and> Z_VALUE ! unat t < 0)"

lemma get_int_encode:
  assumes "ends_int t"
  shows "get_int (at pre (encode_int v @ t # rest)) = Ok (v, at (pre @ encode_int v) (t # rest))"
  using assms get_int_loop_digits [OF encode_int_digits, of 0 pre v "t # rest"]
  by (simp add: get_int_def fold_encode_int get_int_loop_stop ends_int_def)

lemma ends_int_operators [simp]: "ends_int 10" "ends_int 44" "ends_int 58" "ends_int 59" "ends_int 64"
  by (simp_all add: ends_int_def Z_VALUE_eq)

text \<open>Commands a server may send for a given source: within the source and with 32-bit numbers.\<close>

fun cmd_ok :: "bytes \<Rightarrow> delta_cmd \<Rightarrow> bool" where
  "cmd_ok source (Copy_from cnt ofst) =
     (ofst + cnt \<le> length source \<and> ofst < 2 ^ 32 \<and> cnt < 2 ^ 32)"
| "cmd_ok source (Insert_lit lit) = (length lit < 2 ^ 32)"

lemma delta_command_encode:
  assumes "cmd_ok source c" and "length out + length (denote source c) \<le> limit" and "limit < 2 ^ 32"
    and "length (pre @ encode_cmd c @ rest) < 2 ^ 63"
  shows "delta_command source limit (at pre (encode_cmd c @ rest), length out, out)
    = Ok (Inl (at (pre @ encode_cmd c) rest, length (out @ denote source c), out @ denote source c))"
proof (cases c)
  case (Copy_from cnt ofst)
  with assms show ?thesis
    by (simp add: delta_command_def get_int_encode get_char_def Let_def copy_command_def copy_comma_def
        usize_add_def slice_def min_def) auto
next
  case (Insert_lit lit)
  with assms show ?thesis
    by (simp add: delta_command_def get_int_encode get_char_def Let_def insert_command_def
        usize_add_def slice_def unat_of_nat_u32)
qed

lemma delta_loop_encode:
  assumes "\<forall>c \<in> set cmds. cmd_ok source c"
    and "length (out @ denote_all source cmds) = limit" and "limit < 2 ^ 32"
    and "length (pre @ concat (map encode_cmd cmds) @ encode_int (checksum (out @ denote_all source cmds)) @ [59]) < 2 ^ 63"
  shows "delta_loop source limit
      (at pre (concat (map encode_cmd cmds) @ encode_int (checksum (out @ denote_all source cmds)) @ [59]))
      (length out) out
    = Ok (out @ denote_all source cmds)"
  using assms
proof (induction cmds arbitrary: pre out)
  case Nil
  then show ?case
    by (subst delta_loop.simps)
      (simp add: delta_command_def get_int_encode get_char_def Let_def end_command_def denote_all_def)
next
  case (Cons c cmds)
  let ?out = "out @ denote source c"
  let ?rest = "concat (map encode_cmd cmds) @ encode_int (checksum (?out @ denote_all source cmds)) @ [59]"
  have all: "out @ denote_all source (c # cmds) = ?out @ denote_all source cmds"
    by (simp add: denote_all_def)
  have rest: "concat (map encode_cmd (c # cmds)) @ encode_int (checksum (out @ denote_all source (c # cmds))) @ [59]
      = encode_cmd c @ ?rest"
    by (simp add: all)
  have "delta_command source limit (at pre (encode_cmd c @ ?rest), length out, out)
    = Ok (Inl (at (pre @ encode_cmd c) ?rest, length ?out, ?out))"
    using Cons.prems by (intro delta_command_encode) (auto simp: denote_all_def rest)
  moreover have "delta_loop source limit (at (pre @ encode_cmd c) ?rest) (length ?out) ?out
    = Ok (?out @ denote_all source cmds)"
    using Cons.prems by (intro Cons.IH) (auto simp: denote_all_def)
  ultimately show ?case
    unfolding rest all by (subst delta_loop.simps) simp
qed

lemma apply_delta_roundtrip:
  assumes "\<forall>c \<in> set cmds. cmd_ok source c"
    and "length (denote_all source cmds) < 2 ^ 32"
    and "word_small (encode_delta source cmds)"
  shows "apply_delta source (encode_delta source cmds) = Ok (denote_all source cmds)"
proof -
  let ?out = "denote_all source cmds"
  let ?n = "encode_int (of_nat (length ?out))"
  have "delta_loop source (length ?out) (at (?n @ [10]) (concat (map encode_cmd cmds) @ encode_int (checksum ?out) @ [59]))
      0 [] = Ok ?out"
    using delta_loop_encode [of cmds source "[]" "length ?out" "?n @ [10]"] assms
    by (simp add: word_small_def encode_delta_def Let_def)
  then show ?thesis
    using assms(2)
    by (simp add: apply_delta_def encode_delta_def Let_def new_reader_at get_int_encode get_char_def
        unat_of_nat_u32)
qed

text \<open>
  C26. Round trip: applying the delta encoded from any list of in-range commands rebuilds exactly
  the bytes the commands denote, for every output a 32-bit size can declare.
\<close>

theorem apply_delta_encode:
  assumes "\<forall>c \<in> set cmds. cmd_ok source c"
    and "length (denote_all source cmds) < 2 ^ 32"
    and "word_small (encode_delta source cmds)"
  shows "apply_delta source (encode_delta source cmds) = Ok (denote_all source cmds)"
  using assms by (rule apply_delta_roundtrip)

text \<open>\<open>hello\<close> to \<open>hello!\<close>: copy five bytes, insert one.\<close>

theorem apply_delta_encode_witness:
  "apply_delta [104, 101, 108, 108, 111] (encode_delta [104, 101, 108, 108, 111] [Copy_from 5 0, Insert_lit [33]])
   = Ok [104, 101, 108, 108, 111, 33]"
proof -
  have "apply_delta [104, 101, 108, 108, 111] (encode_delta [104, 101, 108, 108, 111] [Copy_from 5 0, Insert_lit [33]])
    = Ok (denote_all [104, 101, 108, 108, 111] [Copy_from 5 0, Insert_lit [33]])"
    by (rule apply_delta_encode)
      (simp_all add: denote_all_def word_small_def encode_delta_def checksum_def big_endian_def
        encode_int_def digits_rev.simps push_bit_eq_mult DIGITS_eq)
  then show ?thesis by (simp add: denote_all_def)
qed

theorem apply_delta_integrity_witness:
  "\<exists>r r' r''. dr_data r = encode_delta [104, 101, 108, 108, 111] [Copy_from 5 0, Insert_lit [33]] \<and>
     get_int r = Ok (checksum [104, 101, 108, 108, 111, 33], r') \<and> get_byte r' = Ok (59, r'')"
proof -
  have "apply_delta [104, 101, 108, 108, 111] (encode_delta [104, 101, 108, 108, 111] [Copy_from 5 0, Insert_lit [33]])
    = Ok (denote_all [104, 101, 108, 108, 111] [Copy_from 5 0, Insert_lit [33]])"
    by (rule apply_delta_roundtrip)
      (simp_all add: denote_all_def word_small_def encode_delta_def checksum_def big_endian_def
        encode_int_def digits_rev.simps push_bit_eq_mult DIGITS_eq)
  from apply_delta_integrity [OF this] show ?thesis by (simp add: denote_all_def)
qed

text \<open>The command that copies the three bytes of the source.\<close>

theorem delta_progress_witness:
  "delta_command [1, 2, 3] 3 (at [] (encode_cmd (Copy_from 3 0) @ [59]), 0, [])
     = Ok (Inl (at (encode_cmd (Copy_from 3 0)) [59], 3, [1, 2, 3])) \<and>
   0 < dr_pos (at (encode_cmd (Copy_from 3 0)) [59])"
proof -
  have "delta_command [1, 2, 3] 3 (at [] (encode_cmd (Copy_from 3 0) @ [59]), length ([] :: bytes), [])
      = Ok (Inl (at ([] @ encode_cmd (Copy_from 3 0)) [59], length ([] @ denote [1, 2, 3] (Copy_from 3 0)),
          [] @ denote [1, 2, 3] (Copy_from 3 0)))"
    by (rule delta_command_encode) (simp_all add: encode_int_def digits_rev.simps push_bit_eq_mult DIGITS_eq)
  then have c: "delta_command [1, 2, 3] 3 (at [] (encode_cmd (Copy_from 3 0) @ [59]), 0, [])
      = Ok (Inl (at (encode_cmd (Copy_from 3 0)) [59], 3, [1, 2, 3]))"
    by simp
  with delta_progress [OF c] show ?thesis by simp
qed

end
