(* ===== verification/Subscription.thy ===== *)
theory Subscription
  imports Codec Delta
begin

text \<open>
  \<open>src/subscription.rs\<close>, the state the actor keeps for a client-side subscription, and how it turns
  the data of a publication into the payload delivered to the user: JSON unwrapping and delta
  application over the previous payload.
\<close>

section \<open>State\<close>

text \<open>
  A waiter is the identity of the one-shot channel a caller waits on; an event channel is the
  identity of the \<open>mpsc\<close> sender.
\<close>

record sub_state =
  ss_config :: subscription_config
  ss_state :: subscription_state
  ss_offset :: u64
  ss_epoch :: string
  ss_recover :: bool
  ss_attempts :: u32
  ss_token :: string
  ss_waiters :: "nat list"
  ss_event_tx :: "nat option"
  ss_delta_negotiated :: bool
  ss_prev_data :: bytes

definition new_sub_state :: "subscription_config \<Rightarrow> sub_state" where
  "new_sub_state config = \<lparr>ss_config = config, ss_state = Unsubscribed,
     ss_offset = (case scfg_since config of None \<Rightarrow> 0 | Some s \<Rightarrow> sp_offset s),
     ss_epoch = (case scfg_since config of None \<Rightarrow> [] | Some s \<Rightarrow> sp_epoch s),
     ss_recover = (scfg_since config \<noteq> None \<or> scfg_recoverable config),
     ss_attempts = 0, ss_token = scfg_token config, ss_waiters = [], ss_event_tx = None,
     ss_delta_negotiated = False, ss_prev_data = []\<rparr>"

section \<open>Payloads\<close>

definition unwrap_json_string :: "codec_env \<Rightarrow> bytes \<Rightarrow> bytes" where
  "unwrap_json_string E data = (case json_as_str E data of Some s \<Rightarrow> s | None \<Rightarrow> data)"

definition raw_payload :: "codec_env \<Rightarrow> protocol_type \<Rightarrow> bytes \<Rightarrow> bytes" where
  "raw_payload E pt data = (case pt of Json \<Rightarrow> unwrap_json_string E data | Protobuf \<Rightarrow> data)"

text \<open>
  The delta code returns a value or an error; that it never panics is \<open>Delta.apply_delta_no_panic\<close>.
\<close>

definition sub_apply_delta ::
  "codec_env \<Rightarrow> sub_state \<Rightarrow> bytes \<Rightarrow> bool \<Rightarrow> protocol_type \<Rightarrow> bytes \<times> sub_state" where
  "sub_apply_delta E sub data is_delta pt =
     (if \<not> ss_delta_negotiated sub then (data, sub)
      else let raw_data = raw_payload E pt data in
        if is_delta then
          (case apply_delta (ss_prev_data sub) raw_data of
             Ok full_data \<Rightarrow> (full_data, sub\<lparr>ss_prev_data := full_data\<rparr>)
           | _ \<Rightarrow> (raw_data, sub))
        else (raw_data, sub\<lparr>ss_prev_data := raw_data\<rparr>))"

text \<open>Only the previous payload can change.\<close>

lemma sub_apply_delta_frame:
  "snd (sub_apply_delta E sub data d pt) = sub\<lparr>ss_prev_data := ss_prev_data (snd (sub_apply_delta E sub data d pt))\<rparr>"
  by (auto simp: sub_apply_delta_def Let_def split: run.splits)

lemma sub_apply_delta_simps [simp]:
  "ss_config (snd (sub_apply_delta E sub data d pt)) = ss_config sub"
  "ss_state (snd (sub_apply_delta E sub data d pt)) = ss_state sub"
  "ss_offset (snd (sub_apply_delta E sub data d pt)) = ss_offset sub"
  "ss_epoch (snd (sub_apply_delta E sub data d pt)) = ss_epoch sub"
  "ss_recover (snd (sub_apply_delta E sub data d pt)) = ss_recover sub"
  "ss_attempts (snd (sub_apply_delta E sub data d pt)) = ss_attempts sub"
  "ss_token (snd (sub_apply_delta E sub data d pt)) = ss_token sub"
  "ss_waiters (snd (sub_apply_delta E sub data d pt)) = ss_waiters sub"
  "ss_event_tx (snd (sub_apply_delta E sub data d pt)) = ss_event_tx sub"
  "ss_delta_negotiated (snd (sub_apply_delta E sub data d pt)) = ss_delta_negotiated sub"
  by (auto simp: sub_apply_delta_def Let_def split: run.splits)

section \<open>A stream of publications\<close>

text \<open>
  What a server publishes on a channel with delta compression: whole payloads, and deltas over the
  payload before. The specification is the list of payloads; the wire carries encoded deltas.
\<close>

datatype server_pub = Whole bytes | Delta_over "delta_cmd list"

fun target :: "bytes \<Rightarrow> server_pub \<Rightarrow> bytes" where
  "target prev (Whole p) = p"
| "target prev (Delta_over cmds) = denote_all prev cmds"

fun targets :: "bytes \<Rightarrow> server_pub list \<Rightarrow> bytes list" where
  "targets prev [] = []"
| "targets prev (p # ps) = target prev p # targets (target prev p) ps"

fun sendable :: "bytes \<Rightarrow> server_pub \<Rightarrow> bool" where
  "sendable prev (Whole p) = True"
| "sendable prev (Delta_over cmds) =
     (list_all (cmd_ok prev) cmds \<and> length (denote_all prev cmds) < 2 ^ 32
      \<and> word_small (encode_delta prev cmds))"

fun all_sendable :: "bytes \<Rightarrow> server_pub list \<Rightarrow> bool" where
  "all_sendable prev [] = True"
| "all_sendable prev (p # ps) = (sendable prev p \<and> all_sendable (target prev p) ps)"

fun on_wire :: "bytes \<Rightarrow> server_pub \<Rightarrow> bytes \<times> bool" where
  "on_wire prev (Whole p) = (p, False)"
| "on_wire prev (Delta_over cmds) = (encode_delta prev cmds, True)"

text \<open>The client: apply the publications one by one, keeping the payloads delivered.\<close>

fun deliver ::
  "codec_env \<Rightarrow> protocol_type \<Rightarrow> sub_state \<Rightarrow> (bytes \<times> bool) list \<Rightarrow> bytes list \<times> sub_state" where
  "deliver E pt sub [] = ([], sub)"
| "deliver E pt sub ((data, d) # pubs) =
     (let (payload, sub1) = sub_apply_delta E sub data d pt;
          (payloads, sub2) = deliver E pt sub1 pubs
      in (payload # payloads, sub2))"

fun wire_all :: "(bytes \<Rightarrow> bytes) \<Rightarrow> bytes \<Rightarrow> server_pub list \<Rightarrow> (bytes \<times> bool) list" where
  "wire_all wrap prev [] = []"
| "wire_all wrap prev (p # ps) =
     (let (data, d) = on_wire prev p in (wrap data, d) # wire_all wrap (target prev p) ps)"

lemma sub_apply_delta_server:
  assumes "ss_delta_negotiated sub" and "sendable (ss_prev_data sub) p"
    and "raw_payload E pt (wrap (fst (on_wire (ss_prev_data sub) p))) = fst (on_wire (ss_prev_data sub) p)"
  shows "sub_apply_delta E sub (wrap (fst (on_wire (ss_prev_data sub) p))) (snd (on_wire (ss_prev_data sub) p)) pt
    = (target (ss_prev_data sub) p, sub\<lparr>ss_prev_data := target (ss_prev_data sub) p\<rparr>)"
  using assms
  by (cases p) (simp_all add: sub_apply_delta_def apply_delta_roundtrip list_all_iff)

text \<open>
  C30. Delta recovery: once delta compression is negotiated, the payloads delivered for a stream of
  whole and delta publications are the payloads the server published, in order, and the stored
  previous payload is the last of them; in JSON mode the data is unwrapped first.
\<close>

theorem deliver_targets:
  assumes "ss_delta_negotiated sub" and "all_sendable (ss_prev_data sub) ps"
    and "\<And>x. raw_payload E pt (wrap x) = x"
  shows "fst (deliver E pt sub (wire_all wrap (ss_prev_data sub) ps)) = targets (ss_prev_data sub) ps
    \<and> ss_prev_data (snd (deliver E pt sub (wire_all wrap (ss_prev_data sub) ps)))
      = last (ss_prev_data sub # targets (ss_prev_data sub) ps)"
  using assms(1,2)
proof (induction ps arbitrary: sub)
  case Nil
  show ?case by simp
next
  case (Cons p ps)
  let ?prev = "ss_prev_data sub" and ?t = "target (ss_prev_data sub) p"
  let ?sub = "sub\<lparr>ss_prev_data := ?t\<rparr>"
  have step: "sub_apply_delta E sub (wrap (fst (on_wire ?prev p))) (snd (on_wire ?prev p)) pt = (?t, ?sub)"
    using Cons.prems assms(3) by (intro sub_apply_delta_server) simp_all
  have "fst (deliver E pt ?sub (wire_all wrap ?t ps)) = targets ?t ps
    \<and> ss_prev_data (snd (deliver E pt ?sub (wire_all wrap ?t ps))) = last (?t # targets ?t ps)"
    using Cons.IH [of ?sub] Cons.prems by simp
  then show ?case
    using step by (simp add: Let_def case_prod_unfold)
qed

theorem deliver_targets_witness:
  "fst (deliver sample_codec Protobuf
      ((new_sub_state default_subscription_config)\<lparr>ss_delta_negotiated := True\<rparr>)
      (wire_all (\<lambda>x. x) [] [Whole [104, 105], Delta_over [Copy_from 2 0, Insert_lit [33]]]))
   = [[104, 105], [104, 105, 33]]"
proof -
  let ?sub = "(new_sub_state default_subscription_config)\<lparr>ss_delta_negotiated := True\<rparr>"
  have prev: "ss_prev_data ?sub = []" by (simp add: new_sub_state_def)
  have "all_sendable [] [Whole [104, 105], Delta_over [Copy_from 2 0, Insert_lit [33]]]"
    by (simp add: denote_all_def word_small_def encode_delta_def checksum_def encode_int_def
        digits_rev.simps push_bit_eq_mult DIGITS_eq)
  then show ?thesis
    using deliver_targets [of ?sub "[Whole [104, 105], Delta_over [Copy_from 2 0, Insert_lit [33]]]"
        sample_codec Protobuf "\<lambda>x. x"]
    by (simp add: prev raw_payload_def denote_all_def)
qed

end
