(* ===== verification/Transport.thy ===== *)
theory Transport
  imports Codec
begin

text \<open>
  \<open>src/transport.rs\<close>: the frames of a transport and the disconnect advice read from a WebSocket close
  frame. The WebSocket transport itself (\<open>WsTransport::connect\<close>, \<open>spawn_ws_task\<close>) is in \<open>Bridge\<close> and \<open>Tasks\<close>.
\<close>

record disconnect_info =
  di_code :: u32
  di_reason :: string
  di_reconnect :: bool

text \<open>A frame of the inbound stream; the end of the stream is \<open>None\<close> where frames are read.\<close>

datatype transport_frame = FrameData bytes | FrameClose "disconnect_info option"

definition map_close_code :: "u16 \<Rightarrow> string \<Rightarrow> disconnect_info" where
  "map_close_code code reason =
     (if code = 1000 \<or> code = 1001 then
        \<lparr>di_code = CONNECTING_TRANSPORT_CLOSED, di_reason = reason, di_reconnect = True\<rparr>
      else if code = 1009 then
        \<lparr>di_code = MESSAGE_SIZE_LIMIT, di_reason = ''message size limit'', di_reconnect = False\<rparr>
      else if code \<ge> 3000 then
        \<lparr>di_code = ucast code, di_reason = reason,
         di_reconnect = should_reconnect_on_disconnect (ucast code)\<rparr>
      else
        \<lparr>di_code = CONNECTING_TRANSPORT_CLOSED,
         di_reason = ''transport closed with code '' @ show_nat (unat code), di_reconnect = True\<rparr>)"

text \<open>
  \<open>parse_advice\<close> is \<open>serde_json::from_str::<CloseAdvice>\<close>, which fills missing fields with defaults.
\<close>

definition parse_close :: "(string \<Rightarrow> (u32 \<times> string \<times> bool) option) \<Rightarrow> u16 \<Rightarrow> string \<Rightarrow> disconnect_info" where
  "parse_close parse_advice code reason =
     (case parse_advice reason of
        Some (acode, areason, areconnect) \<Rightarrow>
          \<lparr>di_code = acode, di_reason = areason, di_reconnect = areconnect\<rparr>
      | None \<Rightarrow> map_close_code code reason)"

lemma unat_ucast_u16: "unat (ucast (c :: u16) :: u32) = unat c"
proof -
  have "unat c < 2 ^ 16" using unsigned_less [of c] by simp
  then show ?thesis by (simp add: unsigned_ucast_eq take_bit_nat_eq_self_iff)
qed

text \<open>
  Without JSON advice, a close frame is terminal exactly for code 1009 (message too big) and for
  the terminal ranges 3500 to 3999 and 4500 to 4999 of the protocol; any other code reconnects.
\<close>

theorem parse_close_reconnect:
  assumes "parse_advice reason = None"
  shows "di_reconnect (parse_close parse_advice code reason) \<longleftrightarrow>
    \<not> (unat code = 1009 \<or> 3500 \<le> unat code \<and> unat code \<le> 3999 \<or> 4500 \<le> unat code \<and> unat code \<le> 4999)"
  using assms
  by (auto simp: parse_close_def map_close_code_def should_reconnect_on_disconnect_def in_range_def
      word_le_nat_alt word_less_nat_alt unat_ucast_u16 word_unat_eq_iff)

theorem parse_close_reconnect_witness:
  "di_reconnect (parse_close (\<lambda>_. None) 3001 ''restart'') \<longleftrightarrow>
    \<not> (unat (3001 :: u16) = 1009 \<or> 3500 \<le> unat (3001 :: u16) \<and> unat (3001 :: u16) \<le> 3999
       \<or> 4500 \<le> unat (3001 :: u16) \<and> unat (3001 :: u16) \<le> 4999)"
  by (rule parse_close_reconnect) simp

end
