(* ===== verification/Actor.thy ===== *)
theory Actor
  imports Subscription Transport
begin

text \<open>
  \<open>src/client/actor.rs\<close>: the commands, the pending requests and the state of the connection actor.

  The actor is one task, so a handler runs alone; what it does outside its own state is the log
  \<open>a_log\<close>: events offered to event channels, answers sent on one-shot channels, frames written,
  commands scheduled after a delay. What the world answers is the record \<open>env\<close>: every call
  that can answer differently each time is given \<open>a_tick\<close>, the number of such calls so far.
\<close>

section \<open>Commands, requests, effects\<close>

datatype actor_command =
    Connect nat
  | Disconnect nat
  | Close nat
  | NewSubscription string subscription_config nat
  | GetSubscription string nat
  | ListSubscriptions nat
  | RemoveSubscription string nat
  | Subscribe string nat
  | Unsubscribe string nat
  | SetClientEventChannel nat
  | SetSubEventChannel string nat
  | SendRequest proto_command nat
  | Send bytes
  | SetToken string
  | SetData bytes
  | StartBatching
  | StopBatching
  | Resubscribe string
  | RefreshToken
  | RefreshSubToken string
  | RequestTimeout u32

text \<open>
  The sending half of a one-shot channel: the identity of the caller that waits, or \<open>None\<close> when the
  receiver was dropped at once (\<open>let (tx, _) = oneshot::channel()\<close>), where sending does nothing.
\<close>

type_synonym sender = "nat option"

datatype reply_value =
    RUnit "unit res"
  | RBool bool
  | RList "(string \<times> subscription_state) list"
  | RReply "proto_reply res"

text \<open>The type of a reply channel, \<open>T\<close> in \<open>oneshot::Sender<T>\<close>.\<close>

datatype reply_kind = UnitReply | BoolReply | ListReply | MessageReply

fun kind_of :: "reply_value \<Rightarrow> reply_kind" where
  "kind_of (RUnit v) = UnitReply"
| "kind_of (RBool b) = BoolReply"
| "kind_of (RList l) = ListReply"
| "kind_of (RReply v) = MessageReply"

datatype pending_request =
    PSubscribe string sender
  | PRequest sender
  | PRefresh sender
  | PSubRefresh string sender

fun pending_sender :: "pending_request \<Rightarrow> sender" where
  "pending_sender (PSubscribe ch w) = w"
| "pending_sender (PRequest w) = w"
| "pending_sender (PRefresh w) = w"
| "pending_sender (PSubRefresh ch w) = w"

fun pending_kind :: "pending_request \<Rightarrow> reply_kind" where
  "pending_kind (PRequest w) = MessageReply"
| "pending_kind _ = UnitReply"

text \<open>\<open>DropSender\<close>: a waiter's sender is dropped unanswered, its caller sees \<open>ClientClosed\<close>.\<close>

datatype effect =
    EmitClient nat client_event
  | EmitSub nat sub_event
  | Answer nat reply_value
  | DropSender nat
  | Write nat bytes
  | Schedule duration actor_command

section \<open>State\<close>

record server_sub_state =
  srv_recoverable :: bool
  srv_offset :: u64
  srv_epoch :: string

text \<open>
  \<open>a_ids\<close>, \<open>a_tick\<close> and \<open>a_log\<close> are no fields of the code: they record how many identifiers have been
  handed out, how often the environment was asked, and what was done outside the actor.
  \<open>a_sink\<close> and \<open>a_stream\<close> are the number of the connection they belong to. The fields of \<open>PingState\<close>,
  \<open>TokenState\<close> and \<open>BatchState\<close> stand side by side.
\<close>

record actor =
  a_config :: client_config
  a_state :: client_state
  a_client_id :: string
  a_sink :: "nat option"
  a_stream :: "nat option"
  a_next_id :: u32
  a_pending :: "(u32, pending_request) hashmap"
  a_subs :: "(string, sub_state) hashmap"
  a_server_subs :: "(string, server_sub_state) hashmap"
  a_ping_interval :: duration
  a_send_pong :: bool
  a_last_data_received :: nat
  a_token_expires :: bool
  a_token_ttl :: u32
  a_refresh_required :: bool
  a_batch_active :: bool
  a_batch_queue :: "bytes list"
  a_reconnect_attempts :: u32
  a_connect_requested :: bool
  a_connect_waiters :: "nat list"
  a_client_event_tx :: "nat option"
  a_shared_state :: u8
  a_ids :: nat
  a_tick :: nat
  a_log :: "effect list"

definition new_actor :: "client_config \<Rightarrow> actor" where
  "new_actor config = \<lparr>a_config = config, a_state = Disconnected, a_client_id = [], a_sink = None,
     a_stream = None, a_next_id = 1, a_pending = hm_empty, a_subs = hm_empty,
     a_server_subs = hm_empty, a_ping_interval = from_secs 25, a_send_pong = False,
     a_last_data_received = 0, a_token_expires = False, a_token_ttl = 0,
     a_refresh_required = False, a_batch_active = False, a_batch_queue = [],
     a_reconnect_attempts = 0, a_connect_requested = False, a_connect_waiters = [],
     a_client_event_tx = None, a_shared_state = 0, a_ids = 0, a_tick = 0, a_log = []\<rparr>"

section \<open>The environment\<close>

text \<open>
  \<open>env_send\<close> and \<open>env_connect\<close> answer with the message of a transport error or \<open>None\<close>; \<open>env_order\<close>
  is the iteration order of the next hash-map loop; \<open>env_now\<close> the clock; \<open>env_rand\<close> the jitter.
\<close>

record env =
  env_codec :: codec_env
  env_send :: "nat \<Rightarrow> bytes \<Rightarrow> string option"
  env_connect :: "nat \<Rightarrow> string option"
  env_order :: "nat \<Rightarrow> nat list"
  env_now :: "nat \<Rightarrow> nat"
  env_rand :: "nat \<Rightarrow> nat \<Rightarrow> nat"

definition step_tick :: "actor \<Rightarrow> actor" where
  "step_tick s = s\<lparr>a_tick := a_tick s + 1\<rparr>"

definition perform :: "effect \<Rightarrow> actor \<Rightarrow> actor" where
  "perform e s = s\<lparr>a_log := a_log s @ [e]\<rparr>"

text \<open>A loop over a hash map: the keys at its start, in an order of the environment's choice.\<close>

definition for_keys :: "env \<Rightarrow> ('k, 'v) hashmap \<Rightarrow> ('k \<Rightarrow> actor \<Rightarrow> actor) \<Rightarrow> actor \<Rightarrow> actor" where
  "for_keys env m f s = fold f (reorder (env_order env (a_tick s)) (hm_keys m)) (step_tick s)"

section \<open>Small operations\<close>

definition emit_client_event :: "client_event \<Rightarrow> actor \<Rightarrow> actor" where
  "emit_client_event ev s =
     (case a_client_event_tx s of Some tx \<Rightarrow> perform (EmitClient tx ev) s | None \<Rightarrow> s)"

definition emit_error :: "string \<Rightarrow> actor \<Rightarrow> actor" where
  "emit_error msg s = emit_client_event (CE_Error msg) s"

definition sub_emit :: "sub_state \<Rightarrow> sub_event \<Rightarrow> actor \<Rightarrow> actor" where
  "sub_emit sub ev s =
     (case ss_event_tx sub of Some tx \<Rightarrow> perform (EmitSub tx ev) s | None \<Rightarrow> s)"

definition update_shared_state :: "actor \<Rightarrow> actor" where
  "update_shared_state s = s\<lparr>a_shared_state := as_u8 (a_state s)\<rparr>"

text \<open>\<open>fetch_add\<close> wraps around.\<close>

definition next_cmd_id :: "actor \<Rightarrow> u32 \<times> actor" where
  "next_cmd_id s = (a_next_id s, s\<lparr>a_next_id := a_next_id s + 1, a_ids := a_ids s + 1\<rparr>)"

definition answer :: "sender \<Rightarrow> reply_value \<Rightarrow> actor \<Rightarrow> actor" where
  "answer w v s = (case w of Some r \<Rightarrow> perform (Answer r v) s | None \<Rightarrow> s)"

definition answer_all :: "nat list \<Rightarrow> reply_value \<Rightarrow> actor \<Rightarrow> actor" where
  "answer_all ws v s = fold (\<lambda>w. answer (Some w) v) ws s"

definition drop_sender :: "sender \<Rightarrow> actor \<Rightarrow> actor" where
  "drop_sender w s = (case w of Some r \<Rightarrow> perform (DropSender r) s | None \<Rightarrow> s)"

definition drop_all :: "nat list \<Rightarrow> actor \<Rightarrow> actor" where
  "drop_all ws s = fold (\<lambda>w. drop_sender (Some w)) ws s"

definition schedule :: "duration \<Rightarrow> actor_command \<Rightarrow> actor \<Rightarrow> actor" where
  "schedule d cmd s = perform (Schedule d cmd) s"

definition put_sub :: "string \<Rightarrow> sub_state \<Rightarrow> actor \<Rightarrow> actor" where
  "put_sub ch sub s = s\<lparr>a_subs := hm_insert ch sub (a_subs s)\<rparr>"

text \<open>
  \<open>HashMap::insert\<close> on the pending map; an entry it replaces is dropped, with its sender.
\<close>

definition insert_pending :: "u32 \<Rightarrow> pending_request \<Rightarrow> actor \<Rightarrow> actor" where
  "insert_pending i req s =
     (let s1 = s\<lparr>a_pending := hm_insert i req (a_pending s)\<rparr>
      in case hm_get (a_pending s) i of None \<Rightarrow> s1 | Some old \<Rightarrow> drop_sender (pending_sender old) s1)"

definition remove_pending :: "u32 \<Rightarrow> actor \<Rightarrow> actor" where
  "remove_pending i s = s\<lparr>a_pending := hm_remove i (a_pending s)\<rparr>"

text \<open>\<open>PendingRequest::fail\<close>: answer with the error; the channel if it was a subscribe.\<close>

fun fail_request :: "pending_request \<Rightarrow> centrifuge_error \<Rightarrow> actor \<Rightarrow> string option \<times> actor" where
  "fail_request (PSubscribe channel w) e s = (Some channel, answer w (RUnit (Inl e)) s)"
| "fail_request (PRequest w) e s = (None, answer w (RReply (Inl e)) s)"
| "fail_request (PRefresh w) e s = (None, answer w (RUnit (Inl e)) s)"
| "fail_request (PSubRefresh channel w) e s = (None, answer w (RUnit (Inl e)) s)"

lemmas actor_ops = step_tick_def perform_def emit_client_event_def emit_error_def sub_emit_def
  update_shared_state_def next_cmd_id_def answer_def drop_sender_def schedule_def put_sub_def
  insert_pending_def remove_pending_def

end
