(* ===== verification/ActorState.thy ===== *)
theory ActorState
  imports Actor
begin

text \<open>
  \<open>src/client/state.rs\<close>: the transitions of the connection state machine and what each of them
  tears down.
\<close>

section \<open>Transitions\<close>

definition move_to_connecting :: "u32 \<Rightarrow> string \<Rightarrow> actor \<Rightarrow> actor" where
  "move_to_connecting code reason s =
     emit_client_event (CE_Connecting code reason)
       (update_shared_state (s\<lparr>a_state := Connecting\<rparr>))"

definition move_to_connected :: "env \<Rightarrow> connect_result \<Rightarrow> actor \<Rightarrow> actor" where
  "move_to_connected env result s =
     (let s = s\<lparr>a_state := Connected, a_client_id := cr_client result, a_reconnect_attempts := 0\<rparr>;
          s = (if cr_ping result > 0
               then s\<lparr>a_ping_interval := from_secs (unat (cr_ping result))\<rparr> else s);
          s = step_tick (s\<lparr>a_send_pong := cr_pong result, a_last_data_received := env_now env (a_tick s),
                a_token_expires := cr_expires result, a_token_ttl := cr_ttl result\<rparr>)
      in emit_client_event (CE_Connected \<lparr>cc_client_id = cr_client result, cc_version = cr_version result,
             cc_data = cr_data result, cc_session = cr_session result, cc_node = cr_node result\<rparr>)
           (update_shared_state s))"

definition fail_all_pending :: "env \<Rightarrow> actor \<Rightarrow> actor" where
  "fail_all_pending env s =
     for_keys env (a_pending s)
       (\<lambda>i s. case hm_get (a_pending s) i of
            None \<Rightarrow> s
          | Some req \<Rightarrow> snd (fail_request req ClientDisconnected (remove_pending i s))) s"

text \<open>The body of the loop of \<open>unsubscribe_all_subs\<close> for one channel.\<close>

definition unsubscribe_sub :: "centrifuge_error \<Rightarrow> u32 \<Rightarrow> string \<Rightarrow> string \<Rightarrow> actor \<Rightarrow> actor" where
  "unsubscribe_sub err code reason channel s =
     (case hm_get (a_subs s) channel of
        None \<Rightarrow> s
      | Some sub \<Rightarrow>
          if ss_state sub \<noteq> Unsubscribed then
            sub_emit sub (SE_Unsubscribed code reason)
              (answer_all (ss_waiters sub) (RUnit (Inl err))
                (put_sub channel (sub\<lparr>ss_state := Unsubscribed, ss_waiters := []\<rparr>) s))
          else s)"

definition unsubscribe_all_subs :: "env \<Rightarrow> centrifuge_error \<Rightarrow> u32 \<Rightarrow> string \<Rightarrow> actor \<Rightarrow> actor" where
  "unsubscribe_all_subs env err code reason s =
     for_keys env (a_subs s) (unsubscribe_sub err code reason) s"

definition drain_connect_waiters :: "reply_value \<Rightarrow> actor \<Rightarrow> actor" where
  "drain_connect_waiters v s = answer_all (a_connect_waiters s) v (s\<lparr>a_connect_waiters := []\<rparr>)"

definition drain_server_subs :: "env \<Rightarrow> u32 \<Rightarrow> string \<Rightarrow> actor \<Rightarrow> actor" where
  "drain_server_subs env code reason s =
     for_keys env (a_server_subs s)
       (\<lambda>channel. emit_client_event (CE_ServerUnsubscribed channel code reason))
       (s\<lparr>a_server_subs := hm_empty\<rparr>)"

text \<open>What both \<open>move_to_disconnected\<close> and \<open>move_to_closed\<close> do to the connection.\<close>

definition drop_connection :: "env \<Rightarrow> actor \<Rightarrow> actor" where
  "drop_connection env s =
     (fail_all_pending env (s\<lparr>a_sink := None, a_stream := None\<rparr>))
       \<lparr>a_batch_active := False, a_batch_queue := []\<rparr>"

definition move_to_disconnected :: "env \<Rightarrow> u32 \<Rightarrow> string \<Rightarrow> actor \<Rightarrow> actor" where
  "move_to_disconnected env code reason s =
     (let was_connected = (a_state s = Connected);
          s = update_shared_state (s\<lparr>a_state := Disconnected\<rparr>);
          s = s\<lparr>a_client_id := [], a_connect_requested := False\<rparr>;
          s = drop_connection env s;
          s = drain_connect_waiters (RUnit (Inl ClientDisconnected)) s;
          s = (if was_connected
               then unsubscribe_all_subs env ClientDisconnected CLIENT_CLOSED reason s else s);
          s = drain_server_subs env code reason s
      in emit_client_event (CE_Disconnected code reason) s)"

definition move_to_closed :: "env \<Rightarrow> actor \<Rightarrow> actor" where
  "move_to_closed env s =
     (let s = update_shared_state (s\<lparr>a_state := Closed\<rparr>);
          s = drop_connection env s;
          s = drain_connect_waiters (RUnit (Inl ClientClosed)) s
      in unsubscribe_all_subs env ClientClosed CLIENT_CLOSED ''client closed'' s)"

definition unsubscribe_unauthorized :: "string \<Rightarrow> actor \<Rightarrow> actor" where
  "unsubscribe_unauthorized channel s =
     (case hm_get (a_subs s) channel of
        None \<Rightarrow> s
      | Some sub \<Rightarrow>
          sub_emit sub (SE_Unsubscribed UNSUBSCRIBED_UNAUTHORIZED ''unauthorized'')
            (answer_all (ss_waiters sub) (RUnit (Inl Unauthorized))
              (put_sub channel (sub\<lparr>ss_state := Unsubscribed, ss_attempts := 0, ss_waiters := []\<rparr>) s)))"

end
