(* ===== verification/TransportIO.thy ===== *)
theory TransportIO
  imports ActorState
begin

text \<open>
  \<open>src/client/transport_io.rs\<close>: losing the transport, sending a command (into the batch or on the
  wire), flushing a batch. \<open>read_reply_with_timeout\<close> is in \<open>Connection\<close>, with the dispatch it calls.
\<close>

section \<open>Losing the transport\<close>

text \<open>The loop body over \<open>subs.values_mut()\<close>: a subscribed channel waits for the reconnect.\<close>

definition resubscribing_sub :: "string \<Rightarrow> string \<Rightarrow> actor \<Rightarrow> actor" where
  "resubscribing_sub reason channel s =
     (case hm_get (a_subs s) channel of
        None \<Rightarrow> s
      | Some sub \<Rightarrow>
          if ss_state sub = Subscribed then
            sub_emit sub (SE_Subscribing SUBSCRIBING_TRANSPORT_CLOSED reason)
              (put_sub channel (sub\<lparr>ss_state := Subscribing, ss_attempts := 0\<rparr>) s)
          else s)"

definition transport_closed_info :: disconnect_info where
  "transport_closed_info = \<lparr>di_code = CONNECTING_TRANSPORT_CLOSED, di_reason = ''transport closed'',
     di_reconnect = True\<rparr>"

definition on_transport_close :: "env \<Rightarrow> disconnect_info option \<Rightarrow> actor \<Rightarrow> actor" where
  "on_transport_close env info s =
     (let info = (case info of Some i \<Rightarrow> i | None \<Rightarrow> transport_closed_info);
          s = drop_connection env s
      in if di_reconnect info \<and> a_connect_requested s then
           let s = for_keys env (a_subs s) (resubscribing_sub (di_reason info)) s;
               s = for_keys env (a_server_subs s)
                 (\<lambda>channel. emit_client_event
                    (CE_ServerSubscribing channel SUBSCRIBING_TRANSPORT_CLOSED (di_reason info))) s
           in move_to_connecting (di_code info) (di_reason info) s
         else move_to_disconnected env (di_code info) (di_reason info) s)"

section \<open>Sending\<close>

definition schedule_request_timeout :: "u32 \<Rightarrow> actor \<Rightarrow> actor" where
  "schedule_request_timeout i s = schedule (cfg_timeout (a_config s)) (RequestTimeout i) s"

definition protocol_of :: "actor \<Rightarrow> protocol_type" where
  "protocol_of s = cfg_protocol_type (a_config s)"

text \<open>\<open>sink.send_data\<close>: the bytes are written on the current connection, or the transport's error.\<close>

definition sink_send :: "env \<Rightarrow> nat \<Rightarrow> bytes \<Rightarrow> actor \<Rightarrow> unit res \<times> actor" where
  "sink_send env conn data s =
     (case env_send env (a_tick s) data of
        Some e \<Rightarrow> (Inl (Transport e), step_tick s)
      | None \<Rightarrow> (Inr (), perform (Write conn data) (step_tick s)))"

definition send_command :: "env \<Rightarrow> proto_command \<Rightarrow> actor \<Rightarrow> unit res \<times> actor" where
  "send_command env cmd s =
     (case encode_commands (env_codec env) (protocol_of s) [cmd] of
        Inl e \<Rightarrow> (Inl e, s)
      | Inr data \<Rightarrow>
          if a_batch_active s then (Inr (), s\<lparr>a_batch_queue := a_batch_queue s @ [data]\<rparr>)
          else (case a_sink s of
                  Some conn \<Rightarrow> sink_send env conn data s
                | None \<Rightarrow> (Inl ClientDisconnected, s)))"

definition flush_batch :: "env \<Rightarrow> actor \<Rightarrow> actor" where
  "flush_batch env s =
     (let s = s\<lparr>a_batch_active := False\<rparr> in
      if a_batch_queue s = [] then s
      else let combined = combine_batch (protocol_of s) (a_batch_queue s);
               s = s\<lparr>a_batch_queue := []\<rparr>
           in case a_sink s of
                Some conn \<Rightarrow> snd (sink_send env conn combined s)
              | None \<Rightarrow> s)"

end
