(* ===== verification/Token.thy ===== *)
theory Token
  imports TransportIO
begin

text \<open>
  \<open>src/client/token.rs\<close>, and \<open>do_token_refresh\<close> of \<open>src/client/connect.rs\<close>: refreshing the connection
  token and the subscription tokens.
\<close>

section \<open>Scheduling\<close>

text \<open>90\<open>%\<close> of the time to live; the product of a \<open>u32\<close> and 900 fits in a \<open>u64\<close>.\<close>

definition refresh_delay :: "u32 \<Rightarrow> duration" where
  "refresh_delay ttl = from_millis (unat ttl * 900)"

definition schedule_token_refresh :: "actor \<Rightarrow> actor" where
  "schedule_token_refresh s =
     (if \<not> a_token_expires s \<or> a_token_ttl s = 0 then s
      else schedule (refresh_delay (a_token_ttl s)) RefreshToken s)"

definition schedule_sub_token_refresh :: "string \<Rightarrow> u32 \<Rightarrow> actor \<Rightarrow> actor" where
  "schedule_sub_token_refresh channel ttl s =
     (if ttl = 0 then s else schedule (refresh_delay ttl) (RefreshSubToken channel) s)"

definition schedule_token_refresh_retry :: "actor \<Rightarrow> actor" where
  "schedule_token_refresh_retry s = schedule (from_secs 10) RefreshToken s"

section \<open>The connection token\<close>

definition do_token_refresh :: "actor \<Rightarrow> unit res \<times> actor" where
  "do_token_refresh s =
     (case cfg_get_token (a_config s) of
        Some get_token \<Rightarrow>
          (case get_token (a_tick s) of
             Inl e \<Rightarrow> (Inl e, step_tick s)
           | Inr token \<Rightarrow>
               if token = [] then (Inl Unauthorized, step_tick s)
               else (Inr (), (step_tick s)\<lparr>a_config := (a_config s)\<lparr>cfg_token := token\<rparr>\<rparr>))
      | None \<Rightarrow> (Inr (), s))"

definition do_refresh_token :: "env \<Rightarrow> actor \<Rightarrow> actor" where
  "do_refresh_token env s =
     (if a_state s \<noteq> Connected then s
      else case do_token_refresh s of
          (Inr (), s) \<Rightarrow>
            (let (i, s) = next_cmd_id s;
                 cmd = default_command\<lparr>cmd_id := i, cmd_refresh := Some \<lparr>rq_token = cfg_token (a_config s)\<rparr>\<rparr>;
                 s = insert_pending i (PRefresh None) s
             in case send_command env cmd s of
                  (Inr (), s) \<Rightarrow> s
                | (Inl e, s) \<Rightarrow> schedule_token_refresh_retry (remove_pending i s))
        | (Inl e, s) \<Rightarrow>
            (if e = Unauthorized
             then move_to_disconnected env DISCONNECT_UNAUTHORIZED ''unauthorized'' s
             else schedule_token_refresh_retry
                    (emit_error (''token refresh: '' @ error_to_string e) s)))"

section \<open>Subscription tokens\<close>

definition send_sub_refresh :: "env \<Rightarrow> string \<Rightarrow> string \<Rightarrow> actor \<Rightarrow> actor" where
  "send_sub_refresh env channel token s =
     (let (i, s) = next_cmd_id s;
          cmd = default_command\<lparr>cmd_id := i,
            cmd_sub_refresh := Some \<lparr>srq_channel = channel, srq_token = token\<rparr>\<rparr>;
          s = insert_pending i (PSubRefresh channel None) s
      in case send_command env cmd s of
           (Inr (), s) \<Rightarrow> s
         | (Inl e, s) \<Rightarrow> remove_pending i s)"

definition do_refresh_sub_token :: "env \<Rightarrow> string \<Rightarrow> actor \<Rightarrow> actor" where
  "do_refresh_sub_token env channel s =
     (if a_state s \<noteq> Connected then s
      else case hm_get (a_subs s) channel of
          None \<Rightarrow> s
        | Some sub \<Rightarrow>
            if ss_state sub \<noteq> Subscribed then s
            else (case scfg_get_token (ss_config sub) of
                None \<Rightarrow> s
              | Some get_token \<Rightarrow>
                  (case get_token channel (a_tick s) of
                     Inr token \<Rightarrow>
                       if token = [] then unsubscribe_unauthorized channel (step_tick s)
                       else send_sub_refresh env channel token
                              (put_sub channel (sub\<lparr>ss_token := token\<rparr>) (step_tick s))
                   | Inl e \<Rightarrow>
                       if e = Unauthorized then unsubscribe_unauthorized channel (step_tick s)
                       else schedule_sub_token_refresh channel 10
                              (sub_emit sub (SE_Error (''subscription token refresh: '' @ error_to_string e))
                                (step_tick s)))))"

end
