(* ===== verification/Subscriptions.thy ===== *)
theory Subscriptions
  imports Token
begin

text \<open>
  \<open>src/client/subscriptions.rs\<close>: building subscribe commands, the outcome of a subscribe, the
  resubscribe schedule, and \<open>do_subscribe\<close> with its token and data callbacks.
\<close>

section \<open>The subscribe command\<close>

text \<open>Whether a subscribe asks the server to recover from the stored position.\<close>

definition recovering :: "sub_state \<Rightarrow> bool" where
  "recovering sub = (ss_recover sub \<and> (ss_offset sub > 0 \<or> ss_epoch sub \<noteq> []))"

definition delta_name :: "delta_type \<Rightarrow> string" where
  "delta_name d = (case d of DeltaFossil \<Rightarrow> ''fossil'' | DeltaNone \<Rightarrow> [])"

definition subscribe_request_of :: "string \<Rightarrow> sub_state \<Rightarrow> subscribe_request" where
  "subscribe_request_of channel sub = default_subscribe_request\<lparr>
     sq_channel := channel, sq_token := ss_token sub, sq_recover := recovering sub,
     sq_epoch := ss_epoch sub, sq_offset := ss_offset sub, sq_data := scfg_data (ss_config sub),
     sq_positioned := scfg_positioned (ss_config sub),
     sq_recoverable := scfg_recoverable (ss_config sub),
     sq_join_leave := scfg_join_leave (ss_config sub),
     sq_delta := delta_name (scfg_delta (ss_config sub)),
     sq_tf := scfg_tags_filter (ss_config sub)\<rparr>"

definition build_subscribe_command :: "u32 \<Rightarrow> string \<Rightarrow> actor \<Rightarrow> proto_command option" where
  "build_subscribe_command i channel s =
     (case hm_get (a_subs s) channel of
        None \<Rightarrow> None
      | Some sub \<Rightarrow> Some (default_command\<lparr>cmd_id := i,
          cmd_subscribe := Some (subscribe_request_of channel sub)\<rparr>))"

section \<open>Publications of a subscription\<close>

text \<open>
  The body shared by the loop over recovered publications and by \<open>handle_publication\<close>: advance the
  offset, undo the delta, offer the publication to the user.
\<close>

definition receive_publication ::
  "env \<Rightarrow> protocol_type \<Rightarrow> proto_publication \<Rightarrow> sub_state \<times> actor \<Rightarrow> sub_state \<times> actor" where
  "receive_publication env pt pub_msg = (\<lambda>(sub, s).
     (let sub = (if pp_offset pub_msg > 0 then sub\<lparr>ss_offset := pp_offset pub_msg\<rparr> else sub);
          (data, sub) = sub_apply_delta (env_codec env) sub (pp_data pub_msg) (pp_delta pub_msg) pt;
          publication = (publication_from pub_msg)\<lparr>pub_data := data\<rparr>
      in (sub, sub_emit sub (SE_Publication publication) s)))"

section \<open>Success\<close>

definition position_of :: "subscribe_result \<Rightarrow> stream_position option" where
  "position_of result =
     (if sr_positioned result \<or> sr_recoverable result
      then Some \<lparr>sp_offset = sr_offset result, sp_epoch = sr_epoch result\<rparr> else None)"

definition subscribed_context_of :: "string \<Rightarrow> bool \<Rightarrow> subscribe_result \<Rightarrow> subscribed_context" where
  "subscribed_context_of channel was_recovering result =
     \<lparr>sc_channel = channel, sc_recoverable = sr_recoverable result,
      sc_positioned = sr_positioned result, sc_stream_position = position_of result,
      sc_was_recovering = was_recovering, sc_recovered = sr_recovered result,
      sc_has_recovered_publications = (sr_publications result \<noteq> []), sc_data = sr_data result\<rparr>"

definition subscribed_sub :: "subscribe_result \<Rightarrow> sub_state \<Rightarrow> sub_state" where
  "subscribed_sub result sub =
     (let sub = sub\<lparr>ss_state := Subscribed, ss_attempts := 0, ss_delta_negotiated := sr_delta result\<rparr>;
          sub = (if sr_recoverable result
                 then sub\<lparr>ss_recover := True, ss_offset := sr_offset result, ss_epoch := sr_epoch result\<rparr>
                 else sub)
      in if sr_positioned result
         then sub\<lparr>ss_offset := sr_offset result, ss_epoch := sr_epoch result\<rparr> else sub)"

definition handle_subscribe_success :: "env \<Rightarrow> string \<Rightarrow> subscribe_result \<Rightarrow> actor \<Rightarrow> actor" where
  "handle_subscribe_success env channel result s =
     (case hm_get (a_subs s) channel of
        None \<Rightarrow> s
      | Some sub \<Rightarrow>
          let was_recovering = recovering sub;
              sub1 = subscribed_sub result sub;
              s1 = sub_emit sub1 (SE_Subscribed (subscribed_context_of channel was_recovering result)) s;
              (sub2, s2) = fold (receive_publication env (protocol_of s)) (sr_publications result) (sub1, s1);
              s3 = answer_all (ss_waiters sub2) (RUnit (Inr ())) (put_sub channel (sub2\<lparr>ss_waiters := []\<rparr>) s2)
          in if sr_expires result \<and> sr_ttl result > 0
             then schedule_sub_token_refresh channel (sr_ttl result) s3 else s3)"

section \<open>Errors and retries\<close>

definition resubscribe_delay :: "env \<Rightarrow> sub_state \<Rightarrow> actor \<Rightarrow> duration" where
  "resubscribe_delay env sub s =
     next_delay (env_rand env (a_tick s)) (unat (ss_attempts sub) - 1)
       (scfg_min_resubscribe_delay (ss_config sub)) (scfg_max_resubscribe_delay (ss_config sub))"

definition schedule_resubscribe :: "env \<Rightarrow> string \<Rightarrow> actor \<Rightarrow> actor" where
  "schedule_resubscribe env channel s =
     (case hm_get (a_subs s) channel of
        None \<Rightarrow> s
      | Some sub \<Rightarrow> schedule (resubscribe_delay env sub s) (Resubscribe channel) (step_tick s))"

definition handle_subscribe_error :: "env \<Rightarrow> string \<Rightarrow> server_error \<Rightarrow> actor \<Rightarrow> actor" where
  "handle_subscribe_error env channel err s =
     (case hm_get (a_subs s) channel of
        None \<Rightarrow> s
      | Some sub \<Rightarrow>
          if is_temporary (se_code err) (se_temporary err) then
            let s = sub_emit sub (SE_Error (''subscribe error: '' @ show_nat (unat (se_code err)) @ '': ''
                       @ se_message err)) s;
                sub = (if se_code err = TOKEN_EXPIRED then sub\<lparr>ss_token := []\<rparr> else sub);
                sub = sub\<lparr>ss_attempts := ss_attempts sub + 1\<rparr>
            in schedule_resubscribe env channel (put_sub channel sub s)
          else
            sub_emit sub (SE_Unsubscribed (se_code err) (se_message err))
              (answer_all (ss_waiters sub) (RUnit (Inl (Server err)))
                (put_sub channel (sub\<lparr>ss_state := Unsubscribed, ss_attempts := 0, ss_waiters := []\<rparr>) s)))"

section \<open>Subscribing\<close>

text \<open>
  The token part of \<open>do_subscribe\<close>: \<open>None\<close> when the function has returned, with the state then;
  \<open>Some\<close> when it goes on.
\<close>

definition needs_token :: "sub_state \<Rightarrow> bool" where
  "needs_token sub = (ss_token sub = [] \<and> scfg_get_token (ss_config sub) \<noteq> None)"

definition subscribe_token :: "env \<Rightarrow> string \<Rightarrow> sub_state \<Rightarrow> actor \<Rightarrow> bool \<times> actor" where
  "subscribe_token env channel sub s =
     (if ss_token sub = [] then
        (case scfg_get_token (ss_config sub) of
           None \<Rightarrow> (True, s)
         | Some get_token \<Rightarrow>
             (case get_token channel (a_tick s) of
                Inr token \<Rightarrow>
                  if token = [] then (False, unsubscribe_unauthorized channel (step_tick s))
                  else (True, put_sub channel (sub\<lparr>ss_token := token\<rparr>) (step_tick s))
              | Inl e \<Rightarrow>
                  if e = Unauthorized then (False, unsubscribe_unauthorized channel (step_tick s))
                  else (False, schedule_resubscribe env channel
                         (put_sub channel (sub\<lparr>ss_attempts := ss_attempts sub + 1\<rparr>)
                           (sub_emit sub (SE_Error (''subscription token: '' @ error_to_string e))
                             (step_tick s))))))
      else (True, s))"

definition subscribe_data :: "string \<Rightarrow> actor \<Rightarrow> actor" where
  "subscribe_data channel s =
     (case hm_get (a_subs s) channel of
        None \<Rightarrow> s
      | Some sub \<Rightarrow>
          (case scfg_get_data (ss_config sub) of
             None \<Rightarrow> s
           | Some get_data \<Rightarrow>
               (case get_data channel (a_tick s) of
                  Inr data \<Rightarrow>
                    put_sub channel (sub\<lparr>ss_config := (ss_config sub)\<lparr>scfg_data := data\<rparr>\<rparr>) (step_tick s)
                | Inl e \<Rightarrow>
                    sub_emit sub (SE_Error (''get_data: '' @ error_to_string e)) (step_tick s))))"

definition send_subscribe :: "env \<Rightarrow> string \<Rightarrow> actor \<Rightarrow> actor" where
  "send_subscribe env channel s =
     (let (i, s) = next_cmd_id s in
      case build_subscribe_command i channel s of
        None \<Rightarrow> s
      | Some cmd \<Rightarrow>
          let s = insert_pending i (PSubscribe channel None) s;
              s = schedule_request_timeout i s
          in case send_command env cmd s of
               (Inr (), s) \<Rightarrow> s
             | (Inl e, s) \<Rightarrow> remove_pending i s)"

definition do_subscribe :: "env \<Rightarrow> string \<Rightarrow> actor \<Rightarrow> actor" where
  "do_subscribe env channel s =
     (case hm_get (a_subs s) channel of
        None \<Rightarrow> s
      | Some sub \<Rightarrow>
          if ss_state sub = Unsubscribed then s
          else let (go_on, s) = subscribe_token env channel sub s in
            if go_on then send_subscribe env channel (subscribe_data channel s) else s)"

definition resubscribe_all :: "env \<Rightarrow> actor \<Rightarrow> actor" where
  "resubscribe_all env s =
     (let channels = filter (\<lambda>ch. case hm_get (a_subs s) ch of
                 Some sub \<Rightarrow> ss_state sub = Subscribing | None \<Rightarrow> False)
               (reorder (env_order env (a_tick s)) (hm_keys (a_subs s)))
      in fold (do_subscribe env) channels (step_tick s))"

end
