(* ===== verification/ServerSubs.thy ===== *)
theory ServerSubs
  imports Subscriptions
begin

text \<open>
  \<open>src/client/server_subs.rs\<close>: routing the subscriptions of a connect result, to the client-side
  subscription of the channel or to the registry of server-side ones.
\<close>

definition server_subscribed_context :: "string \<Rightarrow> bool \<Rightarrow> subscribe_result \<Rightarrow> server_subscribed_event" where
  "server_subscribed_context channel was_recovering sub_result =
     \<lparr>sse_channel = channel, sse_recoverable = sr_recoverable sub_result,
      sse_positioned = sr_positioned sub_result, sse_stream_position = position_of sub_result,
      sse_was_recovering = was_recovering, sse_recovered = sr_recovered sub_result,
      sse_has_recovered_publications = (sr_publications sub_result \<noteq> []), sse_data = sr_data sub_result\<rparr>"

text \<open>One recovered publication of a server-side subscription.\<close>

definition receive_server_publication :: "string \<Rightarrow> proto_publication \<Rightarrow> actor \<Rightarrow> actor" where
  "receive_server_publication channel pub_msg s =
     (let s = (case hm_get (a_server_subs s) channel of
            Some ss \<Rightarrow> if pp_offset pub_msg > 0
              then s\<lparr>a_server_subs := hm_insert channel (ss\<lparr>srv_offset := pp_offset pub_msg\<rparr>) (a_server_subs s)\<rparr>
              else s
          | None \<Rightarrow> s)
      in emit_client_event (CE_ServerPublication channel (publication_from pub_msg)) s)"

definition process_server_sub :: "env \<Rightarrow> connect_result \<Rightarrow> string \<Rightarrow> actor \<Rightarrow> actor" where
  "process_server_sub env result channel s =
     (case hm_get (cr_subs result) channel of
        None \<Rightarrow> s
      | Some sub_result \<Rightarrow>
          if hm_contains (a_subs s) channel then handle_subscribe_success env channel sub_result s
          else
            let was_recovering = hm_contains (a_server_subs s) channel;
                s = s\<lparr>a_server_subs := hm_insert channel
                       \<lparr>srv_recoverable = sr_recoverable sub_result, srv_offset = sr_offset sub_result,
                        srv_epoch = sr_epoch sub_result\<rparr> (a_server_subs s)\<rparr>;
                s = emit_client_event (CE_ServerSubscribed
                       (server_subscribed_context channel was_recovering sub_result)) s
            in fold (receive_server_publication channel) (sr_publications sub_result) s)"

definition remove_lost_server_sub :: "connect_result \<Rightarrow> string \<Rightarrow> actor \<Rightarrow> actor" where
  "remove_lost_server_sub result channel s =
     (if hm_contains (cr_subs result) channel then s
      else emit_client_event (CE_ServerUnsubscribed channel SERVER_SUB_REMOVED
               ''subscription not found after reconnect'')
             (s\<lparr>a_server_subs := hm_remove channel (a_server_subs s)\<rparr>))"

definition process_server_subs :: "env \<Rightarrow> connect_result \<Rightarrow> actor \<Rightarrow> actor" where
  "process_server_subs env result s =
     (let old_server_channels = reorder (env_order env (a_tick s)) (hm_keys (a_server_subs s));
          s = for_keys env (cr_subs result) (process_server_sub env result) (step_tick s)
      in fold (remove_lost_server_sub result) old_server_channels s)"

end
