(* ===== verification/Push.thy ===== *)
theory Push
  imports ServerSubs
begin

text \<open>\<open>src/client/push.rs\<close>: the asynchronous pushes of the server.\<close>

definition handle_publication :: "env \<Rightarrow> string \<Rightarrow> proto_publication \<Rightarrow> actor \<Rightarrow> actor" where
  "handle_publication env channel pub_msg s =
     (case hm_get (a_subs s) channel of
        Some sub \<Rightarrow>
          let (sub', s') = receive_publication env (protocol_of s) pub_msg (sub, s)
          in put_sub channel sub' s'
      | None \<Rightarrow>
          (case hm_get (a_server_subs s) channel of
             Some server_sub \<Rightarrow>
               emit_client_event (CE_ServerPublication channel (publication_from pub_msg))
                 (if pp_offset pub_msg > 0
                  then s\<lparr>a_server_subs := hm_insert channel (server_sub\<lparr>srv_offset := pp_offset pub_msg\<rparr>)
                         (a_server_subs s)\<rparr>
                  else s)
           | None \<Rightarrow> s))"

definition info_or_default :: "proto_client_info option \<Rightarrow> client_info" where
  "info_or_default i = (case i of Some i \<Rightarrow> client_info_from i | None \<Rightarrow> default_client_info)"

definition handle_join :: "string \<Rightarrow> proto_join \<Rightarrow> actor \<Rightarrow> actor" where
  "handle_join channel join s =
     (case hm_get (a_subs s) channel of
        Some sub \<Rightarrow> sub_emit sub (SE_Join (info_or_default (pj_info join))) s
      | None \<Rightarrow>
          if hm_contains (a_server_subs s) channel
          then emit_client_event (CE_ServerJoin channel (info_or_default (pj_info join))) s else s)"

definition handle_leave :: "string \<Rightarrow> proto_leave \<Rightarrow> actor \<Rightarrow> actor" where
  "handle_leave channel leave s =
     (case hm_get (a_subs s) channel of
        Some sub \<Rightarrow> sub_emit sub (SE_Leave (info_or_default (pl_info leave))) s
      | None \<Rightarrow>
          if hm_contains (a_server_subs s) channel
          then emit_client_event (CE_ServerLeave channel (info_or_default (pl_info leave))) s else s)"

definition handle_server_unsubscribe :: "string \<Rightarrow> u32 \<Rightarrow> string \<Rightarrow> actor \<Rightarrow> actor" where
  "handle_server_unsubscribe channel code reason s =
     (case hm_get (a_subs s) channel of
        Some sub \<Rightarrow>
          if should_resubscribe_on_unsubscribe code then
            schedule 0 (Resubscribe channel)
              (sub_emit sub (SE_Subscribing code reason)
                (put_sub channel (sub\<lparr>ss_state := Subscribing\<rparr>) s))
          else
            sub_emit sub (SE_Unsubscribed code reason)
              (put_sub channel (sub\<lparr>ss_state := Unsubscribed, ss_attempts := 0\<rparr>) s)
      | None \<Rightarrow>
          if hm_contains (a_server_subs s) channel then
            emit_client_event (CE_ServerUnsubscribed channel code reason)
              (s\<lparr>a_server_subs := hm_remove channel (a_server_subs s)\<rparr>)
          else s)"

definition handle_server_subscribe :: "string \<Rightarrow> proto_subscribe \<Rightarrow> actor \<Rightarrow> actor" where
  "handle_server_subscribe channel sub s =
     emit_client_event (CE_ServerSubscribed
         \<lparr>sse_channel = channel, sse_recoverable = ps_recoverable sub, sse_positioned = ps_positioned sub,
          sse_stream_position = (if ps_positioned sub \<or> ps_recoverable sub
             then Some \<lparr>sp_offset = ps_offset sub, sp_epoch = ps_epoch sub\<rparr> else None),
          sse_was_recovering = False, sse_recovered = False, sse_has_recovered_publications = False,
          sse_data = ps_data sub\<rparr>)
       (s\<lparr>a_server_subs := hm_insert channel \<lparr>srv_recoverable = ps_recoverable sub,
            srv_offset = ps_offset sub, srv_epoch = ps_epoch sub\<rparr> (a_server_subs s)\<rparr>)"

definition handle_disconnect_push :: "env \<Rightarrow> proto_disconnect \<Rightarrow> actor \<Rightarrow> actor" where
  "handle_disconnect_push env disconnect s =
     (if should_reconnect_on_disconnect (pd_code disconnect)
      then on_transport_close env (Some \<lparr>di_code = pd_code disconnect,
             di_reason = pd_reason disconnect, di_reconnect = True\<rparr>) s
      else move_to_disconnected env (pd_code disconnect) (pd_reason disconnect) s)"

text \<open>The first field that is set, in the order of the code's \<open>else if\<close> chain.\<close>

definition handle_push :: "env \<Rightarrow> proto_push \<Rightarrow> actor \<Rightarrow> actor" where
  "handle_push env push s =
     (let channel = ph_channel push in
      case ph_pub push of Some pub_msg \<Rightarrow> handle_publication env channel pub_msg s | None \<Rightarrow>
     (case ph_join push of Some join \<Rightarrow> handle_join channel join s | None \<Rightarrow>
     (case ph_leave push of Some leave \<Rightarrow> handle_leave channel leave s | None \<Rightarrow>
     (case ph_unsubscribe push of Some unsub \<Rightarrow>
        handle_server_unsubscribe channel (pu_code unsub) (pu_reason unsub) s | None \<Rightarrow>
     (case ph_subscribe push of Some sub \<Rightarrow> handle_server_subscribe channel sub s | None \<Rightarrow>
     (case ph_disconnect push of Some disconnect \<Rightarrow> handle_disconnect_push env disconnect s | None \<Rightarrow>
     (case ph_message push of Some message \<Rightarrow> emit_client_event (CE_Message (pm_data message)) s | None \<Rightarrow>
      s)))))))"

end
