(* ===== verification/Commands.thy ===== *)
theory Commands
  imports Push
begin

text \<open>\<open>src/client/commands.rs\<close>: the commands of the client handle and of the actor's own timers.\<close>

section \<open>Subscribe, unsubscribe, remove\<close>

definition handle_subscribe :: "env \<Rightarrow> string \<Rightarrow> nat \<Rightarrow> actor \<Rightarrow> actor" where
  "handle_subscribe env channel reply s =
     (case hm_get (a_subs s) channel of
        None \<Rightarrow> answer (Some reply) (RUnit (Inl SubscriptionUnsubscribed)) s
      | Some sub \<Rightarrow>
          if ss_state sub = Subscribed then answer (Some reply) (RUnit (Inr ())) s
          else if ss_state sub = Subscribing then
            put_sub channel (sub\<lparr>ss_waiters := ss_waiters sub @ [reply]\<rparr>) s
          else
            let sub = sub\<lparr>ss_state := Subscribing, ss_attempts := 0\<rparr>;
                s = sub_emit sub (SE_Subscribing SUBSCRIBE_CALLED ''subscribe called'') (put_sub channel sub s)
            in if a_state s \<noteq> Connected then
                 put_sub channel (sub\<lparr>ss_waiters := ss_waiters sub @ [reply]\<rparr>) s
               else
                 let (i, s) = next_cmd_id s in
                 case build_subscribe_command i channel s of
                   None \<Rightarrow> answer (Some reply) (RUnit (Inl SubscriptionUnsubscribed)) s
                 | Some cmd \<Rightarrow>
                     let s = insert_pending i (PSubscribe channel (Some reply)) s;
                         s = schedule_request_timeout i s
                     in case send_command env cmd s of
                          (Inr (), s) \<Rightarrow> s
                        | (Inl e, s) \<Rightarrow>
                            (case hm_get (a_pending s) i of
                               Some (PSubscribe ch w) \<Rightarrow> answer w (RUnit (Inl e)) (remove_pending i s)
                             | _ \<Rightarrow> remove_pending i s))"

definition unsubscribe_command :: "u32 \<Rightarrow> string \<Rightarrow> proto_command" where
  "unsubscribe_command i channel =
     default_command\<lparr>cmd_id := i, cmd_unsubscribe := Some \<lparr>uq_channel = channel\<rparr>\<rparr>"

definition unsubscribe_error_info :: disconnect_info where
  "unsubscribe_error_info = \<lparr>di_code = UNSUBSCRIBE_ERROR, di_reason = ''unsubscribe error'',
     di_reconnect = True\<rparr>"

definition handle_unsubscribe :: "env \<Rightarrow> string \<Rightarrow> nat \<Rightarrow> actor \<Rightarrow> actor" where
  "handle_unsubscribe env channel reply s =
     (case hm_get (a_subs s) channel of
        None \<Rightarrow> answer (Some reply) (RUnit (Inr ())) s
      | Some sub \<Rightarrow>
          let was_subscribed = (ss_state sub = Subscribed);
              s = sub_emit sub (SE_Unsubscribed UNSUBSCRIBE_CALLED ''unsubscribe called'')
                    (put_sub channel (sub\<lparr>ss_state := Unsubscribed, ss_attempts := 0\<rparr>) s)
          in if was_subscribed \<and> a_state s = Connected then
               let (i, s) = next_cmd_id s in
               case send_command env (unsubscribe_command i channel) s of
                 (Inl e, s) \<Rightarrow> on_transport_close env (Some unsubscribe_error_info)
                     (answer (Some reply) (RUnit (Inr ())) s)
               | (Inr (), s) \<Rightarrow> answer (Some reply) (RUnit (Inr ())) s
             else answer (Some reply) (RUnit (Inr ())) s)"

text \<open>
  The removed state is dropped at the end of the function, and with it the senders it still holds.
\<close>

definition handle_remove_subscription :: "env \<Rightarrow> string \<Rightarrow> nat \<Rightarrow> actor \<Rightarrow> actor" where
  "handle_remove_subscription env channel reply s =
     (case hm_get (a_subs s) channel of
        None \<Rightarrow> answer (Some reply) (RUnit (Inr ())) s
      | Some sub \<Rightarrow>
          let s = s\<lparr>a_subs := hm_remove channel (a_subs s)\<rparr>;
              was_subscribed = (ss_state sub = Subscribed);
              (waiters, s) =
                (if ss_state sub \<noteq> Unsubscribed
                 then ([], sub_emit sub (SE_Unsubscribed UNSUBSCRIBE_CALLED ''unsubscribe called'')
                        (answer_all (ss_waiters sub) (RUnit (Inl SubscriptionUnsubscribed)) s))
                 else (ss_waiters sub, s));
              s = (if was_subscribed \<and> a_state s = Connected
                   then let (i, s) = next_cmd_id s in snd (send_command env (unsubscribe_command i channel) s)
                   else s)
          in drop_all waiters (answer (Some reply) (RUnit (Inr ())) s))"

section \<open>Requests and timeouts\<close>

definition send_request_command :: "env \<Rightarrow> proto_command \<Rightarrow> pending_request \<Rightarrow> actor \<Rightarrow> actor" where
  "send_request_command env cmd req s =
     (if a_state s \<noteq> Connected then snd (fail_request req ClientDisconnected s)
      else
        let (i, s) = next_cmd_id s;
            cmd = cmd\<lparr>cmd_id := i\<rparr>;
            s = insert_pending i req s;
            s = schedule_request_timeout i s
        in case send_command env cmd s of
             (Inr (), s) \<Rightarrow> s
           | (Inl e, s) \<Rightarrow>
               (case hm_get (a_pending s) i of
                  Some req \<Rightarrow> snd (fail_request req e (remove_pending i s))
                | None \<Rightarrow> s))"

definition subscribe_timeout_info :: disconnect_info where
  "subscribe_timeout_info = \<lparr>di_code = SUBSCRIBE_TIMEOUT, di_reason = ''subscribe timeout'',
     di_reconnect = True\<rparr>"

definition handle_request_timeout :: "env \<Rightarrow> u32 \<Rightarrow> actor \<Rightarrow> actor" where
  "handle_request_timeout env i s =
     (case hm_get (a_pending s) i of
        None \<Rightarrow> s
      | Some req \<Rightarrow>
          (case fail_request req Timeout (remove_pending i s) of
             (None, s) \<Rightarrow> s
           | (Some channel, s) \<Rightarrow>
               (case hm_get (a_subs s) channel of
                  None \<Rightarrow> s
                | Some sub \<Rightarrow>
                    on_transport_close env (Some subscribe_timeout_info)
                      (answer_all (ss_waiters sub) (RUnit (Inl Timeout))
                        (put_sub channel (sub\<lparr>ss_waiters := []\<rparr>) s)))))"

section \<open>The command handler\<close>

definition handle_connect :: "nat \<Rightarrow> actor \<Rightarrow> actor" where
  "handle_connect reply s =
     (case a_state s of
        Disconnected \<Rightarrow> move_to_connecting CONNECT_CALLED ''connect called''
          (s\<lparr>a_connect_requested := True, a_connect_waiters := a_connect_waiters s @ [reply]\<rparr>)
      | Connecting \<Rightarrow> s\<lparr>a_connect_waiters := a_connect_waiters s @ [reply]\<rparr>
      | Connected \<Rightarrow> answer (Some reply) (RUnit (Inr ())) s
      | Closed \<Rightarrow> answer (Some reply) (RUnit (Inl ClientClosed)) s)"

definition handle_new_subscription :: "string \<Rightarrow> subscription_config \<Rightarrow> nat \<Rightarrow> actor \<Rightarrow> actor" where
  "handle_new_subscription channel config reply s =
     (if hm_contains (a_subs s) channel
      then answer (Some reply) (RUnit (Inl DuplicateSubscription)) s
      else answer (Some reply) (RUnit (Inr ())) (put_sub channel (new_sub_state config) s))"

definition list_subscriptions :: "env \<Rightarrow> nat \<Rightarrow> actor \<Rightarrow> actor" where
  "list_subscriptions env reply s =
     answer (Some reply)
       (RList (map (\<lambda>(ch, sub). (ch, ss_state sub))
          (reorder (env_order env (a_tick s)) (hm_entries (a_subs s)))))
       (step_tick s)"

fun handle_command :: "env \<Rightarrow> actor_command \<Rightarrow> actor \<Rightarrow> actor" where
  "handle_command env (Connect reply) s = handle_connect reply s"
| "handle_command env (Disconnect reply) s =
     answer (Some reply) (RUnit (Inr ()))
       (move_to_disconnected env DISCONNECT_CALLED ''disconnect called'' s)"
| "handle_command env (Close reply) s =
     answer (Some reply) (RUnit (Inr ())) (move_to_closed env s)"
| "handle_command env (NewSubscription channel config reply) s =
     handle_new_subscription channel config reply s"
| "handle_command env (GetSubscription channel reply) s =
     answer (Some reply) (RBool (hm_contains (a_subs s) channel)) s"
| "handle_command env (ListSubscriptions reply) s = list_subscriptions env reply s"
| "handle_command env (SetClientEventChannel tx) s = s\<lparr>a_client_event_tx := Some tx\<rparr>"
| "handle_command env (SetSubEventChannel channel tx) s =
     (case hm_get (a_subs s) channel of
        None \<Rightarrow> s | Some sub \<Rightarrow> put_sub channel (sub\<lparr>ss_event_tx := Some tx\<rparr>) s)"
| "handle_command env (RemoveSubscription channel reply) s =
     handle_remove_subscription env channel reply s"
| "handle_command env (Subscribe channel reply) s = handle_subscribe env channel reply s"
| "handle_command env (Unsubscribe channel reply) s = handle_unsubscribe env channel reply s"
| "handle_command env (SendRequest cmd reply) s =
     send_request_command env cmd (PRequest (Some reply)) s"
| "handle_command env (Send data) s =
     (if a_state s = Connected
      then snd (send_command env (default_command\<lparr>cmd_id := 0, cmd_send := Some \<lparr>snq_data = data\<rparr>\<rparr>) s)
      else s)"
| "handle_command env (Resubscribe channel) s =
     (if a_state s = Connected then do_subscribe env channel s else s)"
| "handle_command env (SetToken token) s = s\<lparr>a_config := (a_config s)\<lparr>cfg_token := token\<rparr>\<rparr>"
| "handle_command env (SetData data) s = s\<lparr>a_config := (a_config s)\<lparr>cfg_data := data\<rparr>\<rparr>"
| "handle_command env StartBatching s = s\<lparr>a_batch_active := True\<rparr>"
| "handle_command env StopBatching s = flush_batch env s"
| "handle_command env RefreshToken s = do_refresh_token env s"
| "handle_command env (RefreshSubToken channel) s = do_refresh_sub_token env channel s"
| "handle_command env (RequestTimeout i) s = handle_request_timeout env i s"

end
