(* ===== verification/Connection.thy ===== *)
theory Connection
  imports Commands
begin

text \<open>
  \<open>src/client/connect.rs\<close> and \<open>read_reply_with_timeout\<close> of \<open>src/client/transport_io.rs\<close>: dispatching
  replies, the handshake, one attempt of the connect cycle, and the events of the connected loop.
\<close>

section \<open>Dispatch\<close>

definition resolve_subscribe :: "env \<Rightarrow> string \<Rightarrow> sender \<Rightarrow> proto_reply \<Rightarrow> actor \<Rightarrow> actor" where
  "resolve_subscribe env channel w reply s =
     (case rp_error reply of
        Some err \<Rightarrow>
          if pe_code err = ALREADY_SUBSCRIBED then
            let result = (case rp_subscribe reply of Some r \<Rightarrow> r | None \<Rightarrow> default_subscribe_result)
            in answer w (RUnit (Inr ())) (handle_subscribe_success env channel result s)
          else
            let server_err = server_error_from err
            in answer w (RUnit (Inl (Server server_err))) (handle_subscribe_error env channel server_err s)
      | None \<Rightarrow>
          (case rp_subscribe reply of
             Some result \<Rightarrow> answer w (RUnit (Inr ())) (handle_subscribe_success env channel result s)
           | None \<Rightarrow> answer w (RUnit (Inl (Protocol ''missing subscribe result''))) s))"

definition resolve_refresh :: "sender \<Rightarrow> proto_reply \<Rightarrow> actor \<Rightarrow> actor" where
  "resolve_refresh w reply s =
     (case rp_error reply of
        Some err \<Rightarrow> answer w (RUnit (Inl (Server (server_error_from err)))) s
      | None \<Rightarrow>
          (case rp_refresh reply of
             Some result \<Rightarrow>
               answer w (RUnit (Inr ()))
                 (schedule_token_refresh
                   (s\<lparr>a_token_expires := rr_expires result, a_token_ttl := rr_ttl result\<rparr>))
           | None \<Rightarrow> answer w (RUnit (Inr ())) s))"

definition resolve_sub_refresh :: "string \<Rightarrow> sender \<Rightarrow> proto_reply \<Rightarrow> actor \<Rightarrow> actor" where
  "resolve_sub_refresh channel w reply s =
     (case rp_error reply of
        Some err \<Rightarrow> answer w (RUnit (Inl (Server (server_error_from err)))) s
      | None \<Rightarrow>
          (case rp_sub_refresh reply of
             Some result \<Rightarrow>
               answer w (RUnit (Inr ()))
                 (if hm_contains (a_subs s) channel \<and> srr_expires result
                  then schedule_sub_token_refresh channel (srr_ttl result) s else s)
           | None \<Rightarrow> answer w (RUnit (Inr ())) s))"

fun resolve_pending :: "env \<Rightarrow> pending_request \<Rightarrow> proto_reply \<Rightarrow> actor \<Rightarrow> actor" where
  "resolve_pending env (PSubscribe channel w) reply s = resolve_subscribe env channel w reply s"
| "resolve_pending env (PRequest w) reply s = answer w (RReply (Inr reply)) s"
| "resolve_pending env (PRefresh w) reply s = resolve_refresh w reply s"
| "resolve_pending env (PSubRefresh channel w) reply s = resolve_sub_refresh channel w reply s"

definition dispatch_reply :: "env \<Rightarrow> proto_reply \<Rightarrow> actor \<Rightarrow> actor" where
  "dispatch_reply env reply s =
     (if rp_id reply = 0 \<and> rp_push reply = None then
        (if a_send_pong s then snd (send_command env (default_command\<lparr>cmd_id := 0\<rparr>) s) else s)
      else if rp_id reply = 0 then
        (case rp_push reply of Some push \<Rightarrow> handle_push env push s | None \<Rightarrow> s)
      else (case hm_get (a_pending s) (rp_id reply) of
          Some req \<Rightarrow> resolve_pending env req reply (remove_pending (rp_id reply) s)
        | None \<Rightarrow> s))"

definition bad_protocol_info :: "centrifuge_error \<Rightarrow> disconnect_info" where
  "bad_protocol_info e = \<lparr>di_code = BAD_PROTOCOL, di_reason = ''decode error: '' @ error_to_string e,
     di_reconnect = False\<rparr>"

definition handle_transport_data :: "env \<Rightarrow> bytes \<Rightarrow> actor \<Rightarrow> actor" where
  "handle_transport_data env data s =
     (case decode_replies (env_codec env) (protocol_of s) data of
        Inl e \<Rightarrow> on_transport_close env (Some (bad_protocol_info e)) s
      | Inr replies \<Rightarrow> fold (dispatch_reply env) replies s)"

section \<open>Reading one reply\<close>

text \<open>
  The replies of one frame: those before the expected one are dispatched; the function returns at
  the expected one.
\<close>

fun scan_replies :: "env \<Rightarrow> u32 \<Rightarrow> proto_reply list \<Rightarrow> actor \<Rightarrow> proto_reply option \<times> actor" where
  "scan_replies env expected [] s = (None, s)"
| "scan_replies env expected (reply # replies) s =
     (if rp_id reply = expected then (Some reply, s)
      else scan_replies env expected replies (dispatch_reply env reply s))"

text \<open>
  The frames are those the stream yields before the deadline (\<open>None\<close> is the end of the stream); when
  they are used up, or when the actor has no stream any more, the deadline passes.
\<close>

fun read_reply_with_timeout ::
  "env \<Rightarrow> u32 \<Rightarrow> transport_frame option list \<Rightarrow> actor \<Rightarrow> proto_reply res \<times> actor" where
  "read_reply_with_timeout env expected [] s = (Inl Timeout, s)"
| "read_reply_with_timeout env expected (frame # frames) s =
     (if a_stream s = None then (Inl Timeout, s)
      else case frame of
          Some (FrameData data) \<Rightarrow>
            (case decode_replies (env_codec env) (protocol_of s) data of
               Inl e \<Rightarrow> (Inl e, s)
             | Inr replies \<Rightarrow>
                 (case scan_replies env expected replies s of
                    (Some reply, s) \<Rightarrow> (Inr reply, s)
                  | (None, s) \<Rightarrow> read_reply_with_timeout env expected frames s))
        | Some (FrameClose info) \<Rightarrow> (Inl ClientDisconnected, s)
        | None \<Rightarrow> (Inl ClientDisconnected, s))"

section \<open>The handshake\<close>

definition handshake_data :: "actor \<Rightarrow> actor" where
  "handshake_data s =
     (case cfg_get_data (a_config s) of
        None \<Rightarrow> s
      | Some get_data \<Rightarrow>
          (case get_data (a_tick s) of
             Inr data \<Rightarrow> (step_tick s)\<lparr>a_config := (a_config s)\<lparr>cfg_data := data\<rparr>\<rparr>
           | Inl e \<Rightarrow> emit_error (''get_data: '' @ error_to_string e) (step_tick s)))"

definition server_sub_request :: "server_sub_state \<Rightarrow> subscribe_request" where
  "server_sub_request sub = default_subscribe_request\<lparr>sq_recover := True, sq_offset := srv_offset sub,
     sq_epoch := srv_epoch sub\<rparr>"

definition batched_in_handshake :: "sub_state \<Rightarrow> bool" where
  "batched_in_handshake sub =
     (ss_state sub = Subscribing \<and> \<not> needs_token sub \<and> scfg_get_data (ss_config sub) = None)"

text \<open>
  Insertion into one map from two loops; the keys differ within a loop, so the order of each loop does
  not matter, and a client-side entry replaces a server-side one of the same channel.
\<close>

definition handshake_subs :: "actor \<Rightarrow> (string, subscribe_request) hashmap" where
  "handshake_subs s =
     (let m = fold (\<lambda>(ch, sub) m. if srv_recoverable sub then hm_insert ch (server_sub_request sub) m else m)
            (hm_entries (a_server_subs s)) hm_empty
      in fold (\<lambda>(ch, sub) m. if batched_in_handshake sub
                then hm_insert ch (subscribe_request_of ch sub) m else m)
            (hm_entries (a_subs s)) m)"

definition connect_command :: "u32 \<Rightarrow> actor \<Rightarrow> proto_command" where
  "connect_command i s = default_command\<lparr>cmd_id := i, cmd_connect := Some
     \<lparr>cq_token = cfg_token (a_config s), cq_data = cfg_data (a_config s), cq_subs = handshake_subs s,
      cq_name = cfg_name (a_config s), cq_version = cfg_version (a_config s),
      cq_headers = hm_empty, cq_flag = 0\<rparr>\<rparr>"

definition connect_reply_result :: "proto_reply \<Rightarrow> connect_result res" where
  "connect_reply_result reply =
     (case rp_error reply of
        Some err \<Rightarrow> Inl (Server (server_error_from err))
      | None \<Rightarrow> (case rp_connect reply of
            Some result \<Rightarrow> Inr result | None \<Rightarrow> Inl (Protocol ''missing connect result'')))"

definition do_handshake ::
  "env \<Rightarrow> transport_frame option list \<Rightarrow> actor \<Rightarrow> connect_result res \<times> actor" where
  "do_handshake env frames s =
     (let s = handshake_data s;
          (i, s) = next_cmd_id s
      in case send_command env (connect_command i s) s of
           (Inl e, s) \<Rightarrow> (Inl e, s)
         | (Inr (), s) \<Rightarrow>
             (case read_reply_with_timeout env i frames s of
                (Inl e, s) \<Rightarrow> (Inl e, s)
              | (Inr reply, s) \<Rightarrow> (connect_reply_result reply, s)))"

definition on_handshake_success :: "env \<Rightarrow> connect_result \<Rightarrow> actor \<Rightarrow> actor" where
  "on_handshake_success env result s =
     drain_connect_waiters (RUnit (Inr ()))
       (resubscribe_all env
         (schedule_token_refresh
           (process_server_subs env result (move_to_connected env result s))))"

definition on_handshake_failure :: "env \<Rightarrow> centrifuge_error \<Rightarrow> actor \<Rightarrow> actor" where
  "on_handshake_failure env err s =
     (let s = emit_error (''handshake: '' @ error_to_string err) (s\<lparr>a_sink := None, a_stream := None\<rparr>)
      in case err of
           Server server_err \<Rightarrow>
             if se_code server_err = TOKEN_EXPIRED then s\<lparr>a_refresh_required := True\<rparr>
             else if \<not> is_temporary (se_code server_err) (se_temporary server_err)
             then move_to_disconnected env (se_code server_err) (se_message server_err) s
             else s
         | _ \<Rightarrow> s)"

section \<open>The connect cycle\<close>

definition refresh_token_if_needed :: "env \<Rightarrow> actor \<Rightarrow> bool \<times> actor" where
  "refresh_token_if_needed env s =
     (if \<not> (a_refresh_required s \<or> (cfg_token (a_config s) = [] \<and> cfg_get_token (a_config s) \<noteq> None))
      then (True, s)
      else case do_token_refresh s of
          (Inr (), s) \<Rightarrow> (True, s\<lparr>a_refresh_required := False\<rparr>)
        | (Inl e, s) \<Rightarrow>
            if e = Unauthorized
            then (True, move_to_disconnected env DISCONNECT_UNAUTHORIZED ''unauthorized'' s)
            else (False, emit_error (''token refresh: '' @ error_to_string e) s))"

text \<open>The connection gets the number of the interaction that opened it.\<close>

definition open_transport :: "env \<Rightarrow> actor \<Rightarrow> bool \<times> actor" where
  "open_transport env s =
     (case env_connect env (a_tick s) of
        None \<Rightarrow> (True, (step_tick s)\<lparr>a_sink := Some (a_tick s), a_stream := Some (a_tick s)\<rparr>)
      | Some e \<Rightarrow> (False, emit_error (''transport: '' @ e) (step_tick s)))"

text \<open>
  Commands that arrive during the backoff, in order (\<open>None\<close>: all handles are gone); the sleep ends
  after the last one. The result is false when the state has changed.
\<close>

fun wait_backoff :: "env \<Rightarrow> actor_command option list \<Rightarrow> actor \<Rightarrow> bool \<times> actor" where
  "wait_backoff env [] s = (True, s)"
| "wait_backoff env (None # cmds) s = (False, move_to_closed env s)"
| "wait_backoff env (Some cmd # cmds) s =
     (let s = handle_command env cmd s
      in if a_state s \<noteq> Connecting then (False, s) else wait_backoff env cmds s)"

definition backoff_delay :: "env \<Rightarrow> actor \<Rightarrow> duration" where
  "backoff_delay env s =
     next_delay (env_rand env (a_tick s)) (unat (a_reconnect_attempts s) - 1)
       (cfg_min_reconnect_delay (a_config s)) (cfg_max_reconnect_delay (a_config s))"

text \<open>
  One turn of the loop of \<open>do_connect_cycle\<close>, entered in state \<open>Connecting\<close>: the commands of the backoff
  wait and the frames the new stream yields during the handshake are its inputs.
\<close>

definition attempt_after_backoff :: "env \<Rightarrow> transport_frame option list \<Rightarrow> actor \<Rightarrow> actor" where
  "attempt_after_backoff env frames s =
     (let s = s\<lparr>a_reconnect_attempts := a_reconnect_attempts s + 1\<rparr>;
          (refreshed, s) = refresh_token_if_needed env s
      in if \<not> refreshed then s
      else let (opened, s) = open_transport env s
      in if \<not> opened then s
      else case do_handshake env frames s of
          (Inr result, s) \<Rightarrow> on_handshake_success env result s
        | (Inl e, s) \<Rightarrow> on_handshake_failure env e s)"

definition connect_attempt ::
  "env \<Rightarrow> actor_command option list \<Rightarrow> transport_frame option list \<Rightarrow> actor \<Rightarrow> actor" where
  "connect_attempt env cmds frames s =
     (let (waited, s) = (if a_reconnect_attempts s > 0 then wait_backoff env cmds (step_tick s) else (True, s))
      in if waited then attempt_after_backoff env frames s else s)"

section \<open>The connected loop\<close>

datatype connected_event =
    InFrame "transport_frame option"
  | InCommand "actor_command option"
  | PingDeadline

definition no_ping_info :: disconnect_info where
  "no_ping_info = \<lparr>di_code = NO_PING, di_reason = ''no ping'', di_reconnect = True\<rparr>"

definition enter_connected_loop :: "env \<Rightarrow> actor \<Rightarrow> actor" where
  "enter_connected_loop env s = (step_tick s)\<lparr>a_last_data_received := env_now env (a_tick s)\<rparr>"

definition ping_timeout :: "actor \<Rightarrow> duration" where
  "ping_timeout s = a_ping_interval s + cfg_max_server_ping_delay (a_config s)"

fun handle_connected_event :: "env \<Rightarrow> connected_event \<Rightarrow> actor \<Rightarrow> actor" where
  "handle_connected_event env (InFrame (Some (FrameData data))) s =
     handle_transport_data env data
       ((step_tick s)\<lparr>a_last_data_received := env_now env (a_tick s)\<rparr>)"
| "handle_connected_event env (InFrame (Some (FrameClose info))) s = on_transport_close env info s"
| "handle_connected_event env (InFrame None) s = on_transport_close env None s"
| "handle_connected_event env (InCommand (Some cmd)) s = handle_command env cmd s"
| "handle_connected_event env (InCommand None) s = move_to_closed env s"
| "handle_connected_event env PingDeadline s = on_transport_close env (Some no_ping_info) s"

section \<open>Runs of the actor\<close>

text \<open>The reply channel of a command: the type of what is sent on it, and the caller that waits.\<close>

fun command_channel :: "actor_command \<Rightarrow> (reply_kind \<times> nat) option" where
  "command_channel (Connect r) = Some (UnitReply, r)"
| "command_channel (Disconnect r) = Some (UnitReply, r)"
| "command_channel (Close r) = Some (UnitReply, r)"
| "command_channel (NewSubscription ch config r) = Some (UnitReply, r)"
| "command_channel (GetSubscription ch r) = Some (BoolReply, r)"
| "command_channel (ListSubscriptions r) = Some (ListReply, r)"
| "command_channel (RemoveSubscription ch r) = Some (UnitReply, r)"
| "command_channel (Subscribe ch r) = Some (UnitReply, r)"
| "command_channel (Unsubscribe ch r) = Some (UnitReply, r)"
| "command_channel (SendRequest cmd r) = Some (MessageReply, r)"
| "command_channel _ = None"

definition channels_of :: "actor_command list \<Rightarrow> (reply_kind \<times> nat) list" where
  "channels_of cmds = List.map_filter command_channel cmds"

definition callers_of :: "actor_command list \<Rightarrow> nat list" where
  "callers_of cmds = map snd (channels_of cmds)"

lemma channels_of_simps [simp]:
  "channels_of [] = []"
  "channels_of (cmd # cmds) =
     (case command_channel cmd of Some c \<Rightarrow> c # channels_of cmds | None \<Rightarrow> channels_of cmds)"
  "channels_of (cmds @ cmds') = channels_of cmds @ channels_of cmds'"
  by (simp_all add: channels_of_def List.map_filter_def split: option.split)

lemma callers_of_simps [simp]:
  "callers_of [] = []"
  "callers_of (cmd # cmds) =
     (case command_channel cmd of Some c \<Rightarrow> snd c # callers_of cmds | None \<Rightarrow> callers_of cmds)"
  "callers_of (cmds @ cmds') = callers_of cmds @ callers_of cmds'"
  by (simp_all add: callers_of_def split: option.split)

text \<open>The commands that \<open>wait_backoff\<close> handles before it ends.\<close>

fun backoff_commands :: "env \<Rightarrow> actor_command option list \<Rightarrow> actor \<Rightarrow> actor_command list" where
  "backoff_commands env [] s = []"
| "backoff_commands env (None # cmds) s = []"
| "backoff_commands env (Some cmd # cmds) s =
     cmd # (if a_state (handle_command env cmd s) \<noteq> Connecting then []
       else backoff_commands env cmds (handle_command env cmd s))"

definition attempt_commands :: "env \<Rightarrow> actor_command option list \<Rightarrow> actor \<Rightarrow> actor_command list" where
  "attempt_commands env cmds s =
     (if a_reconnect_attempts s > 0 then backoff_commands env cmds (step_tick s) else [])"

text \<open>
  One step of \<open>run\<close>: a command in state \<open>Disconnected\<close>, one attempt in state \<open>Connecting\<close> followed by
  the entry of the connected loop when it succeeds, one event in state \<open>Connected\<close>. A frame needs a
  stream, the ping deadline has passed on the clock when it fires. \<open>Closed\<close> ends the run. The list
  holds the commands the step has received.
\<close>

inductive actor_step :: "env \<Rightarrow> actor_command list \<Rightarrow> actor \<Rightarrow> actor \<Rightarrow> bool" for env where
  command: "a_state s = Disconnected \<Longrightarrow> actor_step env [cmd] s (handle_command env cmd s)"
| attempt: "a_state s = Connecting \<Longrightarrow> s' = connect_attempt env cmds frames s \<Longrightarrow>
    actor_step env (attempt_commands env cmds s) s
      (if a_state s' = Connected then enter_connected_loop env s' else s')"
| frame: "a_state s = Connected \<Longrightarrow> a_stream s \<noteq> None \<Longrightarrow>
    actor_step env [] s (handle_connected_event env (InFrame f) s)"
| connected_command: "a_state s = Connected \<Longrightarrow>
    actor_step env (case c of Some cmd \<Rightarrow> [cmd] | None \<Rightarrow> []) s
      (handle_connected_event env (InCommand c) s)"
| deadline: "a_state s = Connected \<Longrightarrow>
    env_now env (a_tick s) \<ge> a_last_data_received s + ping_timeout s \<Longrightarrow>
    actor_step env [] s (handle_connected_event env PingDeadline (step_tick s))"

text \<open>The states of a run, with all the commands received so far.\<close>

inductive reachable :: "env \<Rightarrow> client_config \<Rightarrow> actor_command list \<Rightarrow> actor \<Rightarrow> bool" for env config where
  start: "reachable env config [] (new_actor config)"
| step: "reachable env config cmds s \<Longrightarrow> actor_step env cmds' s t \<Longrightarrow> reachable env config (cmds @ cmds') t"

inductive_cases actor_stepE: "actor_step env cmds s t"

end
