(* ===== verification/Frames.thy ===== *)
theory Frames
  imports Connection
begin

text \<open>
  What the small operations of the actor leave alone, as simplification rules: everything that only
  writes to the log, answers a caller or sends a command keeps the rest of the state.
\<close>

section \<open>Operations that only log\<close>

lemma perform_frame [simp]:
  "a_config (perform e s) = a_config s"
  "a_state (perform e s) = a_state s"
  "a_client_id (perform e s) = a_client_id s"
  "a_sink (perform e s) = a_sink s"
  "a_stream (perform e s) = a_stream s"
  "a_next_id (perform e s) = a_next_id s"
  "a_pending (perform e s) = a_pending s"
  "a_subs (perform e s) = a_subs s"
  "a_server_subs (perform e s) = a_server_subs s"
  "a_ping_interval (perform e s) = a_ping_interval s"
  "a_send_pong (perform e s) = a_send_pong s"
  "a_last_data_received (perform e s) = a_last_data_received s"
  "a_token_expires (perform e s) = a_token_expires s"
  "a_token_ttl (perform e s) = a_token_ttl s"
  "a_refresh_required (perform e s) = a_refresh_required s"
  "a_batch_active (perform e s) = a_batch_active s"
  "a_batch_queue (perform e s) = a_batch_queue s"
  "a_reconnect_attempts (perform e s) = a_reconnect_attempts s"
  "a_connect_requested (perform e s) = a_connect_requested s"
  "a_connect_waiters (perform e s) = a_connect_waiters s"
  "a_client_event_tx (perform e s) = a_client_event_tx s"
  "a_shared_state (perform e s) = a_shared_state s"
  "a_ids (perform e s) = a_ids s"
  by (simp_all add: perform_def)

lemma perform_log [simp]: "a_log (perform e s) = a_log s @ [e]" "a_tick (perform e s) = a_tick s"
  by (simp_all add: perform_def)

lemma step_tick_frame [simp]:
  "a_config (step_tick s) = a_config s"
  "a_state (step_tick s) = a_state s"
  "a_client_id (step_tick s) = a_client_id s"
  "a_sink (step_tick s) = a_sink s"
  "a_stream (step_tick s) = a_stream s"
  "a_next_id (step_tick s) = a_next_id s"
  "a_pending (step_tick s) = a_pending s"
  "a_subs (step_tick s) = a_subs s"
  "a_server_subs (step_tick s) = a_server_subs s"
  "a_ping_interval (step_tick s) = a_ping_interval s"
  "a_send_pong (step_tick s) = a_send_pong s"
  "a_last_data_received (step_tick s) = a_last_data_received s"
  "a_token_expires (step_tick s) = a_token_expires s"
  "a_token_ttl (step_tick s) = a_token_ttl s"
  "a_refresh_required (step_tick s) = a_refresh_required s"
  "a_batch_active (step_tick s) = a_batch_active s"
  "a_batch_queue (step_tick s) = a_batch_queue s"
  "a_reconnect_attempts (step_tick s) = a_reconnect_attempts s"
  "a_connect_requested (step_tick s) = a_connect_requested s"
  "a_connect_waiters (step_tick s) = a_connect_waiters s"
  "a_client_event_tx (step_tick s) = a_client_event_tx s"
  "a_shared_state (step_tick s) = a_shared_state s"
  "a_log (step_tick s) = a_log s"
  "a_ids (step_tick s) = a_ids s"
  by (simp_all add: step_tick_def)

lemma emit_client_event_frame [simp]:
  "a_config (emit_client_event ev s) = a_config s"
  "a_state (emit_client_event ev s) = a_state s"
  "a_client_id (emit_client_event ev s) = a_client_id s"
  "a_sink (emit_client_event ev s) = a_sink s"
  "a_stream (emit_client_event ev s) = a_stream s"
  "a_next_id (emit_client_event ev s) = a_next_id s"
  "a_pending (emit_client_event ev s) = a_pending s"
  "a_subs (emit_client_event ev s) = a_subs s"
  "a_server_subs (emit_client_event ev s) = a_server_subs s"
  "a_ping_interval (emit_client_event ev s) = a_ping_interval s"
  "a_send_pong (emit_client_event ev s) = a_send_pong s"
  "a_last_data_received (emit_client_event ev s) = a_last_data_received s"
  "a_token_expires (emit_client_event ev s) = a_token_expires s"
  "a_token_ttl (emit_client_event ev s) = a_token_ttl s"
  "a_refresh_required (emit_client_event ev s) = a_refresh_required s"
  "a_batch_active (emit_client_event ev s) = a_batch_active s"
  "a_batch_queue (emit_client_event ev s) = a_batch_queue s"
  "a_reconnect_attempts (emit_client_event ev s) = a_reconnect_attempts s"
  "a_connect_requested (emit_client_event ev s) = a_connect_requested s"
  "a_connect_waiters (emit_client_event ev s) = a_connect_waiters s"
  "a_client_event_tx (emit_client_event ev s) = a_client_event_tx s"
  "a_shared_state (emit_client_event ev s) = a_shared_state s"
  "a_tick (emit_client_event ev s) = a_tick s"
  "a_ids (emit_client_event ev s) = a_ids s"
  by (simp_all add: emit_client_event_def split: option.split)

lemma emit_error_frame [simp]:
  "a_config (emit_error msg s) = a_config s"
  "a_state (emit_error msg s) = a_state s"
  "a_client_id (emit_error msg s) = a_client_id s"
  "a_sink (emit_error msg s) = a_sink s"
  "a_stream (emit_error msg s) = a_stream s"
  "a_next_id (emit_error msg s) = a_next_id s"
  "a_pending (emit_error msg s) = a_pending s"
  "a_subs (emit_error msg s) = a_subs s"
  "a_server_subs (emit_error msg s) = a_server_subs s"
  "a_ping_interval (emit_error msg s) = a_ping_interval s"
  "a_send_pong (emit_error msg s) = a_send_pong s"
  "a_last_data_received (emit_error msg s) = a_last_data_received s"
  "a_token_expires (emit_error msg s) = a_token_expires s"
  "a_token_ttl (emit_error msg s) = a_token_ttl s"
  "a_refresh_required (emit_error msg s) = a_refresh_required s"
  "a_batch_active (emit_error msg s) = a_batch_active s"
  "a_batch_queue (emit_error msg s) = a_batch_queue s"
  "a_reconnect_attempts (emit_error msg s) = a_reconnect_attempts s"
  "a_connect_requested (emit_error msg s) = a_connect_requested s"
  "a_connect_waiters (emit_error msg s) = a_connect_waiters s"
  "a_client_event_tx (emit_error msg s) = a_client_event_tx s"
  "a_shared_state (emit_error msg s) = a_shared_state s"
  "a_tick (emit_error msg s) = a_tick s"
  "a_ids (emit_error msg s) = a_ids s"
  by (simp_all add: emit_error_def)

lemma sub_emit_frame [simp]:
  "a_config (sub_emit sub ev s) = a_config s"
  "a_state (sub_emit sub ev s) = a_state s"
  "a_client_id (sub_emit sub ev s) = a_client_id s"
  "a_sink (sub_emit sub ev s) = a_sink s"
  "a_stream (sub_emit sub ev s) = a_stream s"
  "a_next_id (sub_emit sub ev s) = a_next_id s"
  "a_pending (sub_emit sub ev s) = a_pending s"
  "a_subs (sub_emit sub ev s) = a_subs s"
  "a_server_subs (sub_emit sub ev s) = a_server_subs s"
  "a_ping_interval (sub_emit sub ev s) = a_ping_interval s"
  "a_send_pong (sub_emit sub ev s) = a_send_pong s"
  "a_last_data_received (sub_emit sub ev s) = a_last_data_received s"
  "a_token_expires (sub_emit sub ev s) = a_token_expires s"
  "a_token_ttl (sub_emit sub ev s) = a_token_ttl s"
  "a_refresh_required (sub_emit sub ev s) = a_refresh_required s"
  "a_batch_active (sub_emit sub ev s) = a_batch_active s"
  "a_batch_queue (sub_emit sub ev s) = a_batch_queue s"
  "a_reconnect_attempts (sub_emit sub ev s) = a_reconnect_attempts s"
  "a_connect_requested (sub_emit sub ev s) = a_connect_requested s"
  "a_connect_waiters (sub_emit sub ev s) = a_connect_waiters s"
  "a_client_event_tx (sub_emit sub ev s) = a_client_event_tx s"
  "a_shared_state (sub_emit sub ev s) = a_shared_state s"
  "a_tick (sub_emit sub ev s) = a_tick s"
  "a_ids (sub_emit sub ev s) = a_ids s"
  by (simp_all add: sub_emit_def split: option.split)

lemma schedule_frame [simp]:
  "a_config (schedule d c s) = a_config s"
  "a_state (schedule d c s) = a_state s"
  "a_client_id (schedule d c s) = a_client_id s"
  "a_sink (schedule d c s) = a_sink s"
  "a_stream (schedule d c s) = a_stream s"
  "a_next_id (schedule d c s) = a_next_id s"
  "a_pending (schedule d c s) = a_pending s"
  "a_subs (schedule d c s) = a_subs s"
  "a_server_subs (schedule d c s) = a_server_subs s"
  "a_ping_interval (schedule d c s) = a_ping_interval s"
  "a_send_pong (schedule d c s) = a_send_pong s"
  "a_last_data_received (schedule d c s) = a_last_data_received s"
  "a_token_expires (schedule d c s) = a_token_expires s"
  "a_token_ttl (schedule d c s) = a_token_ttl s"
  "a_refresh_required (schedule d c s) = a_refresh_required s"
  "a_batch_active (schedule d c s) = a_batch_active s"
  "a_batch_queue (schedule d c s) = a_batch_queue s"
  "a_reconnect_attempts (schedule d c s) = a_reconnect_attempts s"
  "a_connect_requested (schedule d c s) = a_connect_requested s"
  "a_connect_waiters (schedule d c s) = a_connect_waiters s"
  "a_client_event_tx (schedule d c s) = a_client_event_tx s"
  "a_shared_state (schedule d c s) = a_shared_state s"
  "a_tick (schedule d c s) = a_tick s"
  "a_ids (schedule d c s) = a_ids s"
  by (simp_all add: schedule_def)

lemma answer_frame [simp]:
  "a_config (answer w v s) = a_config s"
  "a_state (answer w v s) = a_state s"
  "a_client_id (answer w v s) = a_client_id s"
  "a_sink (answer w v s) = a_sink s"
  "a_stream (answer w v s) = a_stream s"
  "a_next_id (answer w v s) = a_next_id s"
  "a_pending (answer w v s) = a_pending s"
  "a_subs (answer w v s) = a_subs s"
  "a_server_subs (answer w v s) = a_server_subs s"
  "a_ping_interval (answer w v s) = a_ping_interval s"
  "a_send_pong (answer w v s) = a_send_pong s"
  "a_last_data_received (answer w v s) = a_last_data_received s"
  "a_token_expires (answer w v s) = a_token_expires s"
  "a_token_ttl (answer w v s) = a_token_ttl s"
  "a_refresh_required (answer w v s) = a_refresh_required s"
  "a_batch_active (answer w v s) = a_batch_active s"
  "a_batch_queue (answer w v s) = a_batch_queue s"
  "a_reconnect_attempts (answer w v s) = a_reconnect_attempts s"
  "a_connect_requested (answer w v s) = a_connect_requested s"
  "a_connect_waiters (answer w v s) = a_connect_waiters s"
  "a_client_event_tx (answer w v s) = a_client_event_tx s"
  "a_shared_state (answer w v s) = a_shared_state s"
  "a_tick (answer w v s) = a_tick s"
  "a_ids (answer w v s) = a_ids s"
  by (simp_all add: answer_def split: option.split)

lemma drop_sender_frame [simp]:
  "a_config (drop_sender w s) = a_config s"
  "a_state (drop_sender w s) = a_state s"
  "a_client_id (drop_sender w s) = a_client_id s"
  "a_sink (drop_sender w s) = a_sink s"
  "a_stream (drop_sender w s) = a_stream s"
  "a_next_id (drop_sender w s) = a_next_id s"
  "a_pending (drop_sender w s) = a_pending s"
  "a_subs (drop_sender w s) = a_subs s"
  "a_server_subs (drop_sender w s) = a_server_subs s"
  "a_ping_interval (drop_sender w s) = a_ping_interval s"
  "a_send_pong (drop_sender w s) = a_send_pong s"
  "a_last_data_received (drop_sender w s) = a_last_data_received s"
  "a_token_expires (drop_sender w s) = a_token_expires s"
  "a_token_ttl (drop_sender w s) = a_token_ttl s"
  "a_refresh_required (drop_sender w s) = a_refresh_required s"
  "a_batch_active (drop_sender w s) = a_batch_active s"
  "a_batch_queue (drop_sender w s) = a_batch_queue s"
  "a_reconnect_attempts (drop_sender w s) = a_reconnect_attempts s"
  "a_connect_requested (drop_sender w s) = a_connect_requested s"
  "a_connect_waiters (drop_sender w s) = a_connect_waiters s"
  "a_client_event_tx (drop_sender w s) = a_client_event_tx s"
  "a_shared_state (drop_sender w s) = a_shared_state s"
  "a_tick (drop_sender w s) = a_tick s"
  "a_ids (drop_sender w s) = a_ids s"
  by (simp_all add: drop_sender_def split: option.split)

text \<open>A loop over senders keeps whatever each of its steps keeps.\<close>

lemma fold_keeps: "(\<And>x s. p (f x s) = p s) \<Longrightarrow> p (fold f xs s) = p s"
  by (induction xs arbitrary: s) simp_all

lemma answer_all_frame [simp]:
  "a_config (answer_all ws v s) = a_config s"
  "a_state (answer_all ws v s) = a_state s"
  "a_client_id (answer_all ws v s) = a_client_id s"
  "a_sink (answer_all ws v s) = a_sink s"
  "a_stream (answer_all ws v s) = a_stream s"
  "a_next_id (answer_all ws v s) = a_next_id s"
  "a_pending (answer_all ws v s) = a_pending s"
  "a_subs (answer_all ws v s) = a_subs s"
  "a_server_subs (answer_all ws v s) = a_server_subs s"
  "a_ping_interval (answer_all ws v s) = a_ping_interval s"
  "a_send_pong (answer_all ws v s) = a_send_pong s"
  "a_last_data_received (answer_all ws v s) = a_last_data_received s"
  "a_token_expires (answer_all ws v s) = a_token_expires s"
  "a_token_ttl (answer_all ws v s) = a_token_ttl s"
  "a_refresh_required (answer_all ws v s) = a_refresh_required s"
  "a_batch_active (answer_all ws v s) = a_batch_active s"
  "a_batch_queue (answer_all ws v s) = a_batch_queue s"
  "a_reconnect_attempts (answer_all ws v s) = a_reconnect_attempts s"
  "a_connect_requested (answer_all ws v s) = a_connect_requested s"
  "a_connect_waiters (answer_all ws v s) = a_connect_waiters s"
  "a_client_event_tx (answer_all ws v s) = a_client_event_tx s"
  "a_shared_state (answer_all ws v s) = a_shared_state s"
  "a_tick (answer_all ws v s) = a_tick s"
  "a_ids (answer_all ws v s) = a_ids s"
  by (simp_all add: answer_all_def fold_keeps)

lemma drop_all_frame [simp]:
  "a_config (drop_all ws s) = a_config s"
  "a_state (drop_all ws s) = a_state s"
  "a_client_id (drop_all ws s) = a_client_id s"
  "a_sink (drop_all ws s) = a_sink s"
  "a_stream (drop_all ws s) = a_stream s"
  "a_next_id (drop_all ws s) = a_next_id s"
  "a_pending (drop_all ws s) = a_pending s"
  "a_subs (drop_all ws s) = a_subs s"
  "a_server_subs (drop_all ws s) = a_server_subs s"
  "a_ping_interval (drop_all ws s) = a_ping_interval s"
  "a_send_pong (drop_all ws s) = a_send_pong s"
  "a_last_data_received (drop_all ws s) = a_last_data_received s"
  "a_token_expires (drop_all ws s) = a_token_expires s"
  "a_token_ttl (drop_all ws s) = a_token_ttl s"
  "a_refresh_required (drop_all ws s) = a_refresh_required s"
  "a_batch_active (drop_all ws s) = a_batch_active s"
  "a_batch_queue (drop_all ws s) = a_batch_queue s"
  "a_reconnect_attempts (drop_all ws s) = a_reconnect_attempts s"
  "a_connect_requested (drop_all ws s) = a_connect_requested s"
  "a_connect_waiters (drop_all ws s) = a_connect_waiters s"
  "a_client_event_tx (drop_all ws s) = a_client_event_tx s"
  "a_shared_state (drop_all ws s) = a_shared_state s"
  "a_tick (drop_all ws s) = a_tick s"
  "a_ids (drop_all ws s) = a_ids s"
  by (simp_all add: drop_all_def fold_keeps)

section \<open>Updates of one map\<close>

lemma put_sub_frame [simp]:
  "a_config (put_sub ch sub s) = a_config s"
  "a_state (put_sub ch sub s) = a_state s"
  "a_client_id (put_sub ch sub s) = a_client_id s"
  "a_sink (put_sub ch sub s) = a_sink s"
  "a_stream (put_sub ch sub s) = a_stream s"
  "a_next_id (put_sub ch sub s) = a_next_id s"
  "a_pending (put_sub ch sub s) = a_pending s"
  "a_server_subs (put_sub ch sub s) = a_server_subs s"
  "a_ping_interval (put_sub ch sub s) = a_ping_interval s"
  "a_send_pong (put_sub ch sub s) = a_send_pong s"
  "a_last_data_received (put_sub ch sub s) = a_last_data_received s"
  "a_token_expires (put_sub ch sub s) = a_token_expires s"
  "a_token_ttl (put_sub ch sub s) = a_token_ttl s"
  "a_refresh_required (put_sub ch sub s) = a_refresh_required s"
  "a_batch_active (put_sub ch sub s) = a_batch_active s"
  "a_batch_queue (put_sub ch sub s) = a_batch_queue s"
  "a_reconnect_attempts (put_sub ch sub s) = a_reconnect_attempts s"
  "a_connect_requested (put_sub ch sub s) = a_connect_requested s"
  "a_connect_waiters (put_sub ch sub s) = a_connect_waiters s"
  "a_client_event_tx (put_sub ch sub s) = a_client_event_tx s"
  "a_shared_state (put_sub ch sub s) = a_shared_state s"
  "a_tick (put_sub ch sub s) = a_tick s"
  "a_log (put_sub ch sub s) = a_log s"
  "a_ids (put_sub ch sub s) = a_ids s"
  by (simp_all add: put_sub_def)

lemma put_sub_subs [simp]: "a_subs (put_sub ch sub s) = hm_insert ch sub (a_subs s)"
  by (simp add: put_sub_def)

lemma insert_pending_frame [simp]:
  "a_config (insert_pending i req s) = a_config s"
  "a_state (insert_pending i req s) = a_state s"
  "a_client_id (insert_pending i req s) = a_client_id s"
  "a_sink (insert_pending i req s) = a_sink s"
  "a_stream (insert_pending i req s) = a_stream s"
  "a_next_id (insert_pending i req s) = a_next_id s"
  "a_subs (insert_pending i req s) = a_subs s"
  "a_server_subs (insert_pending i req s) = a_server_subs s"
  "a_ping_interval (insert_pending i req s) = a_ping_interval s"
  "a_send_pong (insert_pending i req s) = a_send_pong s"
  "a_last_data_received (insert_pending i req s) = a_last_data_received s"
  "a_token_expires (insert_pending i req s) = a_token_expires s"
  "a_token_ttl (insert_pending i req s) = a_token_ttl s"
  "a_refresh_required (insert_pending i req s) = a_refresh_required s"
  "a_batch_active (insert_pending i req s) = a_batch_active s"
  "a_batch_queue (insert_pending i req s) = a_batch_queue s"
  "a_reconnect_attempts (insert_pending i req s) = a_reconnect_attempts s"
  "a_connect_requested (insert_pending i req s) = a_connect_requested s"
  "a_connect_waiters (insert_pending i req s) = a_connect_waiters s"
  "a_client_event_tx (insert_pending i req s) = a_client_event_tx s"
  "a_shared_state (insert_pending i req s) = a_shared_state s"
  "a_tick (insert_pending i req s) = a_tick s"
  "a_ids (insert_pending i req s) = a_ids s"
  by (simp_all add: insert_pending_def Let_def split: option.split)

lemma insert_pending_pending [simp]: "a_pending (insert_pending i req s) = hm_insert i req (a_pending s)"
  by (simp add: insert_pending_def Let_def split: option.split)

lemma remove_pending_frame [simp]:
  "a_config (remove_pending i s) = a_config s"
  "a_state (remove_pending i s) = a_state s"
  "a_client_id (remove_pending i s) = a_client_id s"
  "a_sink (remove_pending i s) = a_sink s"
  "a_stream (remove_pending i s) = a_stream s"
  "a_next_id (remove_pending i s) = a_next_id s"
  "a_subs (remove_pending i s) = a_subs s"
  "a_server_subs (remove_pending i s) = a_server_subs s"
  "a_ping_interval (remove_pending i s) = a_ping_interval s"
  "a_send_pong (remove_pending i s) = a_send_pong s"
  "a_last_data_received (remove_pending i s) = a_last_data_received s"
  "a_token_expires (remove_pending i s) = a_token_expires s"
  "a_token_ttl (remove_pending i s) = a_token_ttl s"
  "a_refresh_required (remove_pending i s) = a_refresh_required s"
  "a_batch_active (remove_pending i s) = a_batch_active s"
  "a_batch_queue (remove_pending i s) = a_batch_queue s"
  "a_reconnect_attempts (remove_pending i s) = a_reconnect_attempts s"
  "a_connect_requested (remove_pending i s) = a_connect_requested s"
  "a_connect_waiters (remove_pending i s) = a_connect_waiters s"
  "a_client_event_tx (remove_pending i s) = a_client_event_tx s"
  "a_shared_state (remove_pending i s) = a_shared_state s"
  "a_tick (remove_pending i s) = a_tick s"
  "a_log (remove_pending i s) = a_log s"
  "a_ids (remove_pending i s) = a_ids s"
  by (simp_all add: remove_pending_def)

lemma remove_pending_pending [simp]: "a_pending (remove_pending i s) = hm_remove i (a_pending s)"
  by (simp add: remove_pending_def)

lemma fail_request_frame [simp]:
  "a_config (snd (fail_request req e s)) = a_config s"
  "a_state (snd (fail_request req e s)) = a_state s"
  "a_client_id (snd (fail_request req e s)) = a_client_id s"
  "a_sink (snd (fail_request req e s)) = a_sink s"
  "a_stream (snd (fail_request req e s)) = a_stream s"
  "a_next_id (snd (fail_request req e s)) = a_next_id s"
  "a_pending (snd (fail_request req e s)) = a_pending s"
  "a_subs (snd (fail_request req e s)) = a_subs s"
  "a_server_subs (snd (fail_request req e s)) = a_server_subs s"
  "a_ping_interval (snd (fail_request req e s)) = a_ping_interval s"
  "a_send_pong (snd (fail_request req e s)) = a_send_pong s"
  "a_last_data_received (snd (fail_request req e s)) = a_last_data_received s"
  "a_token_expires (snd (fail_request req e s)) = a_token_expires s"
  "a_token_ttl (snd (fail_request req e s)) = a_token_ttl s"
  "a_refresh_required (snd (fail_request req e s)) = a_refresh_required s"
  "a_batch_active (snd (fail_request req e s)) = a_batch_active s"
  "a_batch_queue (snd (fail_request req e s)) = a_batch_queue s"
  "a_reconnect_attempts (snd (fail_request req e s)) = a_reconnect_attempts s"
  "a_connect_requested (snd (fail_request req e s)) = a_connect_requested s"
  "a_connect_waiters (snd (fail_request req e s)) = a_connect_waiters s"
  "a_client_event_tx (snd (fail_request req e s)) = a_client_event_tx s"
  "a_shared_state (snd (fail_request req e s)) = a_shared_state s"
  "a_tick (snd (fail_request req e s)) = a_tick s"
  "a_ids (snd (fail_request req e s)) = a_ids s"
  by (cases req; simp)+

section \<open>Identifiers and sending\<close>

lemma next_cmd_id_frame [simp]:
  "a_config (snd (next_cmd_id s)) = a_config s"
  "a_state (snd (next_cmd_id s)) = a_state s"
  "a_client_id (snd (next_cmd_id s)) = a_client_id s"
  "a_sink (snd (next_cmd_id s)) = a_sink s"
  "a_stream (snd (next_cmd_id s)) = a_stream s"
  "a_pending (snd (next_cmd_id s)) = a_pending s"
  "a_subs (snd (next_cmd_id s)) = a_subs s"
  "a_server_subs (snd (next_cmd_id s)) = a_server_subs s"
  "a_ping_interval (snd (next_cmd_id s)) = a_ping_interval s"
  "a_send_pong (snd (next_cmd_id s)) = a_send_pong s"
  "a_last_data_received (snd (next_cmd_id s)) = a_last_data_received s"
  "a_token_expires (snd (next_cmd_id s)) = a_token_expires s"
  "a_token_ttl (snd (next_cmd_id s)) = a_token_ttl s"
  "a_refresh_required (snd (next_cmd_id s)) = a_refresh_required s"
  "a_batch_active (snd (next_cmd_id s)) = a_batch_active s"
  "a_batch_queue (snd (next_cmd_id s)) = a_batch_queue s"
  "a_reconnect_attempts (snd (next_cmd_id s)) = a_reconnect_attempts s"
  "a_connect_requested (snd (next_cmd_id s)) = a_connect_requested s"
  "a_connect_waiters (snd (next_cmd_id s)) = a_connect_waiters s"
  "a_client_event_tx (snd (next_cmd_id s)) = a_client_event_tx s"
  "a_shared_state (snd (next_cmd_id s)) = a_shared_state s"
  "a_tick (snd (next_cmd_id s)) = a_tick s"
  "a_log (snd (next_cmd_id s)) = a_log s"
  by (simp_all add: next_cmd_id_def)

lemma next_cmd_id_id [simp]: "fst (next_cmd_id s) = a_next_id s" "a_next_id (snd (next_cmd_id s)) = a_next_id s + 1"
  "a_ids (snd (next_cmd_id s)) = a_ids s + 1"
  by (simp_all add: next_cmd_id_def)

lemma sink_send_frame [simp]:
  "a_config (snd (sink_send env conn data s)) = a_config s"
  "a_state (snd (sink_send env conn data s)) = a_state s"
  "a_client_id (snd (sink_send env conn data s)) = a_client_id s"
  "a_sink (snd (sink_send env conn data s)) = a_sink s"
  "a_stream (snd (sink_send env conn data s)) = a_stream s"
  "a_next_id (snd (sink_send env conn data s)) = a_next_id s"
  "a_pending (snd (sink_send env conn data s)) = a_pending s"
  "a_subs (snd (sink_send env conn data s)) = a_subs s"
  "a_server_subs (snd (sink_send env conn data s)) = a_server_subs s"
  "a_ping_interval (snd (sink_send env conn data s)) = a_ping_interval s"
  "a_send_pong (snd (sink_send env conn data s)) = a_send_pong s"
  "a_last_data_received (snd (sink_send env conn data s)) = a_last_data_received s"
  "a_token_expires (snd (sink_send env conn data s)) = a_token_expires s"
  "a_token_ttl (snd (sink_send env conn data s)) = a_token_ttl s"
  "a_refresh_required (snd (sink_send env conn data s)) = a_refresh_required s"
  "a_batch_active (snd (sink_send env conn data s)) = a_batch_active s"
  "a_batch_queue (snd (sink_send env conn data s)) = a_batch_queue s"
  "a_reconnect_attempts (snd (sink_send env conn data s)) = a_reconnect_attempts s"
  "a_connect_requested (snd (sink_send env conn data s)) = a_connect_requested s"
  "a_connect_waiters (snd (sink_send env conn data s)) = a_connect_waiters s"
  "a_client_event_tx (snd (sink_send env conn data s)) = a_client_event_tx s"
  "a_shared_state (snd (sink_send env conn data s)) = a_shared_state s"
  "a_ids (snd (sink_send env conn data s)) = a_ids s"
  by (simp_all add: sink_send_def split: option.split)

lemma send_command_frame [simp]:
  "a_config (snd (send_command env cmd s)) = a_config s"
  "a_state (snd (send_command env cmd s)) = a_state s"
  "a_client_id (snd (send_command env cmd s)) = a_client_id s"
  "a_sink (snd (send_command env cmd s)) = a_sink s"
  "a_stream (snd (send_command env cmd s)) = a_stream s"
  "a_next_id (snd (send_command env cmd s)) = a_next_id s"
  "a_pending (snd (send_command env cmd s)) = a_pending s"
  "a_subs (snd (send_command env cmd s)) = a_subs s"
  "a_server_subs (snd (send_command env cmd s)) = a_server_subs s"
  "a_ping_interval (snd (send_command env cmd s)) = a_ping_interval s"
  "a_send_pong (snd (send_command env cmd s)) = a_send_pong s"
  "a_last_data_received (snd (send_command env cmd s)) = a_last_data_received s"
  "a_token_expires (snd (send_command env cmd s)) = a_token_expires s"
  "a_token_ttl (snd (send_command env cmd s)) = a_token_ttl s"
  "a_refresh_required (snd (send_command env cmd s)) = a_refresh_required s"
  "a_batch_active (snd (send_command env cmd s)) = a_batch_active s"
  "a_reconnect_attempts (snd (send_command env cmd s)) = a_reconnect_attempts s"
  "a_connect_requested (snd (send_command env cmd s)) = a_connect_requested s"
  "a_connect_waiters (snd (send_command env cmd s)) = a_connect_waiters s"
  "a_client_event_tx (snd (send_command env cmd s)) = a_client_event_tx s"
  "a_shared_state (snd (send_command env cmd s)) = a_shared_state s"
  "a_ids (snd (send_command env cmd s)) = a_ids s"
  by (simp_all add: send_command_def split: option.split sum.split)

lemma schedule_request_timeout_frame [simp]:
  "a_config (schedule_request_timeout i s) = a_config s"
  "a_state (schedule_request_timeout i s) = a_state s"
  "a_client_id (schedule_request_timeout i s) = a_client_id s"
  "a_sink (schedule_request_timeout i s) = a_sink s"
  "a_stream (schedule_request_timeout i s) = a_stream s"
  "a_next_id (schedule_request_timeout i s) = a_next_id s"
  "a_pending (schedule_request_timeout i s) = a_pending s"
  "a_subs (schedule_request_timeout i s) = a_subs s"
  "a_server_subs (schedule_request_timeout i s) = a_server_subs s"
  "a_ping_interval (schedule_request_timeout i s) = a_ping_interval s"
  "a_send_pong (schedule_request_timeout i s) = a_send_pong s"
  "a_last_data_received (schedule_request_timeout i s) = a_last_data_received s"
  "a_token_expires (schedule_request_timeout i s) = a_token_expires s"
  "a_token_ttl (schedule_request_timeout i s) = a_token_ttl s"
  "a_refresh_required (schedule_request_timeout i s) = a_refresh_required s"
  "a_batch_active (schedule_request_timeout i s) = a_batch_active s"
  "a_batch_queue (schedule_request_timeout i s) = a_batch_queue s"
  "a_reconnect_attempts (schedule_request_timeout i s) = a_reconnect_attempts s"
  "a_connect_requested (schedule_request_timeout i s) = a_connect_requested s"
  "a_connect_waiters (schedule_request_timeout i s) = a_connect_waiters s"
  "a_client_event_tx (schedule_request_timeout i s) = a_client_event_tx s"
  "a_shared_state (schedule_request_timeout i s) = a_shared_state s"
  "a_tick (schedule_request_timeout i s) = a_tick s"
  "a_ids (schedule_request_timeout i s) = a_ids s"
  by (simp_all add: schedule_request_timeout_def)

section \<open>A concrete environment\<close>

text \<open>
  For the concrete instances of the properties: every send and every connect succeeds, maps are walked
  in list order, the clock moves one second per interaction.
\<close>

definition sample_env :: env where
  "sample_env = \<lparr>env_codec = sample_codec, env_send = (\<lambda>t d. None), env_connect = (\<lambda>t. None),
     env_order = (\<lambda>t. []), env_now = (\<lambda>t. t * 1000000000), env_rand = (\<lambda>t n. 0)\<rparr>"

lemma sample_env_simps [simp]:
  "env_codec sample_env = sample_codec" "env_send sample_env t d = None" "env_connect sample_env t = None"
  "env_order sample_env t = []" "env_now sample_env t = t * 1000000000" "env_rand sample_env t n = 0"
  by (simp_all add: sample_env_def)

lemma reorder_Nil [simp]: "reorder [] xs = xs"
  by (cases xs) simp_all

text \<open>A client right after its first call of \<open>connect\<close>.\<close>

lemma reachable_connecting:
  "reachable sample_env config [Connect 7] (handle_command sample_env (Connect 7) (new_actor config))"
proof -
  have "actor_step sample_env [Connect 7] (new_actor config)
      (handle_command sample_env (Connect 7) (new_actor config))"
    by (rule actor_step.command) (simp add: new_actor_def)
  from reachable.step [OF reachable.start this] show ?thesis by simp
qed

end
