(* ===== verification/ActorLaws.thy ===== *)
theory ActorLaws
  imports Frames
begin

text \<open>
  The interface between the handlers of the actor and the facts about whole steps. A relation \<open>R\<close>
  between the state before and after (and \<open>Q k r\<close>, the same for a step that took the caller \<open>r\<close> in,
  whose reply channel has type \<open>k\<close>) that holds for the few elementary steps below holds for every
  handler, every reply and every attempt. There are two ways to give such a relation: over the fields
  of the state (\<open>actor_fields\<close>), or with the transitions as wholes (\<open>actor_relation\<close>), for what
  depends on the state of the connection; the first gives the second. \<open>actor_commands\<close> is the part of
  the second that commands and replies need.
\<close>

section \<open>What an elementary step may leave alone\<close>

text \<open>
  The core of a state: the fields an elementary step has to justify. Any other field may change freely.
\<close>

definition same_core :: "actor \<Rightarrow> actor \<Rightarrow> bool" where
  "same_core s t \<longleftrightarrow> a_state t = a_state s \<and> a_shared_state t = a_shared_state s \<and>
     a_pending t = a_pending s \<and> a_subs t = a_subs s \<and> a_connect_waiters t = a_connect_waiters s \<and>
     a_log t = a_log s \<and> a_batch_queue t = a_batch_queue s \<and>
     a_next_id t = a_next_id s \<and> a_ids t = a_ids s \<and> a_client_event_tx t = a_client_event_tx s \<and>
     a_ping_interval t = a_ping_interval s \<and> a_last_data_received t = a_last_data_received s \<and>
     cfg_protocol_type (a_config t) = cfg_protocol_type (a_config s) \<and>
     cfg_timeout (a_config t) = cfg_timeout (a_config s) \<and>
     cfg_max_server_ping_delay (a_config t) = cfg_max_server_ping_delay (a_config s)"

text \<open>The events that tell the user the state of the client.\<close>

fun lifecycle_event :: "client_event \<Rightarrow> bool" where
  "lifecycle_event (CE_Connecting code reason) = True"
| "lifecycle_event (CE_Connected ctx) = True"
| "lifecycle_event (CE_Disconnected code reason) = True"
| "lifecycle_event _ = False"

text \<open>The events that tell the user the state of a subscription.\<close>

fun sub_tells :: "sub_event \<Rightarrow> subscription_state option" where
  "sub_tells (SE_Subscribing code reason) = Some Subscribing"
| "sub_tells (SE_Subscribed ctx) = Some Subscribed"
| "sub_tells (SE_Unsubscribed code reason) = Some Unsubscribed"
| "sub_tells _ = None"

text \<open>Effects that answer nobody, write nothing and tell no state.\<close>

fun silent :: "effect \<Rightarrow> bool" where
  "silent (Answer r v) = False"
| "silent (DropSender r) = False"
| "silent (Write conn data) = False"
| "silent (EmitClient tx ev) = (\<not> lifecycle_event ev)"
| "silent (EmitSub tx ev) = (sub_tells ev = None)"
| "silent _ = True"

text \<open>
  A new request: it gets the next identifier, becomes pending, and its timeout is set. Refreshes have
  no timeout.
\<close>

definition track :: "pending_request \<Rightarrow> actor \<Rightarrow> actor" where
  "track req s = insert_pending (a_next_id s) req (snd (next_cmd_id s))"

definition register :: "pending_request \<Rightarrow> actor \<Rightarrow> actor" where
  "register req s = schedule_request_timeout (a_next_id s) (track req s)"

fun is_refresh :: "pending_request \<Rightarrow> bool" where
  "is_refresh (PRefresh w) = True"
| "is_refresh (PSubRefresh ch w) = True"
| "is_refresh _ = False"

text \<open>Several events of a subscription in a row.\<close>

definition announce :: "sub_state \<Rightarrow> sub_event list \<Rightarrow> actor \<Rightarrow> actor" where
  "announce sub evs = fold (sub_emit sub) evs"

section \<open>What the steps have to satisfy\<close>

text \<open>The steps that change neither the state of the connection nor that of a subscription.\<close>

locale actor_base =
  fixes env :: env
    and R :: "actor \<Rightarrow> actor \<Rightarrow> bool"
    and Q :: "reply_kind \<Rightarrow> nat \<Rightarrow> actor \<Rightarrow> actor \<Rightarrow> bool"
  assumes core: "same_core s t \<Longrightarrow> R s t"
    and trans: "R s t \<Longrightarrow> R t u \<Longrightarrow> R s u"
    and take_left: "R s t \<Longrightarrow> Q k r t u \<Longrightarrow> Q k r s u"
    and take_right: "Q k r s t \<Longrightarrow> R t u \<Longrightarrow> Q k r s u"
    and silent_effect: "silent e \<Longrightarrow> R s (perform e s)"
    and event_channel: "R s (s\<lparr>a_client_event_tx := Some tx\<rparr>)"
    and send_step: "R s (snd (send_command env cmd s))"
    and flush_step: "R s (flush_batch env s)"
    and discard_batch: "R s (s\<lparr>a_batch_queue := []\<rparr>)"
    and new_id: "R s (snd (next_cmd_id s))"
    and settle_pending: "hm_get (a_pending s) i = Some req \<Longrightarrow> R (remove_pending i s) t \<Longrightarrow>
      kind_of x = pending_kind req \<Longrightarrow> R s (answer (pending_sender req) x t)"
    and track_internal: "pending_sender req = None \<Longrightarrow> is_refresh req \<Longrightarrow> R s (track req s)"
    and register_internal: "pending_sender req = None \<Longrightarrow> R s (register req s)"
    and drop_internal: "hm_get (a_pending s) i = Some req \<Longrightarrow> pending_sender req = None \<Longrightarrow>
      R s (remove_pending i s)"
    and settle_connect: "R s (drain_connect_waiters (RUnit v) s)"
    and take_answer: "Q (kind_of x) r s (answer (Some r) x s)"
    and take_connect: "Q UnitReply r s (s\<lparr>a_connect_waiters := a_connect_waiters s @ [r]\<rparr>)"
    and take_pending: "pending_sender req = Some r \<Longrightarrow> Q (pending_kind req) r s (register req s)"
    and new_sub: "hm_get (a_subs s) ch = None \<Longrightarrow> ss_waiters sub = [] \<Longrightarrow> ss_event_tx sub = None \<Longrightarrow>
      R s (put_sub ch sub s)"
    and take_sub: "hm_get (a_subs s) ch = Some sub \<Longrightarrow> ss_waiters sub' = ss_waiters sub @ [r] \<Longrightarrow>
      ss_state sub' \<noteq> Subscribed \<Longrightarrow> ss_state sub' = ss_state sub \<Longrightarrow> ss_event_tx sub' = ss_event_tx sub \<Longrightarrow>
      Q UnitReply r s (put_sub ch sub' s)"
    and take_remove: "hm_get (a_subs s) ch = Some sub \<Longrightarrow>
      Q UnitReply r s (drop_all (ss_waiters sub)
        (answer (Some r) (RUnit v) (s\<lparr>a_subs := hm_remove ch (a_subs s)\<rparr>)))"

text \<open>
  With the steps that change the state of a subscription, each with the event that tells it. The event
  channels that may be attached to a subscription are those in \<open>ok\<close>.
\<close>

locale actor_steps = actor_base env R Q
  for env :: env and R :: "actor \<Rightarrow> actor \<Rightarrow> bool" and Q :: "reply_kind \<Rightarrow> nat \<Rightarrow> actor \<Rightarrow> actor \<Rightarrow> bool" +
  fixes ok :: "string \<Rightarrow> nat \<Rightarrow> bool"
  assumes keep_sub: "hm_get (a_subs s) ch = Some sub \<Longrightarrow> ss_waiters sub' = ss_waiters sub \<Longrightarrow>
      ss_state sub' = ss_state sub \<Longrightarrow> ss_event_tx sub' = ss_event_tx sub \<Longrightarrow> R s (put_sub ch sub' s)"
    and tell_sub: "hm_get (a_subs s) ch = Some sub \<Longrightarrow> ss_waiters sub' = ss_waiters sub \<Longrightarrow>
      ss_state sub' \<noteq> Subscribed \<Longrightarrow> ss_event_tx sub' = ss_event_tx sub \<Longrightarrow>
      sub_tells ev = Some (ss_state sub') \<Longrightarrow> R s (sub_emit sub ev (put_sub ch sub' s))"
    and settle_keep: "hm_get (a_subs s) ch = Some sub \<Longrightarrow> ss_waiters sub' = [] \<Longrightarrow>
      ss_state sub' = ss_state sub \<Longrightarrow> ss_event_tx sub' = ss_event_tx sub \<Longrightarrow>
      R s (answer_all (ss_waiters sub) (RUnit v) (put_sub ch sub' s))"
    and settle_tell: "hm_get (a_subs s) ch = Some sub \<Longrightarrow> ss_waiters sub' = [] \<Longrightarrow>
      ss_event_tx sub' = ss_event_tx sub \<Longrightarrow> sub_tells ev = Some (ss_state sub') \<Longrightarrow>
      R s (sub_emit sub ev (answer_all (ss_waiters sub) (RUnit v) (put_sub ch sub' s)))"
    and subscribed: "hm_get (a_subs s) ch = Some sub \<Longrightarrow> ss_waiters sub' = [] \<Longrightarrow>
      ss_event_tx sub' = ss_event_tx sub \<Longrightarrow> ss_state sub' = Subscribed \<Longrightarrow>
      R s (answer_all (ss_waiters sub) (RUnit v)
        (put_sub ch sub' (announce sub (SE_Subscribed ctx # map SE_Publication pubs) s)))"
    and remove_tell: "hm_get (a_subs s) ch = Some sub \<Longrightarrow> sub_tells ev = Some Unsubscribed \<Longrightarrow>
      R s (sub_emit sub ev (answer_all (ss_waiters sub) (RUnit v) (s\<lparr>a_subs := hm_remove ch (a_subs s)\<rparr>)))"
    and attach_sub: "hm_get (a_subs s) ch = Some sub \<Longrightarrow> ok ch tx \<Longrightarrow>
      R s (put_sub ch (sub\<lparr>ss_event_tx := Some tx\<rparr>) s)"
begin

subsection \<open>Elementary operations\<close>

lemma refl [simp]: "R s s"
  by (rule core) (simp add: same_core_def)

lemma tick [simp]: "R s (step_tick s)"
  by (rule core) (simp add: same_core_def step_tick_def)

lemma then_core: "R s t \<Longrightarrow> same_core t u \<Longrightarrow> R s u"
  using trans core by blast

lemma emit_client [simp]: "\<not> lifecycle_event ev \<Longrightarrow> R s (emit_client_event ev s)"
  by (auto simp: emit_client_event_def silent_effect split: option.splits)

lemma emit_err [simp]: "R s (emit_error msg s)"
  by (simp add: emit_error_def)

lemma emit_sub [simp]: "sub_tells ev = None \<Longrightarrow> R s (sub_emit sub ev s)"
  by (auto simp: sub_emit_def silent_effect split: option.splits)

lemma sched [simp]: "R s (schedule d c s)"
  by (simp add: schedule_def silent_effect)

lemma then_emit_client: "R s t \<Longrightarrow> \<not> lifecycle_event ev \<Longrightarrow> R s (emit_client_event ev t)"
  using trans emit_client by blast

lemma then_emit_sub: "R s t \<Longrightarrow> sub_tells ev = None \<Longrightarrow> R s (sub_emit sub ev t)"
  using trans emit_sub by blast

lemma then_sched: "R s t \<Longrightarrow> R s (schedule d c t)"
  using trans sched by blast

lemma fold_rel: "(\<And>x s. R s (f x s)) \<Longrightarrow> R s (fold f xs s)"
  by (induction xs arbitrary: s) (auto intro: trans)

lemma for_keys_rel: "(\<And>k s. R s (f k s)) \<Longrightarrow> R s (for_keys env m f s)"
  unfolding for_keys_def by (rule trans [OF tick fold_rel])

lemma fail_pending:
  assumes "hm_get (a_pending s) i = Some req"
  shows "R s (snd (fail_request req e (remove_pending i s)))"
  using settle_pending [OF assms refl] by (cases req) simp_all

subsection \<open>Tearing down\<close>

lemma r_fail_all_pending [simp]: "R s (fail_all_pending env s)"
  unfolding fail_all_pending_def
  by (rule for_keys_rel) (auto simp: fail_pending split: option.splits)

lemma r_unsubscribe_sub [simp]: "R s (unsubscribe_sub err code reason ch s)"
  by (auto simp: unsubscribe_sub_def intro!: settle_tell split: option.splits)

lemma r_unsubscribe_all [simp]: "R s (unsubscribe_all_subs env err code reason s)"
  by (simp add: unsubscribe_all_subs_def for_keys_rel)

lemma r_drain_server_subs [simp]: "R s (drain_server_subs env code reason s)"
  unfolding drain_server_subs_def
  by (rule trans [OF core for_keys_rel]) (simp_all add: same_core_def)

lemma r_drop_connection [simp]: "R s (drop_connection env s)"
proof -
  let ?s = "s\<lparr>a_sink := None, a_stream := None\<rparr>"
  have "R s ?s" by (rule core) (simp add: same_core_def)
  then have "R s (fail_all_pending env ?s)" by (rule trans) simp
  then have "R s ((fail_all_pending env ?s)\<lparr>a_batch_queue := []\<rparr>)" by (rule trans) (rule discard_batch)
  then show ?thesis
    unfolding drop_connection_def by (rule then_core) (simp add: same_core_def)
qed

lemma r_unsubscribe_unauthorized [simp]: "R s (unsubscribe_unauthorized ch s)"
  by (auto simp: unsubscribe_unauthorized_def intro!: settle_tell split: option.splits)

subsection \<open>Transport\<close>

lemma r_resubscribing_sub [simp]: "R s (resubscribing_sub reason ch s)"
  by (auto simp: resubscribing_sub_def intro!: tell_sub split: option.splits)

lemma r_send_command [simp]: "R s (snd (send_command env cmd s))"
  by (rule send_step)

lemma r_send_command_eq: "send_command env cmd s = (res, t) \<Longrightarrow> R s t"
  using r_send_command [of s cmd] by simp

lemma r_flush_batch [simp]: "R s (flush_batch env s)"
  by (rule flush_step)

lemma r_schedule_request_timeout [simp]: "R s (schedule_request_timeout i s)"
  by (simp add: schedule_request_timeout_def)

lemma r_next_cmd_id: "next_cmd_id s = (i, t) \<Longrightarrow> R s t"
  using new_id [of s] by simp

end

section \<open>Whole transitions\<close>

text \<open>
  A relation that also holds for the transitions that leave a connection, each taken as a whole, with
  the event that announces it. It holds for every reply and every command.
\<close>

locale actor_commands = actor_steps +
  assumes to_connecting: "R s (move_to_connecting code reason s)"
    and to_disconnected: "R s (move_to_disconnected env code reason s)"
    and to_closed: "R s (move_to_closed env s)"
begin

lemma r_transitions [simp]:
  "R s (move_to_connecting code reason s)" "R s (move_to_disconnected env code reason s)"
  "R s (move_to_closed env s)"
  by (rule to_connecting to_disconnected to_closed)+

lemma r_on_transport_close [simp]: "R s (on_transport_close env info s)"
proof -
  let ?i = "case info of Some i \<Rightarrow> i | None \<Rightarrow> transport_closed_info"
  let ?a = "drop_connection env s"
  let ?b = "for_keys env (a_subs ?a) (resubscribing_sub (di_reason ?i)) ?a"
  let ?c = "for_keys env (a_server_subs ?b) (\<lambda>channel. emit_client_event
      (CE_ServerSubscribing channel SUBSCRIBING_TRANSPORT_CLOSED (di_reason ?i))) ?b"
  have a: "R s ?a" by simp
  then have "R s ?b" by (rule trans) (simp add: for_keys_rel)
  then have "R s ?c" by (rule trans) (simp add: for_keys_rel)
  then have "R s (move_to_connecting (di_code ?i) (di_reason ?i) ?c)" by (rule trans) simp
  moreover from a have "R s (move_to_disconnected env (di_code ?i) (di_reason ?i) ?a)"
    by (rule trans) simp
  ultimately show ?thesis
    unfolding on_transport_close_def Let_def by simp
qed

end

text \<open>With the arrival of a connection and of data, it holds for every step.\<close>

locale actor_relation = actor_commands +
  assumes to_connected: "R s (move_to_connected env result s)"
    and data_received: "R s (s\<lparr>a_last_data_received := d\<rparr>)"

section \<open>Independence of the state of the connection\<close>

text \<open>
  A relation that lets the state of the connection change by itself, and that no event of the client
  concerns: the transitions follow.
\<close>

locale actor_states = actor_steps +
  assumes change_state: "R s (s\<lparr>a_state := st, a_shared_state := as_u8 st\<rparr>)"
    and any_event: "R s (perform (EmitClient tx ev) s)"
    and change_clock: "R s (s\<lparr>a_ping_interval := p, a_last_data_received := d\<rparr>)"
begin

lemma then_any_event: "R s t \<Longrightarrow> R s (emit_client_event ev t)"
  using trans any_event by (auto simp: emit_client_event_def split: option.split)

lemma set_state: "R s (update_shared_state (s\<lparr>a_state := st\<rparr>))"
  using change_state [of s st] by (simp add: update_shared_state_def)

lemma do_move_to_connecting: "R s (move_to_connecting code reason s)"
  by (simp add: move_to_connecting_def then_any_event set_state)

lemma r_connected_fields: "R s (update_shared_state (step_tick (s\<lparr>a_state := st, a_client_id := c,
    a_reconnect_attempts := n, a_ping_interval := p, a_send_pong := b, a_last_data_received := d,
    a_token_expires := e, a_token_ttl := l\<rparr>)))"
proof -
  let ?t = "step_tick (s\<lparr>a_client_id := c, a_reconnect_attempts := n, a_ping_interval := p,
    a_send_pong := b, a_last_data_received := d, a_token_expires := e, a_token_ttl := l\<rparr>)"
  have "R s ?t" by (rule then_core [OF change_clock]) (simp add: same_core_def step_tick_def)
  then have "R s (update_shared_state (?t\<lparr>a_state := st\<rparr>))" by (rule trans) (rule set_state)
  moreover have "update_shared_state (?t\<lparr>a_state := st\<rparr>) = update_shared_state (step_tick (s\<lparr>a_state := st,
    a_client_id := c, a_reconnect_attempts := n, a_ping_interval := p, a_send_pong := b,
    a_last_data_received := d, a_token_expires := e, a_token_ttl := l\<rparr>))"
    by (rule actor.equality) (simp_all add: update_shared_state_def step_tick_def)
  ultimately show ?thesis by simp
qed

lemma do_move_to_connected: "R s (move_to_connected env result s)"
proof -
  let ?p = "if cr_ping result > 0 then from_secs (unat (cr_ping result)) else a_ping_interval s"
  have "move_to_connected env result s = emit_client_event (CE_Connected
      \<lparr>cc_client_id = cr_client result, cc_version = cr_version result, cc_data = cr_data result,
       cc_session = cr_session result, cc_node = cr_node result\<rparr>)
     (update_shared_state (step_tick (s\<lparr>a_state := Connected, a_client_id := cr_client result,
       a_reconnect_attempts := 0, a_ping_interval := ?p, a_send_pong := cr_pong result,
       a_last_data_received := env_now env (a_tick s), a_token_expires := cr_expires result,
       a_token_ttl := cr_ttl result\<rparr>)))"
    by (simp add: move_to_connected_def Let_def)
  then show ?thesis by (simp only:) (rule then_any_event, rule r_connected_fields)
qed

lemma do_data_received: "R s (s\<lparr>a_last_data_received := d\<rparr>)"
proof -
  have "s\<lparr>a_last_data_received := d\<rparr> = s\<lparr>a_ping_interval := a_ping_interval s, a_last_data_received := d\<rparr>" by simp
  then show ?thesis using change_clock by metis
qed

lemma do_move_to_disconnected: "R s (move_to_disconnected env code reason s)"
proof -
  let ?a = "update_shared_state (s\<lparr>a_state := Disconnected\<rparr>)"
  let ?b = "?a\<lparr>a_client_id := [], a_connect_requested := False\<rparr>"
  let ?c = "drain_connect_waiters (RUnit (Inl ClientDisconnected)) (drop_connection env ?b)"
  have "R s ?a" by (rule set_state)
  then have "R s ?b" by (rule then_core) (simp add: same_core_def)
  then have "R s (drop_connection env ?b)" by (rule trans) simp
  then have c: "R s ?c" by (rule trans) (rule settle_connect)
  then have "R s (if a_state s = Connected
      then unsubscribe_all_subs env ClientDisconnected CLIENT_CLOSED reason ?c else ?c)"
    by (auto intro: trans)
  then have "R s (drain_server_subs env code reason (if a_state s = Connected
      then unsubscribe_all_subs env ClientDisconnected CLIENT_CLOSED reason ?c else ?c))"
    by (rule trans) simp
  then show ?thesis
    unfolding move_to_disconnected_def Let_def by (rule then_any_event)
qed

lemma do_move_to_closed: "R s (move_to_closed env s)"
proof -
  let ?a = "update_shared_state (s\<lparr>a_state := Closed\<rparr>)"
  have "R s ?a" by (rule set_state)
  then have "R s (drop_connection env ?a)" by (rule trans) simp
  then have "R s (drain_connect_waiters (RUnit (Inl ClientClosed)) (drop_connection env ?a))"
    by (rule trans) (rule settle_connect)
  then show ?thesis
    unfolding move_to_closed_def Let_def by (rule trans) simp
qed

end

sublocale actor_states \<subseteq> actor_relation
  by unfold_locales (rule do_move_to_connecting do_move_to_connected do_move_to_disconnected
      do_move_to_closed do_data_received)+

section \<open>Changes field by field\<close>

text \<open>
  A relation that depends on no event, and on the states of connection and subscriptions only in that
  a channel becomes subscribed with nobody waiting: it need only allow the fields to change.
\<close>

locale actor_fields = actor_base +
  assumes any_state: "R s (s\<lparr>a_state := st, a_shared_state := as_u8 st\<rparr>)"
    and any_client_event: "R s (perform (EmitClient tx ev) s)"
    and any_clock: "R s (s\<lparr>a_ping_interval := p, a_last_data_received := d\<rparr>)"
    and any_sub_event: "R s (perform (EmitSub tx sev) s)"
    and change_sub: "hm_get (a_subs s) ch = Some sub \<Longrightarrow> ss_waiters sub' = ss_waiters sub \<Longrightarrow>
      (ss_state sub' = Subscribed \<Longrightarrow> ss_state sub = Subscribed) \<Longrightarrow> R s (put_sub ch sub' s)"
    and settle_sub: "hm_get (a_subs s) ch = Some sub \<Longrightarrow> ss_waiters sub' = [] \<Longrightarrow>
      R s (answer_all (ss_waiters sub) (RUnit v) (put_sub ch sub' s))"
    and remove_sub: "hm_get (a_subs s) ch = Some sub \<Longrightarrow>
      R s (answer_all (ss_waiters sub) (RUnit v) (s\<lparr>a_subs := hm_remove ch (a_subs s)\<rparr>))"
begin

lemma then_any_sub_event: "R s t \<Longrightarrow> R s (sub_emit sub ev t)"
  using trans any_sub_event by (auto simp: sub_emit_def split: option.split)

lemma announced: "R s (announce sub evs s)"
  unfolding announce_def
proof (induction evs arbitrary: s)
  case Nil
  show ?case by (simp add: core same_core_def)
next
  case (Cons ev evs)
  have "R s (sub_emit sub ev s)" by (rule then_any_sub_event) (simp add: core same_core_def)
  then show ?case using trans Cons by simp
qed

lemma announce_subs: "a_subs (announce sub evs s) = a_subs s"
  unfolding announce_def by (induction evs arbitrary: s) simp_all

end

sublocale actor_fields \<subseteq> actor_states env R Q "\<lambda>ch tx. True"
proof
  fix s :: actor and ch v ctx pubs and sub sub' :: sub_state
  assume "hm_get (a_subs s) ch = Some sub" "ss_waiters sub' = []"
  then show "R s (answer_all (ss_waiters sub) (RUnit v)
      (put_sub ch sub' (announce sub (SE_Subscribed ctx # map SE_Publication pubs) s)))"
    by (intro trans [OF announced settle_sub]) (simp_all add: announce_subs)
qed (auto intro: change_sub settle_sub remove_sub then_any_sub_event any_state any_client_event any_clock)

end
