(* ===== verification/HandlerLaws.thy ===== *)
theory HandlerLaws
  imports ActorLaws
begin

text \<open>
  The contract of \<open>actor_commands\<close> lifted to every handler: tokens, subscriptions, server-side
  subscriptions, pushes, replies and commands; and that of \<open>actor_relation\<close> to attempts, connected events
  and steps.
\<close>

lemma send_command_pending: "send_command env cmd s = (res, t) \<Longrightarrow> a_pending t = a_pending s"
  using send_command_frame(7) [of env cmd s] by simp

section \<open>Publications\<close>

lemma receive_publication_frame [simp]:
  "a_subs (snd (receive_publication env pt p x)) = a_subs (snd x)"
  "a_config (snd (receive_publication env pt p x)) = a_config (snd x)"
  "ss_waiters (fst (receive_publication env pt p x)) = ss_waiters (fst x)"
  "ss_state (fst (receive_publication env pt p x)) = ss_state (fst x)"
  "ss_event_tx (fst (receive_publication env pt p x)) = ss_event_tx (fst x)"
  by (cases x; simp add: receive_publication_def Let_def case_prod_beta sub_apply_delta_def
      split: option.splits run.splits)+

lemma fold_receive_publication_frame [simp]:
  "a_subs (snd (fold (receive_publication env pt) ps x)) = a_subs (snd x)"
  "a_config (snd (fold (receive_publication env pt) ps x)) = a_config (snd x)"
  "ss_waiters (fst (fold (receive_publication env pt) ps x)) = ss_waiters (fst x)"
  "ss_state (fst (fold (receive_publication env pt) ps x)) = ss_state (fst x)"
  "ss_event_tx (fst (fold (receive_publication env pt) ps x)) = ss_event_tx (fst x)"
  by (induction ps arbitrary: x) simp_all

lemma announce_cong: "ss_event_tx sub' = ss_event_tx sub \<Longrightarrow> announce sub' evs s = announce sub evs s"
  by (simp add: announce_def sub_emit_def [abs_def])

text \<open>Received publications are announced to the user, and nothing else happens outside the subscription.\<close>

lemma receive_publications_announce:
  "\<exists>pubs. snd (fold (receive_publication env pt) ps (sub, s)) = announce sub (map SE_Publication pubs) s"
proof (induction ps arbitrary: sub s)
  case Nil
  show ?case by (rule exI [of _ "[]"]) (simp add: announce_def)
next
  case (Cons p ps)
  obtain sub' s' where r: "receive_publication env pt p (sub, s) = (sub', s')" by fastforce
  have tx: "ss_event_tx sub' = ss_event_tx sub"
    using receive_publication_frame(5) [of env pt p "(sub, s)"] by (simp only: r fst_conv)
  have "\<exists>pub. s' = announce sub' [SE_Publication pub] s"
    using r by (auto simp: receive_publication_def announce_def Let_def case_prod_beta)
  then obtain pub where pub: "receive_publication env pt p (sub, s) = (sub', announce sub [SE_Publication pub] s)"
    unfolding r announce_cong [OF tx] by blast
  obtain pubs where "snd (fold (receive_publication env pt) ps (sub', announce sub [SE_Publication pub] s))
      = announce sub' (map SE_Publication pubs) (announce sub [SE_Publication pub] s)" using Cons by blast
  then show ?case
    using pub announce_cong [OF tx] by (intro exI [of _ "pub # pubs"]) (simp add: announce_def)
qed

lemma subscribed_sub_waiters [simp]:
  "ss_waiters (subscribed_sub result sub) = ss_waiters sub"
  "ss_event_tx (subscribed_sub result sub) = ss_event_tx sub" "ss_state (subscribed_sub result sub) = Subscribed"
  by (simp_all add: subscribed_sub_def Let_def)

section \<open>The handlers\<close>

text \<open>Every event channel that the commands attach to a subscription is one that is allowed for it.\<close>

definition attaches :: "(string \<Rightarrow> nat \<Rightarrow> bool) \<Rightarrow> actor_command list \<Rightarrow> bool" where
  "attaches ok cmds \<longleftrightarrow> (\<forall>ch tx. SetSubEventChannel ch tx \<in> set cmds \<longrightarrow> ok ch tx)"

lemma attaches_any [simp]: "attaches (\<lambda>ch tx. True) cmds"
  by (simp add: attaches_def)


context actor_commands
begin

lemma then_do: "R s t \<Longrightarrow> (\<And>u. R u (f u)) \<Longrightarrow> R s (f t)"
  using trans by blast

lemma r_drain_connect [simp]: "R s (drain_connect_waiters (RUnit v) s)"
  by (rule settle_connect)

lemma then_disconnect: "R s t \<Longrightarrow> R s (move_to_disconnected env code reason t)"
  by (erule then_do) simp

lemma then_unauthorized: "R s t \<Longrightarrow> R s (unsubscribe_unauthorized ch t)"
  by (erule then_do) simp

lemma then_close: "R s t \<Longrightarrow> R s (on_transport_close env info t)"
  by (erule then_do) simp

text \<open>A subscription is replaced by one with the same state, waiters and event channel.\<close>

lemma then_keep_sub:
  "R s t \<Longrightarrow> hm_get (a_subs t) ch = Some sub \<Longrightarrow> ss_waiters sub' = ss_waiters sub \<Longrightarrow>
   ss_state sub' = ss_state sub \<Longrightarrow> ss_event_tx sub' = ss_event_tx sub \<Longrightarrow> R s (put_sub ch sub' t)"
  using trans keep_sub by blast

lemma then_settle_keep:
  "R s t \<Longrightarrow> hm_get (a_subs t) ch = Some sub \<Longrightarrow>
   R s (answer_all (ss_waiters sub) (RUnit v) (put_sub ch (sub\<lparr>ss_waiters := []\<rparr>) t))"
  by (rule trans, assumption, rule settle_keep) simp_all

subsection \<open>Requests without a caller\<close>

lemma r_next_id [simp]: "R s (snd (next_cmd_id s))"
  by (rule new_id)

text \<open>A pending request that nobody waits for is registered, sent, and removed again on an error.\<close>

lemma internal_request:
  assumes "R s t" and "pending_sender req = None"
  shows "R s (snd (send_command env cmd (register req t)))"
    and "R s (remove_pending (a_next_id t) (snd (send_command env cmd (register req t))))"
    and "is_refresh req \<Longrightarrow> R s (snd (send_command env cmd (track req t)))"
    and "is_refresh req \<Longrightarrow> R s (remove_pending (a_next_id t) (snd (send_command env cmd (track req t))))"
proof -
  have go: "R s (snd (send_command env cmd u)) \<and> R s (remove_pending (a_next_id t) (snd (send_command env cmd u)))"
    if "R t u" "hm_get (a_pending u) (a_next_id t) = Some req" for u
  proof -
    let ?u = "snd (send_command env cmd u)"
    have u: "R s ?u" by (rule trans [OF trans [OF assms(1) that(1)]]) simp
    have "hm_get (a_pending ?u) (a_next_id t) = Some req" using that(2) by simp
    then have "R ?u (remove_pending (a_next_id t) ?u)" using assms(2) by (rule drop_internal)
    with u show ?thesis by (blast intro: trans)
  qed
  have get: "hm_get (a_pending (register req t)) (a_next_id t) = Some req"
    "hm_get (a_pending (track req t)) (a_next_id t) = Some req"
    by (simp_all add: register_def track_def)
  show "R s (snd (send_command env cmd (register req t)))"
    "R s (remove_pending (a_next_id t) (snd (send_command env cmd (register req t))))"
    using go [OF register_internal [OF assms(2)] get(1)] by blast+
  show "R s (snd (send_command env cmd (track req t)))"
    "R s (remove_pending (a_next_id t) (snd (send_command env cmd (track req t))))" if "is_refresh req"
    using go [OF track_internal [OF assms(2) that] get(2)] by blast+
qed

lemmas tracked_request = internal_request(3,4) [unfolded track_def]
lemmas registered_request = internal_request(1,2) [unfolded register_def track_def]

subsection \<open>Tokens\<close>

lemma r_schedule_token_refresh [simp]: "R s (schedule_token_refresh s)"
  by (simp add: schedule_token_refresh_def)

lemma r_schedule_sub_token_refresh [simp]: "R s (schedule_sub_token_refresh ch ttl s)"
  by (simp add: schedule_sub_token_refresh_def)

lemma r_schedule_token_refresh_retry [simp]: "R s (schedule_token_refresh_retry s)"
  by (simp add: schedule_token_refresh_retry_def)

lemma r_do_token_refresh [simp]: "R s (snd (do_token_refresh s))"
  by (auto simp: do_token_refresh_def same_core_def intro!: core split: option.splits sum.splits)

lemma r_do_refresh_token [simp]: "R s (do_refresh_token env s)"
proof -
  obtain res t where d: "do_token_refresh s = (res, t)" by fastforce
  with r_do_token_refresh [of s] have t: "R s t" by simp
  have "R s (schedule_token_refresh_retry (emit_error msg t))" for msg
    by (rule trans [OF t]) (rule trans [OF emit_err r_schedule_token_refresh_retry])
  moreover note sent = tracked_request [OF t, of "PRefresh None", simplified]
  moreover have "R s (schedule_token_refresh_retry (remove_pending (a_next_id t) (snd (send_command env cmd
      (insert_pending (a_next_id t) (PRefresh None) (snd (next_cmd_id t)))))))" for cmd
    by (rule trans [OF sent(2) r_schedule_token_refresh_retry])
  ultimately show ?thesis
    using then_disconnect [OF t]
    by (simp add: do_refresh_token_def d case_prod_beta Let_def split: sum.split unit.split)
qed

lemma r_send_sub_refresh [simp]: "R s (send_sub_refresh env ch token s)"
  using tracked_request [OF refl, of "PSubRefresh ch None", simplified]
  by (simp add: send_sub_refresh_def case_prod_beta Let_def split: sum.split unit.split)

lemma r_do_refresh_sub_token [simp]: "R s (do_refresh_sub_token env ch s)"
proof (cases "hm_get (a_subs s) ch")
  case None
  then show ?thesis by (simp add: do_refresh_sub_token_def)
next
  case (Some sub)
  have "R s (send_sub_refresh env ch token (put_sub ch (sub\<lparr>ss_token := token\<rparr>) (step_tick s)))" for token
    by (rule then_do [OF then_keep_sub [OF tick]]) (simp_all add: Some)
  moreover have "R s (schedule_sub_token_refresh ch n (sub_emit sub (SE_Error msg) (step_tick s)))" for n msg
    by (rule then_do [OF then_emit_sub [OF tick]]) simp_all
  ultimately show ?thesis
    using then_unauthorized [OF tick]
    by (simp add: do_refresh_sub_token_def Some split: option.split sum.split)
qed

subsection \<open>Subscriptions\<close>

lemma r_receive_publication [simp]: "R s (snd (receive_publication env pt p (sub, s)))"
  by (simp add: receive_publication_def Let_def case_prod_beta)

lemma r_receive_publications [simp]: "R s (snd (fold (receive_publication env pt) ps (sub, s)))"
proof (induction ps arbitrary: sub s)
  case (Cons p ps)
  obtain sub' s' where r: "receive_publication env pt p (sub, s) = (sub', s')" by fastforce
  with r_receive_publication [of s pt p sub] have "R s s'" by simp
  then show ?case by (rule trans) (use Cons r in simp)
qed simp

lemma r_handle_subscribe_success [simp]: "R s (handle_subscribe_success env ch result s)"
proof (cases "hm_get (a_subs s) ch")
  case None
  then show ?thesis by (simp add: handle_subscribe_success_def)
next
  case (Some sub)
  let ?sub = "subscribed_sub result sub"
  let ?s = "sub_emit ?sub (SE_Subscribed (subscribed_context_of ch (recovering sub) result)) s"
  let ?f = "fold (receive_publication env (protocol_of s)) (sr_publications result) (?sub, ?s)"
  let ?t = "answer_all (ss_waiters sub) (RUnit (Inr ())) (put_sub ch (fst ?f\<lparr>ss_waiters := []\<rparr>) (snd ?f))"
  obtain pubs where "snd ?f = announce ?sub (map SE_Publication pubs) ?s"
    using receive_publications_announce by blast
  then have "snd ?f = announce sub (SE_Subscribed (subscribed_context_of ch (recovering sub) result)
      # map SE_Publication pubs) s"
    using announce_cong [of ?sub sub "SE_Subscribed (subscribed_context_of ch (recovering sub) result)
      # map SE_Publication pubs"] by (simp add: announce_def)
  then have t: "R s ?t" by (simp only:) (rule subscribed, simp_all add: Some)
  have "R s (schedule_sub_token_refresh ch n ?t)" for n
    by (rule trans [OF t]) simp
  with t show ?thesis
    by (simp add: handle_subscribe_success_def Some Let_def case_prod_beta)
qed

lemma r_schedule_resubscribe [simp]: "R s (schedule_resubscribe env ch s)"
proof -
  have "R s (schedule d c (step_tick s))" for d c by (rule then_sched) simp
  then show ?thesis by (simp add: schedule_resubscribe_def split: option.split)
qed

lemma r_handle_subscribe_error [simp]: "R s (handle_subscribe_error env ch err s)"
proof (cases "hm_get (a_subs s) ch")
  case None
  then show ?thesis by (simp add: handle_subscribe_error_def)
next
  case (Some sub)
  have "R s (schedule_resubscribe env ch (put_sub ch sub' (sub_emit sub (SE_Error msg) s)))"
    if "ss_waiters sub' = ss_waiters sub" "ss_state sub' = ss_state sub" "ss_event_tx sub' = ss_event_tx sub"
    for msg sub' by (rule then_do [OF then_keep_sub [OF emit_sub]]) (simp_all add: Some that)
  moreover have "R s (sub_emit sub (SE_Unsubscribed code reason) (answer_all (ss_waiters sub) (RUnit v) (put_sub ch
      (sub\<lparr>ss_state := Unsubscribed, ss_attempts := 0, ss_waiters := []\<rparr>) s)))" for code reason v
    by (rule settle_tell) (simp_all add: Some)
  ultimately show ?thesis
    by (simp add: handle_subscribe_error_def Some Let_def)
qed

lemma r_subscribe_token:
  assumes "hm_get (a_subs s) ch = Some sub"
  shows "R s (snd (subscribe_token env ch sub s))"
proof -
  have "R s (put_sub ch (sub\<lparr>ss_token := token\<rparr>) (step_tick s))" for token
    by (rule then_keep_sub [OF tick]) (simp_all add: assms)
  moreover have "R s (schedule_resubscribe env ch (put_sub ch (sub\<lparr>ss_attempts := n\<rparr>)
      (sub_emit sub (SE_Error msg) (step_tick s))))" for n msg
    by (rule then_do [OF then_keep_sub [OF then_emit_sub [OF tick]]]) (simp_all add: assms)
  ultimately show ?thesis
    using then_unauthorized [OF tick] by (simp add: subscribe_token_def split: option.split sum.split)
qed

lemma r_subscribe_data [simp]: "R s (subscribe_data ch s)"
proof (cases "hm_get (a_subs s) ch")
  case None
  then show ?thesis by (simp add: subscribe_data_def)
next
  case (Some sub)
  have "R s (put_sub ch (sub\<lparr>ss_config := c\<rparr>) (step_tick s))" for c
    by (rule then_keep_sub [OF tick]) (simp_all add: Some)
  then show ?thesis
    using then_emit_sub [OF tick]
    by (simp add: subscribe_data_def Some split: option.split sum.split)
qed

lemma r_send_subscribe [simp]: "R s (send_subscribe env ch s)"
  using registered_request [OF refl, of "PSubscribe ch None", simplified]
  by (simp add: send_subscribe_def case_prod_beta Let_def split: option.split sum.split unit.split)

lemma r_do_subscribe [simp]: "R s (do_subscribe env ch s)"
proof -
  have "R s (send_subscribe env ch (subscribe_data ch (snd (subscribe_token env ch sub s))))"
    if "hm_get (a_subs s) ch = Some sub" for sub
    by (rule trans [OF trans [OF r_subscribe_token [OF that] r_subscribe_data] r_send_subscribe])
  then show ?thesis
    by (simp add: do_subscribe_def case_prod_beta r_subscribe_token split: option.split)
qed

lemma r_resubscribe_all [simp]: "R s (resubscribe_all env s)"
  unfolding resubscribe_all_def Let_def by (rule trans [OF tick fold_rel]) simp

subsection \<open>Server-side subscriptions\<close>

lemma r_server_subs [simp]: "R s (s\<lparr>a_server_subs := m\<rparr>)"
  by (rule core) (simp add: same_core_def)

lemma then_server_subs: "R s t \<Longrightarrow> R s (t\<lparr>a_server_subs := m\<rparr>)"
  by (rule then_core) (simp_all add: same_core_def)

lemma r_receive_server_publication [simp]: "R s (receive_server_publication ch p s)"
  unfolding receive_server_publication_def Let_def
  by (rule then_emit_client) (simp_all split: option.split)

lemma r_process_server_sub [simp]: "R s (process_server_sub env result ch s)"
proof -
  have "R s (fold (receive_server_publication ch) ps (emit_client_event (CE_ServerSubscribed c)
      (s\<lparr>a_server_subs := m\<rparr>)))" for ps c m
    by (rule trans [OF then_emit_client fold_rel]) simp_all
  then show ?thesis by (simp add: process_server_sub_def Let_def split: option.split)
qed

lemma r_remove_lost_server_sub [simp]: "R s (remove_lost_server_sub result ch s)"
  by (simp add: remove_lost_server_sub_def then_emit_client)

lemma r_process_server_subs [simp]: "R s (process_server_subs env result s)"
  unfolding process_server_subs_def Let_def
  by (rule trans [OF trans [OF tick for_keys_rel] fold_rel]) simp_all

subsection \<open>Pushes\<close>

lemma r_handle_publication [simp]: "R s (handle_publication env ch p s)"
proof -
  have "R s (put_sub ch (fst (receive_publication env pt p (sub, s)))
      (snd (receive_publication env pt p (sub, s))))"
    if "hm_get (a_subs s) ch = Some sub" for sub pt
    by (rule then_keep_sub [OF r_receive_publication]) (simp_all add: that)
  then show ?thesis
    by (simp add: handle_publication_def case_prod_beta then_emit_client split: option.split)
qed

lemma r_handle_join [simp]: "R s (handle_join ch j s)"
  by (simp add: handle_join_def split: option.split)

lemma r_handle_leave [simp]: "R s (handle_leave ch j s)"
  by (simp add: handle_leave_def split: option.split)

lemma r_handle_server_unsubscribe [simp]: "R s (handle_server_unsubscribe ch code reason s)"
  by (auto simp: handle_server_unsubscribe_def
      intro!: then_emit_client then_sched tell_sub split: option.split)

lemma r_handle_server_subscribe [simp]: "R s (handle_server_subscribe ch sub s)"
  unfolding handle_server_subscribe_def by (rule then_emit_client) simp_all

lemma r_handle_disconnect_push [simp]: "R s (handle_disconnect_push env d s)"
  by (simp add: handle_disconnect_push_def)

lemma r_handle_push [simp]: "R s (handle_push env push s)"
  by (simp add: handle_push_def Let_def split: option.split)

subsection \<open>Replies\<close>

lemma r_resolve_subscribe:
  assumes "hm_get (a_pending s) i = Some (PSubscribe ch w)"
  shows "R s (resolve_subscribe env ch w reply (remove_pending i s))"
  using settle_pending [OF assms, of _ "RUnit v" for v] by (simp add: resolve_subscribe_def Let_def split: option.split)

lemma r_resolve_refresh:
  assumes "hm_get (a_pending s) i = Some (PRefresh w)"
  shows "R s (resolve_refresh w reply (remove_pending i s))"
proof -
  have "R t (schedule_token_refresh (t\<lparr>a_token_expires := e, a_token_ttl := l\<rparr>))" for t e l
    by (rule then_do [OF core]) (simp_all add: same_core_def)
  with settle_pending [OF assms, of _ "RUnit v" for v] show ?thesis
    by (simp add: resolve_refresh_def split: option.split)
qed

lemma r_resolve_sub_refresh:
  assumes "hm_get (a_pending s) i = Some (PSubRefresh ch w)"
  shows "R s (resolve_sub_refresh ch w reply (remove_pending i s))"
  using settle_pending [OF assms, of _ "RUnit v" for v] by (simp add: resolve_sub_refresh_def split: option.split)

lemma r_resolve_pending:
  assumes "hm_get (a_pending s) i = Some req"
  shows "R s (resolve_pending env req reply (remove_pending i s))"
  using assms r_resolve_subscribe r_resolve_refresh r_resolve_sub_refresh settle_pending [OF assms refl]
  by (cases req) simp_all

lemma r_dispatch_reply [simp]: "R s (dispatch_reply env reply s)"
  by (simp add: dispatch_reply_def r_resolve_pending split: option.split)

lemma r_handle_transport_data [simp]: "R s (handle_transport_data env data s)"
  by (simp add: handle_transport_data_def fold_rel split: sum.split)

lemma r_scan_replies [simp]: "R s (snd (scan_replies env i replies s))"
proof (induction replies arbitrary: s)
  case (Cons reply replies)
  then show ?case by (auto intro: trans [OF r_dispatch_reply])
qed simp

lemma r_read_reply [simp]: "R s (snd (read_reply_with_timeout env i frames s))"
proof (induction frames arbitrary: s)
  case (Cons frame frames)
  have "R s (snd (read_reply_with_timeout env i frames (snd (scan_replies env i replies s))))" for replies
    by (rule trans [OF r_scan_replies Cons])
  moreover have "R s t" if "scan_replies env i replies s = (res, t)" for replies res t
    using r_scan_replies [of s i replies] that by simp
  ultimately show ?case
    by (auto split: option.split transport_frame.split sum.split prod.split)
      (metis snd_conv)
qed simp

subsection \<open>The connect cycle\<close>

lemma r_handshake_data [simp]: "R s (handshake_data s)"
  by (auto simp: handshake_data_def same_core_def intro!: core trans [OF tick emit_err]
      split: option.split sum.split)

lemma r_do_handshake [simp]: "R s (snd (do_handshake env frames s))"
proof -
  let ?t = "snd (next_cmd_id (handshake_data s))"
  have t: "R s ?t" by (rule trans [OF r_handshake_data]) simp
  have u: "R s (snd (send_command env cmd ?t))" for cmd by (rule trans [OF t]) simp
  have "R s (snd (read_reply_with_timeout env i frames (snd (send_command env cmd ?t))))" for i cmd
    by (rule trans [OF u r_read_reply])
  with u show ?thesis
    by (simp add: do_handshake_def Let_def case_prod_beta split: sum.split unit.split)
qed

lemma r_on_handshake_failure [simp]: "R s (on_handshake_failure env err s)"
proof -
  have "R s (s\<lparr>a_sink := None, a_stream := None\<rparr>)" by (rule core) (simp add: same_core_def)
  then have t: "R s (emit_error msg (s\<lparr>a_sink := None, a_stream := None\<rparr>))" for msg
    by (rule trans) simp
  have "R s (emit_error msg (s\<lparr>a_sink := None, a_stream := None\<rparr>)\<lparr>a_refresh_required := True\<rparr>)" for msg
    by (rule then_core [OF t]) (simp add: same_core_def)
  with t then_disconnect [OF t] show ?thesis
    by (cases err) (simp_all add: on_handshake_failure_def Let_def)
qed

lemma r_refresh_token_if_needed [simp]: "R s (snd (refresh_token_if_needed env s))"
proof -
  obtain res t where d: "do_token_refresh s = (res, t)" by fastforce
  with r_do_token_refresh [of s] have t: "R s t" by simp
  then have "R s (t\<lparr>a_refresh_required := False\<rparr>)" "R s (emit_error msg t)" for msg
    by (auto simp: same_core_def intro: then_core trans)
  with then_disconnect [OF t] show ?thesis
    by (simp add: refresh_token_if_needed_def d split: sum.split unit.split)
qed

lemma r_open_transport [simp]: "R s (snd (open_transport env s))"
proof -
  have "R s (emit_error msg (step_tick s))" for msg by (rule trans [OF tick]) simp
  then show ?thesis
    by (auto simp: open_transport_def same_core_def intro: core split: option.split)
qed

subsection \<open>Commands\<close>

lemma then_answer: "R s t \<Longrightarrow> kind_of x = k \<Longrightarrow> Q k r s (answer (Some r) x t)"
  using take_left take_answer by blast

lemma answer_now: "kind_of x = k \<Longrightarrow> Q k r s (answer (Some r) x s)"
  using take_answer by blast

lemma take_registered:
  assumes "R s t" and "pending_sender req = Some r" and "kind_of v = pending_kind req"
  shows "Q (pending_kind req) r s (snd (send_command env cmd (register req t)))"
    and "Q (pending_kind req) r s (answer (Some r) v
      (remove_pending (a_next_id t) (snd (send_command env cmd (register req t)))))"
proof -
  let ?u = "snd (send_command env cmd (register req t))"
  have "Q (pending_kind req) r s (register req t)"
    by (rule take_left [OF assms(1) take_pending [OF assms(2)]])
  then show u: "Q (pending_kind req) r s ?u" by (rule take_right) simp
  have "hm_get (a_pending ?u) (a_next_id t) = Some req" by (simp add: register_def track_def)
  from settle_pending [OF this refl assms(3)]
  have "R ?u (answer (Some r) v (remove_pending (a_next_id t) ?u))" by (simp add: assms(2))
  with u show "Q (pending_kind req) r s (answer (Some r) v (remove_pending (a_next_id t) ?u))"
    by (rule take_right)
qed

lemmas send_registered = take_registered [unfolded register_def track_def]

lemma q_handle_connect: "Q UnitReply r s (handle_connect r s)"
proof -
  have "Q UnitReply r s (move_to_connecting code reason
      (s\<lparr>a_connect_requested := True, a_connect_waiters := a_connect_waiters s @ [r]\<rparr>))" for code reason
  proof -
    have "R s (s\<lparr>a_connect_requested := True\<rparr>)" by (rule core) (simp add: same_core_def)
    from take_left [OF this take_connect]
    have "Q UnitReply r s (s\<lparr>a_connect_requested := True, a_connect_waiters := a_connect_waiters s @ [r]\<rparr>)" by simp
    then show ?thesis by (rule take_right) simp
  qed
  then show ?thesis
    by (simp add: handle_connect_def take_connect answer_now split: client_state.split)
qed

lemma q_handle_new_subscription: "Q UnitReply r s (handle_new_subscription ch config r s)"
  by (auto simp: handle_new_subscription_def new_sub_state_def hm_keys_iff_get
      intro!: answer_now then_answer new_sub split: option.split)

lemma q_list_subscriptions: "Q ListReply r s (list_subscriptions env r s)"
  unfolding list_subscriptions_def by (rule then_answer) simp_all

lemma q_handle_subscribe: "Q UnitReply r s (handle_subscribe env ch r s)"
proof (cases "hm_get (a_subs s) ch")
  case None
  then show ?thesis by (simp add: handle_subscribe_def answer_now)
next
  case (Some sub)
  let ?sub = "sub\<lparr>ss_state := Subscribing, ss_attempts := 0\<rparr>"
  let ?t = "sub_emit ?sub (SE_Subscribing SUBSCRIBE_CALLED ''subscribe called'') (put_sub ch ?sub s)"
  let ?w = "\<lambda>sub. sub\<lparr>ss_waiters := ss_waiters sub @ [r]\<rparr>"
  have "R s (sub_emit sub (SE_Subscribing SUBSCRIBE_CALLED ''subscribe called'') (put_sub ch ?sub s))"
    by (rule tell_sub) (simp_all add: Some)
  then have t: "R s ?t" by (simp add: sub_emit_def)
  have wait: "Q UnitReply r s (put_sub ch (?w sub) s)" if "ss_state sub \<noteq> Subscribed"
    by (rule take_sub [OF Some]) (simp_all add: that)
  have later: "Q UnitReply r s (put_sub ch (?w ?sub) ?t)" by (rule take_left [OF t take_sub [where sub = ?sub]]) simp_all
  have t': "R s (snd (next_cmd_id ?t))" by (rule trans [OF t]) simp
  note sent = send_registered [OF t, of "PSubscribe ch (Some r)" r "RUnit v" for v, simplified]
  from Some wait later sent answer_now then_answer [OF t'] show ?thesis
    by (simp add: handle_subscribe_def Let_def case_prod_beta split: option.split sum.split unit.split)
qed

lemma q_handle_unsubscribe: "Q UnitReply r s (handle_unsubscribe env ch r s)"
proof (cases "hm_get (a_subs s) ch")
  case None
  then show ?thesis by (simp add: handle_unsubscribe_def answer_now)
next
  case (Some sub)
  let ?t = "sub_emit sub (SE_Unsubscribed UNSUBSCRIBE_CALLED ''unsubscribe called'')
    (put_sub ch (sub\<lparr>ss_state := Unsubscribed, ss_attempts := 0\<rparr>) s)"
  have t: "R s ?t" by (rule tell_sub) (simp_all add: Some)
  have "R s (snd (send_command env cmd (snd (next_cmd_id ?t))))" for cmd
    by (rule trans [OF t trans [OF r_next_id r_send_command]])
  note u = then_answer [OF this, of "RUnit v" UnitReply for v, simplified]
  have "Q UnitReply r s (on_transport_close env info (answer (Some r) (RUnit v)
      (snd (send_command env cmd (snd (next_cmd_id ?t))))))" for cmd info v
    by (rule take_right [OF u r_on_transport_close])
  with Some u then_answer [OF t] show ?thesis
    by (simp add: handle_unsubscribe_def Let_def case_prod_beta split: sum.split unit.split)
qed

lemma q_handle_remove: "Q UnitReply r s (handle_remove_subscription env ch r s)"
proof (cases "hm_get (a_subs s) ch")
  case None
  then show ?thesis by (simp add: handle_remove_subscription_def answer_now)
next
  case (Some sub)
  let ?s = "s\<lparr>a_subs := hm_remove ch (a_subs s)\<rparr>"
  let ?t = "sub_emit sub (SE_Unsubscribed UNSUBSCRIBE_CALLED ''unsubscribe called'')
    (answer_all (ss_waiters sub) (RUnit (Inl SubscriptionUnsubscribed)) ?s)"
  have t: "R s ?t" by (rule remove_tell [OF Some]) simp
  have "R s (snd (send_command env cmd (snd (next_cmd_id ?t))))" for cmd
    by (rule trans [OF t trans [OF r_next_id r_send_command]])
  with Some then_answer [OF t] then_answer [OF this] take_remove [OF Some] show ?thesis
    by (simp add: handle_remove_subscription_def Let_def case_prod_beta drop_all_def)
qed

lemma q_send_request: "Q MessageReply r s (send_request_command env cmd (PRequest (Some r)) s)"
  using send_registered [OF refl, of "PRequest (Some r)" r "RReply v" s for v, simplified]
  by (simp add: send_request_command_def Let_def case_prod_beta answer_now split: option.split sum.split unit.split)

lemma r_handle_request_timeout [simp]: "R s (handle_request_timeout env i s)"
proof (cases "hm_get (a_pending s) i")
  case None
  then show ?thesis by (simp add: handle_request_timeout_def)
next
  case (Some req)
  obtain ch t where f: "fail_request req Timeout (remove_pending i s) = (ch, t)" by fastforce
  with fail_pending [OF Some, of Timeout] have t: "R s t" by simp
  have "R s (on_transport_close env info (answer_all (ss_waiters sub) (RUnit v)
      (put_sub c (sub\<lparr>ss_waiters := []\<rparr>) t)))" if "hm_get (a_subs t) c = Some sub" for c sub info v
    by (rule trans [OF then_settle_keep [OF t that] r_on_transport_close])
  with t show ?thesis
    by (simp add: handle_request_timeout_def Some f split: option.split)
qed

text \<open>A command that brings a caller takes exactly that caller; any other command takes none.\<close>

lemma command_without_caller:
  "command_channel cmd = None \<Longrightarrow> (\<And>ch tx. cmd = SetSubEventChannel ch tx \<Longrightarrow> ok ch tx) \<Longrightarrow>
   R s (handle_command env cmd s)"
  by (cases cmd) (auto simp: same_core_def intro: core attach_sub event_channel split: option.split)

lemma command_with_caller: "command_channel cmd = Some (k, r) \<Longrightarrow> Q k r s (handle_command env cmd s)"
  by (cases cmd) (auto simp: q_handle_connect q_handle_new_subscription q_list_subscriptions
      q_handle_subscribe q_handle_unsubscribe q_handle_remove q_send_request answer_now then_answer)

subsection \<open>Sequences of commands\<close>

text \<open>The relation of a step that takes in a list of callers, one after the other.\<close>

fun takes :: "(reply_kind \<times> nat) list \<Rightarrow> actor \<Rightarrow> actor \<Rightarrow> bool" where
  "takes [] s t = R s t"
| "takes (c # cs) s t = (\<exists>u. Q (fst c) (snd c) s u \<and> takes cs u t)"

lemma takes_left: "R s t \<Longrightarrow> takes cs t u \<Longrightarrow> takes cs s u"
  by (cases cs) (auto intro: trans take_left)

lemma takes_right: "takes cs s t \<Longrightarrow> R t u \<Longrightarrow> takes cs s u"
  by (induction cs arbitrary: s) (auto intro: trans)

lemma takes_append: "takes cs s t \<Longrightarrow> takes cs' t u \<Longrightarrow> takes (cs @ cs') s u"
  by (induction cs arbitrary: s) (auto intro: takes_left)

lemma takes_command: "attaches ok [cmd] \<Longrightarrow> takes (channels_of [cmd]) s (handle_command env cmd s)"
proof (cases "command_channel cmd")
  case None
  assume "attaches ok [cmd]"
  with None show ?thesis by (simp add: attaches_def) (rule command_without_caller, simp_all)
next
  case (Some c)
  then show ?thesis
    by (cases c) (auto intro: command_with_caller exI [of _ "handle_command env cmd s"])
qed

lemma takes_backoff: "attaches ok (backoff_commands env cmds s) \<Longrightarrow>
    takes (channels_of (backoff_commands env cmds s)) s (snd (wait_backoff env cmds s))"
proof (induction cmds arbitrary: s)
  case (Cons c cmds)
  show ?case
  proof (cases c)
    case (Some cmd)
    let ?s = "handle_command env cmd s"
    have cmd: "takes (channels_of [cmd]) s ?s"
      by (rule takes_command) (use Cons.prems Some in \<open>auto simp: attaches_def\<close>)
    moreover have "takes (channels_of ([cmd] @ backoff_commands env cmds ?s)) s (snd (wait_backoff env cmds ?s))"
      if "a_state ?s = Connecting"
      unfolding channels_of_simps(3)
      by (rule takes_append [OF cmd Cons.IH]) (use Cons.prems Some that in \<open>simp add: attaches_def\<close>)
    ultimately show ?thesis by (simp add: Let_def Some)
  qed simp
qed simp

end

section \<open>Steps\<close>

text \<open>Attempts, events and whole steps.\<close>

context actor_relation
begin

lemma r_on_handshake_success [simp]: "R s (on_handshake_success env result s)"
  unfolding on_handshake_success_def
  by (intro trans [OF _ r_drain_connect] trans [OF _ r_resubscribe_all]
      trans [OF _ r_schedule_token_refresh] trans [OF _ r_process_server_subs] to_connected)

text \<open>What an attempt does once its backoff is over.\<close>

lemma r_attempt_after_backoff [simp]: "R s (attempt_after_backoff env frames s)"
proof -
  have a: "R s (s\<lparr>a_reconnect_attempts := n\<rparr>)" for n
    by (rule core) (simp add: same_core_def)
  let ?b = "snd (refresh_token_if_needed env (s\<lparr>a_reconnect_attempts := a_reconnect_attempts s + 1\<rparr>))"
  have b: "R s ?b" by (rule trans [OF a r_refresh_token_if_needed])
  let ?c = "snd (open_transport env ?b)"
  have c: "R s ?c" by (rule trans [OF b]) simp
  let ?d = "snd (do_handshake env frames ?c)"
  have d: "R s ?d" by (rule trans [OF c]) simp
  have "R s (on_handshake_success env result ?d)" "R s (on_handshake_failure env e ?d)" for result e
    by (rule trans [OF d], simp)+
  with b c show ?thesis
    by (simp add: attempt_after_backoff_def Let_def case_prod_beta split: sum.split)
qed

lemma r_data_received: "R s ((step_tick s)\<lparr>a_last_data_received := d\<rparr>)"
  by (rule trans [OF tick data_received])

lemma r_enter_connected_loop [simp]: "R s (enter_connected_loop env s)"
  by (simp add: enter_connected_loop_def r_data_received)

lemma takes_attempt: "attaches ok (attempt_commands env cmds s) \<Longrightarrow>
    takes (channels_of (attempt_commands env cmds s)) s (connect_attempt env cmds frames s)"
proof -
  assume ok: "attaches ok (attempt_commands env cmds s)"
  let ?w = "wait_backoff env cmds (step_tick s)"
  have w: "takes (channels_of (backoff_commands env cmds (step_tick s))) s (snd ?w)" if "a_reconnect_attempts s > 0"
    by (rule takes_left [OF tick takes_backoff]) (use ok that in \<open>simp add: attempt_commands_def\<close>)
  show ?thesis
    using w takes_right [OF w r_attempt_after_backoff]
    by (simp add: connect_attempt_def attempt_commands_def case_prod_beta Let_def)
qed

lemma r_event: "(\<And>c. ev \<noteq> InCommand (Some c)) \<Longrightarrow> R s (handle_connected_event env ev s)"
  by (cases "(env, ev, s)" rule: handle_connected_event.cases)
    (auto intro: trans [OF r_data_received r_handle_transport_data])

lemma takes_step: "actor_step env cmds s t \<Longrightarrow> attaches ok cmds \<Longrightarrow> takes (channels_of cmds) s t"
proof (induction rule: actor_step.induct)
  case (command s cmd)
  then show ?case by (simp only: takes_command)
next
  case (attempt s s' cmds frames)
  then show ?case
    using takes_attempt takes_right [OF takes_attempt r_enter_connected_loop] by simp
next
  case (connected_command s c)
  show ?case
  proof (cases c)
    case (Some cmd)
    with connected_command takes_command [of cmd s] show ?thesis
      by (simp only: option.case handle_connected_event.simps)
  qed simp
next
  case (deadline s)
  show ?case
    by (simp only: channels_of_simps takes.simps) (rule trans [OF tick r_event], simp)
qed (simp_all add: r_event)

end

text \<open>
  A relation of the form \<open>inv s \<longrightarrow> inv t\<close> carries an invariant through a run.
\<close>

locale actor_invariant = actor_relation env "\<lambda>s t. inv s \<longrightarrow> inv t" "\<lambda>k r s t. inv s \<longrightarrow> inv t" "\<lambda>ch tx. True"
  for env :: env and inv :: "actor \<Rightarrow> bool"
begin

lemma inv_takes: "takes cs s t \<Longrightarrow> inv s \<Longrightarrow> inv t"
  by (induction cs arbitrary: s) auto

lemma inv_reachable: "reachable env config cmds s \<Longrightarrow> inv (new_actor config) \<Longrightarrow> inv s"
  by (induction rule: reachable.induct) (auto dest: inv_takes takes_step)

end

locale field_invariant = actor_fields env "\<lambda>s t. inv s \<longrightarrow> inv t" "\<lambda>k r s t. inv s \<longrightarrow> inv t"
  for env :: env and inv :: "actor \<Rightarrow> bool"

sublocale field_invariant \<subseteq> actor_invariant
  by unfold_locales

section \<open>Runs from any state\<close>

text \<open>The states a run comes to from a given one, with commands that all satisfy \<open>P\<close>.\<close>

inductive runs :: "env \<Rightarrow> (actor_command \<Rightarrow> bool) \<Rightarrow> actor \<Rightarrow> actor \<Rightarrow> bool" for env P where
  here: "runs env P s s"
| onward: "runs env P s t \<Longrightarrow> actor_step env cmds t u \<Longrightarrow> \<forall>c \<in> set cmds. P c \<Longrightarrow> runs env P s u"

lemma reachable_runs: "runs env P s t \<Longrightarrow> reachable env config cmds s \<Longrightarrow> \<exists>cmds'. reachable env config cmds' t"
  by (induction rule: runs.induct) (auto intro: reachable.step)

lemma runs_step: "actor_step env cmds s t \<Longrightarrow> \<forall>c \<in> set cmds. P c \<Longrightarrow> runs env P s t"
  by (rule runs.onward [OF runs.here])

end
