(* ===== verification/Run.thy ===== *)
theory Run
  imports Frames
begin

text \<open>
  One run of the actor against a concrete JSON server, evaluated step by step: connect, register the
  channel \<open>news\<close>, subscribe to it, receive the reply. It shows that the model reaches a connected
  client with a subscribed channel; witnesses apply properties to its states.
\<close>

section \<open>Maps of one entry\<close>

lemma hm_overwrite_one [simp]: "hm_insert k v (hm_insert k v' hm_empty) = hm_insert k v hm_empty"
  unfolding hm_insert_def hm_empty_def
  by (simp add: DAList.impl_of_inject [symmetric] DAList.update.rep_eq DAList.empty.rep_eq)

lemma hm_remove_one [simp]: "hm_remove k (hm_insert k v hm_empty) = hm_empty"
  unfolding hm_insert_def hm_remove_def hm_empty_def
  by (simp add: DAList.impl_of_inject [symmetric] DAList.update.rep_eq DAList.delete.rep_eq
      DAList.empty.rep_eq)

section \<open>The server\<close>

text \<open>The document \<open>0\<close> is the connect reply, any other the reply to the subscribe command.\<close>

definition demo_reply :: "nat list \<Rightarrow> proto_reply" where
  "demo_reply t =
     (if t = [48] then default_reply\<lparr>rp_id := 1, rp_connect := Some default_connect_result\<rparr>
      else default_reply\<lparr>rp_id := 2, rp_subscribe := Some default_subscribe_result\<rparr>)"

definition demo_env :: env where
  "demo_env = sample_env\<lparr>env_codec := sample_codec\<lparr>json_from_str := (\<lambda>t. Inr (demo_reply t))\<rparr>\<rparr>"

lemma demo_env_simps [simp]:
  "env_send demo_env t d = None" "env_connect demo_env t = None" "env_order demo_env t = []"
  "env_now demo_env t = t * 1000000000" "env_rand demo_env t n = 0"
  "encode_commands (env_codec demo_env) Json [cmd] = Inr [123, 125]"
  "decode_replies (env_codec demo_env) Json [48] = Inr [demo_reply [48]]"
  "decode_replies (env_codec demo_env) Json [49] = Inr [demo_reply [49]]"
  by (simp_all add: demo_env_def encode_commands_def json_encode_commands_def sample_codec_def
      decode_replies_def json_decode_replies_def trim_def is_white_space_def)

section \<open>The states\<close>

definition demo_connecting :: actor where
  "demo_connecting = (new_actor default_client_config)\<lparr>a_state := Connecting, a_shared_state := 1,
     a_connect_requested := True, a_connect_waiters := [7]\<rparr>"

definition demo_connected :: actor where
  "demo_connected = (new_actor default_client_config)\<lparr>a_state := Connected, a_shared_state := 2,
     a_connect_requested := True, a_sink := Some 0, a_stream := Some 0, a_next_id := 2, a_ids := 1,
     a_last_data_received := 6000000000, a_tick := 7,
     a_log := [Write 0 [123, 125], Answer 7 (RUnit (Inr ()))]\<rparr>"

definition news_sub :: sub_state where
  "news_sub = new_sub_state default_subscription_config"

definition demo_registered :: actor where
  "demo_registered = demo_connected\<lparr>a_subs := hm_insert ''news'' news_sub hm_empty,
     a_log := a_log demo_connected @ [Answer 8 (RUnit (Inr ()))]\<rparr>"

definition demo_subscribing :: actor where
  "demo_subscribing = demo_registered\<lparr>a_next_id := 3, a_ids := 2,
     a_subs := hm_insert ''news'' (news_sub\<lparr>ss_state := Subscribing, ss_attempts := 0\<rparr>) hm_empty,
     a_pending := hm_insert 2 (PSubscribe ''news'' (Some 9)) hm_empty, a_tick := 8,
     a_log := a_log demo_registered @ [Schedule (from_secs 5) (RequestTimeout 2), Write 0 [123, 125]]\<rparr>"

definition demo_subscribed :: actor where
  "demo_subscribed = demo_subscribing\<lparr>
     a_subs := hm_insert ''news'' (news_sub\<lparr>ss_state := Subscribed, ss_attempts := 0,
       ss_delta_negotiated := False, ss_waiters := []\<rparr>) hm_empty,
     a_pending := hm_empty, a_last_data_received := 8000000000, a_tick := 9,
     a_log := a_log demo_subscribing @ [Answer 9 (RUnit (Inr ()))]\<rparr>"

lemmas demo_states = demo_connecting_def demo_connected_def demo_registered_def demo_subscribing_def
  demo_subscribed_def new_actor_def

lemma news_sub_simps [simp]:
  "ss_state news_sub = Unsubscribed" "ss_event_tx news_sub = None" "ss_waiters news_sub = []"
  "ss_config news_sub = default_subscription_config" "ss_attempts news_sub = 0"
  "ss_offset news_sub = 0" "ss_recover news_sub = False" "ss_epoch news_sub = []"
  by (simp_all add: news_sub_def new_sub_state_def default_subscription_config_def)

section \<open>The steps\<close>

lemma demo_connect: "handle_command demo_env (Connect 7) (new_actor default_client_config) = demo_connecting"
  by (simp add: demo_states handle_connect_def move_to_connecting_def actor_ops)

lemma demo_handshake:
  assumes "a_config s = default_client_config" and "a_next_id s = 1" and "a_ids s = 0"
    and "\<not> a_batch_active s" and "a_sink s = Some c" and "a_stream s = Some c"
  shows "do_handshake demo_env [Some (FrameData [48])] s
    = (Inr default_connect_result, perform (Write c [123, 125]) (step_tick (s\<lparr>a_next_id := 2, a_ids := 1\<rparr>)))"
proof -
  have "handshake_data s = s"
    using assms(1) by (simp add: handshake_data_def default_client_config_def)
  moreover have "protocol_of s = Json"
    using assms(1) by (simp add: protocol_of_def default_client_config_def)
  ultimately show ?thesis using assms(2-)
    by (simp add: do_handshake_def next_cmd_id_def send_command_def sink_send_def protocol_of_def
        demo_reply_def connect_reply_result_def default_reply_def split: unit.split)
qed

lemma demo_attempt:
  "enter_connected_loop demo_env (connect_attempt demo_env [] [Some (FrameData [48])] demo_connecting) = demo_connected"
  "a_state (connect_attempt demo_env [] [Some (FrameData [48])] demo_connecting) = Connected"
proof -
  let ?u = "demo_connecting\<lparr>a_reconnect_attempts := 1\<rparr>"
  let ?t = "(step_tick ?u)\<lparr>a_sink := Some 0, a_stream := Some 0\<rparr>"
  have r: "refresh_token_if_needed demo_env ?u = (True, ?u)"
    by (simp add: refresh_token_if_needed_def demo_states default_client_config_def)
  have t: "open_transport demo_env ?u = (True, ?t)"
    by (simp add: open_transport_def demo_states)
  have h: "do_handshake demo_env [Some (FrameData [48])] ?t
      = (Inr default_connect_result, perform (Write 0 [123, 125]) (step_tick (?t\<lparr>a_next_id := 2, a_ids := 1\<rparr>)))"
    by (rule demo_handshake) (simp_all add: demo_states)
  have a: "connect_attempt demo_env [] [Some (FrameData [48])] demo_connecting
      = on_handshake_success demo_env default_connect_result
          (perform (Write 0 [123, 125]) (step_tick (?t\<lparr>a_next_id := 2, a_ids := 1\<rparr>)))"
  proof -
    have "demo_connecting\<lparr>a_reconnect_attempts := a_reconnect_attempts demo_connecting + 1\<rparr> = ?u"
      "a_reconnect_attempts demo_connecting = 0" by (simp_all add: demo_states)
    with r t h show ?thesis by (simp add: connect_attempt_def attempt_after_backoff_def)
  qed
  show "enter_connected_loop demo_env (connect_attempt demo_env [] [Some (FrameData [48])] demo_connecting)
      = demo_connected"
    unfolding a
    by (simp add: on_handshake_success_def move_to_connected_def process_server_subs_def Let_def
        enter_connected_loop_def resubscribe_all_def schedule_token_refresh_def for_keys_def
        default_connect_result_def drain_connect_waiters_def actor_ops demo_states answer_all_def)
  then have "a_state (enter_connected_loop demo_env
      (connect_attempt demo_env [] [Some (FrameData [48])] demo_connecting)) = Connected"
    by (simp add: demo_states)
  then show "a_state (connect_attempt demo_env [] [Some (FrameData [48])] demo_connecting) = Connected"
    by (simp add: enter_connected_loop_def)
qed

lemma demo_register:
  "handle_command demo_env (NewSubscription ''news'' default_subscription_config 8) demo_connected = demo_registered"
  by (simp add: demo_states handle_new_subscription_def news_sub_def [symmetric] actor_ops)

lemma demo_subscribe: "handle_command demo_env (Subscribe ''news'' 9) demo_registered = demo_subscribing"
  by (simp add: demo_states handle_subscribe_def actor_ops build_subscribe_command_def send_command_def
      sink_send_def protocol_of_def default_client_config_def schedule_request_timeout_def Let_def
      split: unit.split)

lemma demo_reply_event:
  "handle_connected_event demo_env (InFrame (Some (FrameData [49]))) demo_subscribing = demo_subscribed"
  by (simp add: demo_states actor_ops handle_transport_data_def demo_reply_def dispatch_reply_def
      protocol_of_def default_client_config_def resolve_subscribe_def default_reply_def Let_def
      handle_subscribe_success_def recovering_def subscribed_sub_def default_subscribe_result_def
      answer_all_def)

section \<open>The run\<close>

abbreviation demo_commands :: "actor_command list" where
  "demo_commands \<equiv> [Connect 7, NewSubscription ''news'' default_subscription_config 8, Subscribe ''news'' 9]"

lemma demo_reachable:
  "reachable demo_env default_client_config (take 1 demo_commands) demo_connecting"
  "reachable demo_env default_client_config (take 1 demo_commands) demo_connected"
  "reachable demo_env default_client_config (take 2 demo_commands) demo_registered"
  "reachable demo_env default_client_config demo_commands demo_subscribing"
  "reachable demo_env default_client_config demo_commands demo_subscribed"
proof -
  have connected: "a_state demo_connected = Connected" "a_state demo_registered = Connected"
    "a_state demo_subscribing = Connected" "a_stream demo_subscribing \<noteq> None"
    "a_state demo_connecting = Connecting" "a_reconnect_attempts demo_connecting = 0"
    by (simp_all add: demo_states)
  have "actor_step demo_env [Connect 7] (new_actor default_client_config)
      (handle_command demo_env (Connect 7) (new_actor default_client_config))"
    by (rule actor_step.command) (simp add: new_actor_def)
  from reachable.step [OF reachable.start this]
  show a: "reachable demo_env default_client_config (take 1 demo_commands) demo_connecting"
    unfolding demo_connect by simp
  from actor_step.attempt [OF connected(5) refl, of demo_env "[]" "[Some (FrameData [48])]"]
  have s: "actor_step demo_env [] demo_connecting demo_connected"
    unfolding demo_attempt by (simp add: attempt_commands_def connected(6))
  from reachable.step [OF a s]
  show b: "reachable demo_env default_client_config (take 1 demo_commands) demo_connected" by simp
  from actor_step.connected_command [OF connected(1), of demo_env
      "Some (NewSubscription ''news'' default_subscription_config 8)"]
  have s: "actor_step demo_env [NewSubscription ''news'' default_subscription_config 8] demo_connected demo_registered"
    by (simp only: handle_connected_event.simps demo_register) simp
  from reachable.step [OF b s]
  show c: "reachable demo_env default_client_config (take 2 demo_commands) demo_registered" by simp
  from actor_step.connected_command [OF connected(2), of demo_env "Some (Subscribe ''news'' 9)"]
  have s: "actor_step demo_env [Subscribe ''news'' 9] demo_registered demo_subscribing"
    by (simp only: handle_connected_event.simps demo_subscribe) simp
  from reachable.step [OF c s]
  show d: "reachable demo_env default_client_config demo_commands demo_subscribing" by simp
  from actor_step.frame [OF connected(3,4), of demo_env "Some (FrameData [49])"]
  have "actor_step demo_env [] demo_subscribing demo_subscribed"
    unfolding demo_reply_event .
  from reachable.step [OF d this]
  show "reachable demo_env default_client_config demo_commands demo_subscribed" by simp
qed

end
