(* ===== verification/Callers.thy ===== *)
theory Callers
  imports HandlerLaws Run
begin

text \<open>
  Who waits for an answer. Every command with a reply channel brings a caller; at any time a caller is
  in one of three places, the list of connect waiters, the waiters of a subscription, a pending
  request, or it has been settled: answered, or its sender dropped. The two interpretations below
  show that a step moves callers between these places and neither loses nor repeats one.
\<close>

section \<open>Waiting and settled\<close>

definition sender_mset :: "sender \<Rightarrow> nat multiset" where
  "sender_mset w = (case w of Some r \<Rightarrow> {#r#} | None \<Rightarrow> {#})"

definition waiting :: "actor \<Rightarrow> nat multiset" where
  "waiting s = mset (a_connect_waiters s) + hm_sum (\<lambda>sub. mset (ss_waiters sub)) (a_subs s)
     + hm_sum (\<lambda>req. sender_mset (pending_sender req)) (a_pending s)"

fun settles :: "effect \<Rightarrow> nat multiset" where
  "settles (Answer r v) = {#r#}"
| "settles (DropSender r) = {#r#}"
| "settles _ = {#}"

definition settled :: "actor \<Rightarrow> nat multiset" where
  "settled s = sum_list (map settles (a_log s))"

definition callers :: "actor \<Rightarrow> nat multiset" where
  "callers s = waiting s + settled s"

lemma sender_mset_simps [simp]: "sender_mset None = {#}" "sender_mset (Some r) = {#r#}"
  by (simp_all add: sender_mset_def)

lemma settled_perform [simp]: "settled (perform e s) = settled s + settles e"
  by (simp add: settled_def)

lemma settled_answer [simp]: "settled (answer w v s) = settled s + sender_mset w"
  by (simp add: answer_def split: option.split)

lemma settled_drop [simp]: "settled (drop_sender w s) = settled s + sender_mset w"
  by (simp add: drop_sender_def split: option.split)

lemma settled_fold:
  "(\<And>w s. settled (f w s) = settled s + {#w#}) \<Longrightarrow> settled (fold f ws s) = settled s + mset ws"
  by (induction ws arbitrary: s) simp_all

lemma settled_answer_all [simp]: "settled (answer_all ws v s) = settled s + mset ws"
  by (simp add: answer_all_def settled_fold)

lemma settled_drop_all [simp]: "settled (drop_all ws s) = settled s + mset ws"
  by (simp add: drop_all_def settled_fold)

lemma settled_frame [simp]:
  "settled (put_sub ch sub s) = settled s" "settled (remove_pending i s) = settled s"
  "settled (s\<lparr>a_subs := m\<rparr>) = settled s" "settled (s\<lparr>a_connect_waiters := ws\<rparr>) = settled s"
  by (simp_all add: settled_def)

lemma settled_insert_pending [simp]: "settled (insert_pending i req s) = settled s +
    (case hm_get (a_pending s) i of None \<Rightarrow> {#} | Some old \<Rightarrow> sender_mset (pending_sender old))"
  by (simp add: insert_pending_def settled_def Let_def drop_sender_def split: option.split)

lemma waiting_log [simp]: "waiting (perform e s) = waiting s" "waiting (answer w v s) = waiting s"
  "waiting (answer_all ws v s) = waiting s" "waiting (drop_all ws s) = waiting s"
  by (simp_all add: waiting_def)

lemma silent_settles: "silent e \<Longrightarrow> settles e = {#}"
  by (cases e) simp_all

lemma callers_answer: "callers (answer w v s) = callers s + sender_mset w"
  by (simp add: callers_def)

lemma callers_remove_pending: "hm_get (a_pending s) i = Some req \<Longrightarrow>
    callers s = callers (remove_pending i s) + sender_mset (pending_sender req)"
  using hm_sum_remove_Some [of "a_pending s" i req "\<lambda>req. sender_mset (pending_sender req)"]
  by (simp add: callers_def waiting_def ac_simps)

lemma callers_track: "callers (track req s) = callers s + sender_mset (pending_sender req)"
  using hm_sum_insert [of "\<lambda>req. sender_mset (pending_sender req)" "a_next_id s" req "a_pending s"]
  by (simp add: track_def callers_def waiting_def settled_def [of "snd (next_cmd_id s)"] settled_def [of s] ac_simps
      split: option.splits)

lemma callers_timeout: "callers (schedule_request_timeout i s) = callers s"
  by (simp add: schedule_request_timeout_def schedule_def callers_def)

interpretation calls: actor_fields env
  "\<lambda>s t. callers t = callers s" "\<lambda>k r s t. callers t = add_mset r (callers s)" for env
proof
  fix s t u :: actor and r i :: nat and e x st cmd tx ev
  show "same_core s t \<Longrightarrow> callers t = callers s"
    by (simp add: same_core_def callers_def waiting_def settled_def)
  show "silent e \<Longrightarrow> callers (perform e s) = callers s"
    by (simp add: callers_def silent_settles)
  show "callers (perform (EmitClient tx ev) s) = callers s" "callers (perform (EmitSub tx sev) s) = callers s" for sev
    by (simp_all add: callers_def)
  show "callers (s\<lparr>a_client_event_tx := Some tx\<rparr>) = callers s"
    by (simp add: callers_def waiting_def settled_def)
  show "callers (snd (send_command env cmd s)) = callers s"
    by (auto simp: send_command_def sink_send_def callers_def waiting_def settled_def step_tick_def
        perform_def split: sum.split option.split)
  show "callers (flush_batch env s) = callers s"
    by (auto simp: flush_batch_def sink_send_def callers_def waiting_def settled_def step_tick_def
        perform_def Let_def split: option.split)
  show "callers (s\<lparr>a_batch_queue := []\<rparr>) = callers s"
    by (simp add: callers_def waiting_def settled_def)
  show "callers (snd (next_cmd_id s)) = callers s"
    by (simp add: callers_def waiting_def settled_def)
  show "callers (s\<lparr>a_ping_interval := p, a_last_data_received := d\<rparr>) = callers s" for p d
    by (simp add: callers_def waiting_def settled_def)
  show "callers (s\<lparr>a_state := st, a_shared_state := as_u8 st\<rparr>) = callers s"
    by (simp add: callers_def waiting_def settled_def)
  show "callers (drain_connect_waiters (RUnit v) s) = callers s" for v
    by (simp add: drain_connect_waiters_def callers_def waiting_def ac_simps)
  show "callers (answer (Some r) x s) = add_mset r (callers s)"
    by (simp add: callers_def)
  show "callers (s\<lparr>a_connect_waiters := a_connect_waiters s @ [r]\<rparr>) = add_mset r (callers s)"
    by (simp add: callers_def waiting_def)
next
  fix s t :: actor and i :: u32 and req x
  assume get: "hm_get (a_pending s) i = Some req" and t: "callers t = callers (remove_pending i s)"
  show "callers (answer (pending_sender req) x t) = callers s"
    by (simp add: callers_answer t callers_remove_pending [OF get])
next
  fix s :: actor and req
  show "callers (track req s) = callers s" if "pending_sender req = None"
    by (simp add: that callers_track)
  show "callers (register req s) = callers s" if "pending_sender req = None"
    by (simp add: that register_def callers_timeout callers_track)
  show "callers (register req s) = add_mset r (callers s)" if "pending_sender req = Some r" for r
    by (simp add: that register_def callers_timeout callers_track)
next
  fix s :: actor and i :: u32 and req
  assume "hm_get (a_pending s) i = Some req" "pending_sender req = None"
  then show "callers (remove_pending i s) = callers s"
    by (simp add: callers_remove_pending)
next
  fix s :: actor and ch and sub sub' :: sub_state
  assume "hm_get (a_subs s) ch = Some sub" "ss_waiters sub' = ss_waiters sub"
  then show "callers (put_sub ch sub' s) = callers s"
    using hm_sum_insert_same [of "a_subs s" ch sub "\<lambda>sub. mset (ss_waiters sub)" sub']
    by (simp add: callers_def waiting_def)
next
  fix s :: actor and ch and sub sub' :: sub_state and v :: "unit res"
  assume "hm_get (a_subs s) ch = Some sub" "ss_waiters sub' = []"
  then show "callers (answer_all (ss_waiters sub) (RUnit v) (put_sub ch sub' s)) = callers s"
    using hm_sum_insert_Some [of "a_subs s" ch sub "\<lambda>sub. mset (ss_waiters sub)" sub']
    by (simp add: callers_def waiting_def ac_simps)
next
  fix s :: actor and ch and sub :: sub_state
  assume "hm_get (a_subs s) ch = None" "ss_waiters sub = []"
  then show "callers (put_sub ch sub s) = callers s"
    by (simp add: callers_def waiting_def hm_sum_insert_None)
next
  fix s :: actor and ch and sub :: sub_state and v
  assume "hm_get (a_subs s) ch = Some sub"
  then show "callers (answer_all (ss_waiters sub) (RUnit v) (s\<lparr>a_subs := hm_remove ch (a_subs s)\<rparr>)) = callers s"
    using hm_sum_remove_Some [of "a_subs s" ch sub "\<lambda>sub. mset (ss_waiters sub)"]
    by (simp add: callers_def waiting_def ac_simps)
next
  fix s :: actor and ch and sub sub' :: sub_state and r
  assume "hm_get (a_subs s) ch = Some sub" "ss_waiters sub' = ss_waiters sub @ [r]"
  then show "callers (put_sub ch sub' s) = add_mset r (callers s)"
    using hm_sum_insert_Some [of "a_subs s" ch sub "\<lambda>sub. mset (ss_waiters sub)" sub']
    by (simp add: callers_def waiting_def ac_simps)
next
  fix s :: actor and ch and sub :: sub_state and v r
  assume "hm_get (a_subs s) ch = Some sub"
  then show "callers (drop_all (ss_waiters sub) (answer (Some r) (RUnit v)
      (s\<lparr>a_subs := hm_remove ch (a_subs s)\<rparr>))) = add_mset r (callers s)"
    using hm_sum_remove_Some [of "a_subs s" ch sub "\<lambda>sub. mset (ss_waiters sub)"]
    by (simp add: callers_def waiting_def ac_simps)
qed simp_all

declare calls.refl [simp del]

section \<open>Runs\<close>

lemma takes_calls: "calls.takes cs s t \<Longrightarrow> callers t = callers s + mset (map snd cs)"
  by (induction cs arbitrary: s) auto

lemma callers_new [simp]: "callers (new_actor config) = {#}"
  by (simp add: callers_def waiting_def settled_def new_actor_def)

lemma reachable_callers: "reachable env config cmds s \<Longrightarrow> waiting s + settled s = mset (callers_of cmds)"
proof (induction rule: reachable.induct)
  case start
  then show ?case using callers_new [of config] by (simp add: callers_def)
next
  case (step cmds s cmds' t)
  then show ?case
    using takes_calls [OF calls.takes_step [OF step.hyps(2) attaches_any]] by (simp add: callers_def callers_of_def)
qed



text \<open>
  So nobody is answered twice: when every command brings a reply channel of its own, each caller is
  settled at most once, does not wait after that, and until then waits in exactly one place.
\<close>

corollary settled_once:
  assumes "reachable env config cmds s" and "distinct (callers_of cmds)"
  shows "count (settled s) r \<le> 1 \<and> count (waiting s) r + count (settled s) r = (if r \<in> set (callers_of cmds) then 1 else 0)"
proof -
  have "count (waiting s) r + count (settled s) r = count (mset (callers_of cmds)) r"
    using arg_cong [OF reachable_callers [OF assms(1)], of "\<lambda>m. count m r"] by simp
  moreover have "count (mset (callers_of cmds)) r = (if r \<in> set (callers_of cmds) then 1 else 0)"
    using assms(2) by (simp add: distinct_count_atmost_1)
  ultimately show ?thesis by (auto split: if_splits)
qed

end
