(* ===== verification/Growth.thy ===== *)
theory Growth
  imports HandlerLaws "HOL-Library.Sublist"
begin

text \<open>
  The log only grows: no handler takes back what was answered, written, emitted or scheduled.
\<close>

lemma answer_all_log [simp]: "a_log (answer_all ws v s) = a_log s @ map (\<lambda>w. Answer w v) ws"
  unfolding answer_all_def by (induction ws arbitrary: s) (simp_all add: answer_def)

lemma prefix_answer_all: "prefix (a_log s) (a_log (answer_all ws v s))"
  by simp

lemma prefix_drop_all: "prefix (a_log s) (a_log (drop_all ws s))"
proof -
  have "prefix (a_log s) (a_log (fold (\<lambda>w. drop_sender (Some w)) ws s))"
  proof (induction ws arbitrary: s)
    case (Cons w ws)
    show ?case
      using Cons [of "drop_sender (Some w) s"] by (auto simp: drop_sender_def elim: append_prefixD)
  qed simp
  then show ?thesis by (simp add: drop_all_def)
qed

interpretation grows: actor_fields env
  "\<lambda>s t. prefix (a_log s) (a_log t)" "\<lambda>k r s t. prefix (a_log s) (a_log t)" for env
proof
  fix s :: actor and ch :: string and sub :: sub_state and v r
  have "prefix (a_log (answer (Some r) v (s\<lparr>a_subs := hm_remove ch (a_subs s)\<rparr>)))
      (a_log (drop_all (ss_waiters sub) (answer (Some r) v (s\<lparr>a_subs := hm_remove ch (a_subs s)\<rparr>))))"
    by (rule prefix_drop_all)
  then show "prefix (a_log s) (a_log (drop_all (ss_waiters sub)
      (answer (Some r) v (s\<lparr>a_subs := hm_remove ch (a_subs s)\<rparr>))))"
    by (simp add: answer_def append_prefixD)
next
  fix s :: actor and cmd
  show "prefix (a_log s) (a_log (snd (send_command env cmd s)))"
    by (simp add: send_command_def sink_send_def perform_def split: sum.split option.split)
  show "prefix (a_log s) (a_log (flush_batch env s))"
    by (simp add: flush_batch_def sink_send_def perform_def Let_def split: option.split)
qed (auto simp: same_core_def perform_def answer_def drain_connect_waiters_def insert_pending_def
    register_def track_def schedule_request_timeout_def schedule_def next_cmd_id_def drop_sender_def remove_pending_def put_sub_def Let_def split: option.split
    intro: prefix_order.trans)

declare grows.refl [simp del]

lemma log_mono: "prefix (a_log s) (a_log t) \<Longrightarrow> e \<in> set (a_log s) \<Longrightarrow> e \<in> set (a_log t)"
  using set_mono_prefix by blast

text \<open>
  An effect of one turn of a loop is in the log at the end: the turn comes, no earlier turn touches
  what it depends on, no later one takes anything back.
\<close>

lemma fold_logs:
  fixes f :: "'k \<Rightarrow> actor \<Rightarrow> actor"
  assumes "\<And>k s. prefix (a_log s) (a_log (f k s))" and "\<And>k s. k \<noteq> k0 \<Longrightarrow> p (f k s) = p s"
    and "\<And>s. p s = x \<Longrightarrow> e \<in> set (a_log (f k0 s))" and "k0 \<in> set ks" and "p s = x"
  shows "e \<in> set (a_log (fold f ks s))"
  using assms(4,5)
proof (induction ks arbitrary: s)
  case (Cons k ks)
  show ?case
  proof (cases "k = k0")
    case True
    then have "e \<in> set (a_log (f k s))" using assms(3) Cons.prems by simp
    moreover have "prefix (a_log (f k s)) (a_log (fold f ks (f k s)))"
      by (rule grows.fold_rel) (rule assms(1))
    ultimately show ?thesis by (simp add: log_mono)
  next
    case False
    then show ?thesis using Cons assms(2) by simp
  qed
qed simp

lemma for_keys_logs:
  assumes "\<And>k s. prefix (a_log s) (a_log (f k s))" and "\<And>k s. k \<noteq> k0 \<Longrightarrow> p (f k s) = p s"
    and "\<And>s. p s = x \<Longrightarrow> e \<in> set (a_log (f k0 s))" and "k0 \<in> set (hm_keys m)" and "p s = x"
    and "p (step_tick s) = p s"
  shows "e \<in> set (a_log (for_keys env m f s))"
  unfolding for_keys_def
  using assms by (intro fold_logs [of f k0 p x]) simp_all

text \<open>What the caller of a pending request is told when the request fails.\<close>

fun failure :: "pending_request \<Rightarrow> centrifuge_error \<Rightarrow> reply_value" where
  "failure (PRequest w) e = RReply (Inl e)"
| "failure req e = RUnit (Inl e)"

lemma fail_request_log: "pending_sender req = Some w \<Longrightarrow>
    Answer w (failure req e) \<in> set (a_log (snd (fail_request req e s)))"
  by (cases req) (simp_all add: answer_def)

end
