(* ===== verification/Transitions.thy ===== *)
theory Transitions
  imports Frames
begin

text \<open>
  What the transitions of \<open>state.rs\<close> and the loss of the transport leave behind: the fields they keep,
  and for every map they loop over the value of each entry afterwards.
\<close>

section \<open>Loops over a map\<close>

lemma for_keys_keeps:
  "(\<And>k s. p (f k s) = p s) \<Longrightarrow> p (step_tick s) = p s \<Longrightarrow> p (for_keys env m f s) = p s"
  by (simp add: for_keys_def fold_keeps)

text \<open>
  A loop that rewrites or removes the entry of its key in one map of the state: afterwards every key
  of the loop has been treated, whatever the order.
\<close>

lemma get_fold_entries:
  assumes step: "\<And>k s k'. hm_get (p (f k s)) k' = (if k' = k then g k (hm_get (p s) k) else hm_get (p s) k')"
    and "distinct ks"
  shows "hm_get (p (fold f ks s)) k = (if k \<in> set ks then g k (hm_get (p s) k) else hm_get (p s) k)"
  using \<open>distinct ks\<close> by (induction ks arbitrary: s) (auto simp: step)

lemma get_for_keys:
  assumes "\<And>k s k'. hm_get (p (f k s)) k' = (if k' = k then g k (hm_get (p s) k) else hm_get (p s) k')"
    and "p (step_tick s) = p s" and "g k None = None"
  shows "hm_get (p (for_keys env (p s) f s)) k = g k (hm_get (p s) k)"
proof -
  have "k \<notin> set (hm_keys (p s)) \<Longrightarrow> hm_get (p s) k = None"
    by (simp add: hm_keys_iff_get)
  then show ?thesis
    unfolding for_keys_def using assms(2,3)
    by (subst get_fold_entries [of p f g, OF assms(1)]) auto
qed

lemma hm_keys_Nil_iff: "hm_keys m = [] \<longleftrightarrow> (\<forall>k. hm_get m k = None)"
proof -
  have "hm_keys m = [] \<longleftrightarrow> (\<forall>k. k \<notin> set (hm_keys m))" by (cases "hm_keys m") auto
  then show ?thesis by (simp add: hm_keys_iff_get)
qed

section \<open>Kept fields\<close>

lemma fail_all_pending_frame [simp]:
  "a_config (fail_all_pending env s) = a_config s"
  "a_state (fail_all_pending env s) = a_state s"
  "a_client_id (fail_all_pending env s) = a_client_id s"
  "a_sink (fail_all_pending env s) = a_sink s"
  "a_stream (fail_all_pending env s) = a_stream s"
  "a_next_id (fail_all_pending env s) = a_next_id s"
  "a_subs (fail_all_pending env s) = a_subs s"
  "a_server_subs (fail_all_pending env s) = a_server_subs s"
  "a_ping_interval (fail_all_pending env s) = a_ping_interval s"
  "a_send_pong (fail_all_pending env s) = a_send_pong s"
  "a_last_data_received (fail_all_pending env s) = a_last_data_received s"
  "a_token_expires (fail_all_pending env s) = a_token_expires s"
  "a_token_ttl (fail_all_pending env s) = a_token_ttl s"
  "a_refresh_required (fail_all_pending env s) = a_refresh_required s"
  "a_batch_active (fail_all_pending env s) = a_batch_active s"
  "a_batch_queue (fail_all_pending env s) = a_batch_queue s"
  "a_reconnect_attempts (fail_all_pending env s) = a_reconnect_attempts s"
  "a_connect_requested (fail_all_pending env s) = a_connect_requested s"
  "a_connect_waiters (fail_all_pending env s) = a_connect_waiters s"
  "a_client_event_tx (fail_all_pending env s) = a_client_event_tx s"
  "a_shared_state (fail_all_pending env s) = a_shared_state s"
  "a_ids (fail_all_pending env s) = a_ids s"
  unfolding fail_all_pending_def by (rule for_keys_keeps; simp split: option.split)+

lemma unsubscribe_sub_frame [simp]:
  "a_config (unsubscribe_sub err code reason ch s) = a_config s"
  "a_state (unsubscribe_sub err code reason ch s) = a_state s"
  "a_client_id (unsubscribe_sub err code reason ch s) = a_client_id s"
  "a_sink (unsubscribe_sub err code reason ch s) = a_sink s"
  "a_stream (unsubscribe_sub err code reason ch s) = a_stream s"
  "a_next_id (unsubscribe_sub err code reason ch s) = a_next_id s"
  "a_pending (unsubscribe_sub err code reason ch s) = a_pending s"
  "a_server_subs (unsubscribe_sub err code reason ch s) = a_server_subs s"
  "a_ping_interval (unsubscribe_sub err code reason ch s) = a_ping_interval s"
  "a_send_pong (unsubscribe_sub err code reason ch s) = a_send_pong s"
  "a_last_data_received (unsubscribe_sub err code reason ch s) = a_last_data_received s"
  "a_token_expires (unsubscribe_sub err code reason ch s) = a_token_expires s"
  "a_token_ttl (unsubscribe_sub err code reason ch s) = a_token_ttl s"
  "a_refresh_required (unsubscribe_sub err code reason ch s) = a_refresh_required s"
  "a_batch_active (unsubscribe_sub err code reason ch s) = a_batch_active s"
  "a_batch_queue (unsubscribe_sub err code reason ch s) = a_batch_queue s"
  "a_reconnect_attempts (unsubscribe_sub err code reason ch s) = a_reconnect_attempts s"
  "a_connect_requested (unsubscribe_sub err code reason ch s) = a_connect_requested s"
  "a_connect_waiters (unsubscribe_sub err code reason ch s) = a_connect_waiters s"
  "a_client_event_tx (unsubscribe_sub err code reason ch s) = a_client_event_tx s"
  "a_shared_state (unsubscribe_sub err code reason ch s) = a_shared_state s"
  "a_tick (unsubscribe_sub err code reason ch s) = a_tick s"
  "a_ids (unsubscribe_sub err code reason ch s) = a_ids s"
  by (simp_all add: unsubscribe_sub_def split: option.split)

lemma unsubscribe_all_subs_frame [simp]:
  "a_config (unsubscribe_all_subs env err code reason s) = a_config s"
  "a_state (unsubscribe_all_subs env err code reason s) = a_state s"
  "a_client_id (unsubscribe_all_subs env err code reason s) = a_client_id s"
  "a_sink (unsubscribe_all_subs env err code reason s) = a_sink s"
  "a_stream (unsubscribe_all_subs env err code reason s) = a_stream s"
  "a_next_id (unsubscribe_all_subs env err code reason s) = a_next_id s"
  "a_pending (unsubscribe_all_subs env err code reason s) = a_pending s"
  "a_server_subs (unsubscribe_all_subs env err code reason s) = a_server_subs s"
  "a_ping_interval (unsubscribe_all_subs env err code reason s) = a_ping_interval s"
  "a_send_pong (unsubscribe_all_subs env err code reason s) = a_send_pong s"
  "a_last_data_received (unsubscribe_all_subs env err code reason s) = a_last_data_received s"
  "a_token_expires (unsubscribe_all_subs env err code reason s) = a_token_expires s"
  "a_token_ttl (unsubscribe_all_subs env err code reason s) = a_token_ttl s"
  "a_refresh_required (unsubscribe_all_subs env err code reason s) = a_refresh_required s"
  "a_batch_active (unsubscribe_all_subs env err code reason s) = a_batch_active s"
  "a_batch_queue (unsubscribe_all_subs env err code reason s) = a_batch_queue s"
  "a_reconnect_attempts (unsubscribe_all_subs env err code reason s) = a_reconnect_attempts s"
  "a_connect_requested (unsubscribe_all_subs env err code reason s) = a_connect_requested s"
  "a_connect_waiters (unsubscribe_all_subs env err code reason s) = a_connect_waiters s"
  "a_client_event_tx (unsubscribe_all_subs env err code reason s) = a_client_event_tx s"
  "a_shared_state (unsubscribe_all_subs env err code reason s) = a_shared_state s"
  "a_ids (unsubscribe_all_subs env err code reason s) = a_ids s"
  unfolding unsubscribe_all_subs_def by (rule for_keys_keeps; simp)+

lemma drain_connect_waiters_frame [simp]:
  "a_config (drain_connect_waiters v s) = a_config s"
  "a_state (drain_connect_waiters v s) = a_state s"
  "a_client_id (drain_connect_waiters v s) = a_client_id s"
  "a_sink (drain_connect_waiters v s) = a_sink s"
  "a_stream (drain_connect_waiters v s) = a_stream s"
  "a_next_id (drain_connect_waiters v s) = a_next_id s"
  "a_pending (drain_connect_waiters v s) = a_pending s"
  "a_subs (drain_connect_waiters v s) = a_subs s"
  "a_server_subs (drain_connect_waiters v s) = a_server_subs s"
  "a_ping_interval (drain_connect_waiters v s) = a_ping_interval s"
  "a_send_pong (drain_connect_waiters v s) = a_send_pong s"
  "a_last_data_received (drain_connect_waiters v s) = a_last_data_received s"
  "a_token_expires (drain_connect_waiters v s) = a_token_expires s"
  "a_token_ttl (drain_connect_waiters v s) = a_token_ttl s"
  "a_refresh_required (drain_connect_waiters v s) = a_refresh_required s"
  "a_batch_active (drain_connect_waiters v s) = a_batch_active s"
  "a_batch_queue (drain_connect_waiters v s) = a_batch_queue s"
  "a_reconnect_attempts (drain_connect_waiters v s) = a_reconnect_attempts s"
  "a_connect_requested (drain_connect_waiters v s) = a_connect_requested s"
  "a_client_event_tx (drain_connect_waiters v s) = a_client_event_tx s"
  "a_shared_state (drain_connect_waiters v s) = a_shared_state s"
  "a_tick (drain_connect_waiters v s) = a_tick s"
  "a_ids (drain_connect_waiters v s) = a_ids s"
  by (simp_all add: drain_connect_waiters_def)

lemma drain_connect_waiters_waiters [simp]: "a_connect_waiters (drain_connect_waiters v s) = []"
  by (simp add: drain_connect_waiters_def)

lemma drop_connection_frame [simp]:
  "a_config (drop_connection env s) = a_config s"
  "a_state (drop_connection env s) = a_state s"
  "a_client_id (drop_connection env s) = a_client_id s"
  "a_next_id (drop_connection env s) = a_next_id s"
  "a_subs (drop_connection env s) = a_subs s"
  "a_server_subs (drop_connection env s) = a_server_subs s"
  "a_ping_interval (drop_connection env s) = a_ping_interval s"
  "a_send_pong (drop_connection env s) = a_send_pong s"
  "a_last_data_received (drop_connection env s) = a_last_data_received s"
  "a_token_expires (drop_connection env s) = a_token_expires s"
  "a_token_ttl (drop_connection env s) = a_token_ttl s"
  "a_refresh_required (drop_connection env s) = a_refresh_required s"
  "a_reconnect_attempts (drop_connection env s) = a_reconnect_attempts s"
  "a_connect_requested (drop_connection env s) = a_connect_requested s"
  "a_connect_waiters (drop_connection env s) = a_connect_waiters s"
  "a_client_event_tx (drop_connection env s) = a_client_event_tx s"
  "a_shared_state (drop_connection env s) = a_shared_state s"
  "a_ids (drop_connection env s) = a_ids s"
  by (simp_all add: drop_connection_def)

lemma drop_connection_cleared [simp]:
  "a_sink (drop_connection env s) = None" "a_stream (drop_connection env s) = None"
  "a_batch_active (drop_connection env s) = False" "a_batch_queue (drop_connection env s) = []"
  by (simp_all add: drop_connection_def)

lemma drain_server_subs_frame [simp]:
  "a_config (drain_server_subs env code reason s) = a_config s"
  "a_state (drain_server_subs env code reason s) = a_state s"
  "a_client_id (drain_server_subs env code reason s) = a_client_id s"
  "a_sink (drain_server_subs env code reason s) = a_sink s"
  "a_stream (drain_server_subs env code reason s) = a_stream s"
  "a_next_id (drain_server_subs env code reason s) = a_next_id s"
  "a_pending (drain_server_subs env code reason s) = a_pending s"
  "a_subs (drain_server_subs env code reason s) = a_subs s"
  "a_ping_interval (drain_server_subs env code reason s) = a_ping_interval s"
  "a_send_pong (drain_server_subs env code reason s) = a_send_pong s"
  "a_last_data_received (drain_server_subs env code reason s) = a_last_data_received s"
  "a_token_expires (drain_server_subs env code reason s) = a_token_expires s"
  "a_token_ttl (drain_server_subs env code reason s) = a_token_ttl s"
  "a_refresh_required (drain_server_subs env code reason s) = a_refresh_required s"
  "a_batch_active (drain_server_subs env code reason s) = a_batch_active s"
  "a_batch_queue (drain_server_subs env code reason s) = a_batch_queue s"
  "a_reconnect_attempts (drain_server_subs env code reason s) = a_reconnect_attempts s"
  "a_connect_requested (drain_server_subs env code reason s) = a_connect_requested s"
  "a_connect_waiters (drain_server_subs env code reason s) = a_connect_waiters s"
  "a_client_event_tx (drain_server_subs env code reason s) = a_client_event_tx s"
  "a_shared_state (drain_server_subs env code reason s) = a_shared_state s"
  "a_ids (drain_server_subs env code reason s) = a_ids s"
proof -
  have keeps: "p (drain_server_subs env code reason s) = p s"
    if "\<And>ev s. p (emit_client_event ev s) = p s" "\<And>s. p (step_tick s) = p s" "p (s\<lparr>a_server_subs := hm_empty\<rparr>) = p s" for p :: "actor \<Rightarrow> 'a"
    unfolding drain_server_subs_def using that by (simp add: for_keys_def fold_keeps)
  show "a_config (drain_server_subs env code reason s) = a_config s"
    "a_state (drain_server_subs env code reason s) = a_state s"
    "a_client_id (drain_server_subs env code reason s) = a_client_id s"
    "a_sink (drain_server_subs env code reason s) = a_sink s"
    "a_stream (drain_server_subs env code reason s) = a_stream s"
    "a_next_id (drain_server_subs env code reason s) = a_next_id s"
    "a_pending (drain_server_subs env code reason s) = a_pending s"
    "a_subs (drain_server_subs env code reason s) = a_subs s"
    "a_ping_interval (drain_server_subs env code reason s) = a_ping_interval s"
    "a_send_pong (drain_server_subs env code reason s) = a_send_pong s"
    "a_last_data_received (drain_server_subs env code reason s) = a_last_data_received s"
    "a_token_expires (drain_server_subs env code reason s) = a_token_expires s"
    "a_token_ttl (drain_server_subs env code reason s) = a_token_ttl s"
    "a_refresh_required (drain_server_subs env code reason s) = a_refresh_required s"
    "a_batch_active (drain_server_subs env code reason s) = a_batch_active s"
    "a_batch_queue (drain_server_subs env code reason s) = a_batch_queue s"
    "a_reconnect_attempts (drain_server_subs env code reason s) = a_reconnect_attempts s"
    "a_connect_requested (drain_server_subs env code reason s) = a_connect_requested s"
    "a_connect_waiters (drain_server_subs env code reason s) = a_connect_waiters s"
    "a_client_event_tx (drain_server_subs env code reason s) = a_client_event_tx s"
    "a_shared_state (drain_server_subs env code reason s) = a_shared_state s"
    "a_ids (drain_server_subs env code reason s) = a_ids s"
    by (simp_all add: keeps)
qed

lemma drain_server_subs_empty [simp]: "a_server_subs (drain_server_subs env code reason s) = hm_empty"
  unfolding drain_server_subs_def
  by (simp add: for_keys_def fold_keeps [where p = a_server_subs])

lemma resubscribing_sub_frame [simp]:
  "a_config (resubscribing_sub reason ch s) = a_config s"
  "a_state (resubscribing_sub reason ch s) = a_state s"
  "a_client_id (resubscribing_sub reason ch s) = a_client_id s"
  "a_sink (resubscribing_sub reason ch s) = a_sink s"
  "a_stream (resubscribing_sub reason ch s) = a_stream s"
  "a_next_id (resubscribing_sub reason ch s) = a_next_id s"
  "a_pending (resubscribing_sub reason ch s) = a_pending s"
  "a_server_subs (resubscribing_sub reason ch s) = a_server_subs s"
  "a_ping_interval (resubscribing_sub reason ch s) = a_ping_interval s"
  "a_send_pong (resubscribing_sub reason ch s) = a_send_pong s"
  "a_last_data_received (resubscribing_sub reason ch s) = a_last_data_received s"
  "a_token_expires (resubscribing_sub reason ch s) = a_token_expires s"
  "a_token_ttl (resubscribing_sub reason ch s) = a_token_ttl s"
  "a_refresh_required (resubscribing_sub reason ch s) = a_refresh_required s"
  "a_batch_active (resubscribing_sub reason ch s) = a_batch_active s"
  "a_batch_queue (resubscribing_sub reason ch s) = a_batch_queue s"
  "a_reconnect_attempts (resubscribing_sub reason ch s) = a_reconnect_attempts s"
  "a_connect_requested (resubscribing_sub reason ch s) = a_connect_requested s"
  "a_connect_waiters (resubscribing_sub reason ch s) = a_connect_waiters s"
  "a_client_event_tx (resubscribing_sub reason ch s) = a_client_event_tx s"
  "a_shared_state (resubscribing_sub reason ch s) = a_shared_state s"
  "a_tick (resubscribing_sub reason ch s) = a_tick s"
  "a_ids (resubscribing_sub reason ch s) = a_ids s"
  by (simp_all add: resubscribing_sub_def split: option.split)

lemma move_to_connecting_frame [simp]:
  "a_config (move_to_connecting code reason s) = a_config s"
  "a_client_id (move_to_connecting code reason s) = a_client_id s"
  "a_sink (move_to_connecting code reason s) = a_sink s"
  "a_stream (move_to_connecting code reason s) = a_stream s"
  "a_next_id (move_to_connecting code reason s) = a_next_id s"
  "a_pending (move_to_connecting code reason s) = a_pending s"
  "a_subs (move_to_connecting code reason s) = a_subs s"
  "a_server_subs (move_to_connecting code reason s) = a_server_subs s"
  "a_ping_interval (move_to_connecting code reason s) = a_ping_interval s"
  "a_send_pong (move_to_connecting code reason s) = a_send_pong s"
  "a_last_data_received (move_to_connecting code reason s) = a_last_data_received s"
  "a_token_expires (move_to_connecting code reason s) = a_token_expires s"
  "a_token_ttl (move_to_connecting code reason s) = a_token_ttl s"
  "a_refresh_required (move_to_connecting code reason s) = a_refresh_required s"
  "a_batch_active (move_to_connecting code reason s) = a_batch_active s"
  "a_batch_queue (move_to_connecting code reason s) = a_batch_queue s"
  "a_reconnect_attempts (move_to_connecting code reason s) = a_reconnect_attempts s"
  "a_connect_requested (move_to_connecting code reason s) = a_connect_requested s"
  "a_connect_waiters (move_to_connecting code reason s) = a_connect_waiters s"
  "a_client_event_tx (move_to_connecting code reason s) = a_client_event_tx s"
  "a_tick (move_to_connecting code reason s) = a_tick s"
  "a_ids (move_to_connecting code reason s) = a_ids s"
  by (simp_all add: move_to_connecting_def update_shared_state_def)

lemma move_to_connecting_state [simp]:
  "a_state (move_to_connecting code reason s) = Connecting"
  "a_shared_state (move_to_connecting code reason s) = 1"
  by (simp_all add: move_to_connecting_def update_shared_state_def)

section \<open>The loops\<close>

lemma fail_all_pending_get [simp]: "hm_get (a_pending (fail_all_pending env s)) i = None"
  unfolding fail_all_pending_def
  by (subst get_for_keys [where p = a_pending and g = "\<lambda>k v. None"]) (auto split: option.split)

lemma fail_all_pending_keys [simp]: "hm_keys (a_pending (fail_all_pending env s)) = []"
  by (simp add: hm_keys_Nil_iff)

lemma drop_connection_pending [simp]:
  "hm_get (a_pending (drop_connection env s)) i = None" "hm_keys (a_pending (drop_connection env s)) = []"
  by (simp_all add: drop_connection_def)

definition closed_sub :: "sub_state \<Rightarrow> sub_state" where
  "closed_sub sub = (if ss_state sub = Unsubscribed then sub
     else sub\<lparr>ss_state := Unsubscribed, ss_waiters := []\<rparr>)"

lemma unsubscribe_all_subs_get [simp]:
  "hm_get (a_subs (unsubscribe_all_subs env err code reason s)) ch = map_option closed_sub (hm_get (a_subs s) ch)"
  unfolding unsubscribe_all_subs_def
  by (subst get_for_keys [where p = a_subs and g = "\<lambda>k. map_option closed_sub"])
    (auto simp: unsubscribe_sub_def closed_sub_def split: option.split)

definition suspended_sub :: "sub_state \<Rightarrow> sub_state" where
  "suspended_sub sub = (if ss_state sub = Subscribed then sub\<lparr>ss_state := Subscribing, ss_attempts := 0\<rparr>
     else sub)"

lemma resubscribing_get [simp]:
  "a_subs s = m \<Longrightarrow> hm_get (a_subs (for_keys env m (resubscribing_sub reason) s)) ch
     = map_option suspended_sub (hm_get m ch)"
  by (erule subst, subst get_for_keys [where p = a_subs and g = "\<lambda>k. map_option suspended_sub"])
    (auto simp: resubscribing_sub_def suspended_sub_def split: option.split)

section \<open>The transitions\<close>

text \<open>Everything of the connection is gone, whatever the state was.\<close>

lemma move_to_disconnected_fields [simp]:
  "a_state (move_to_disconnected env code reason s) = Disconnected"
  "a_shared_state (move_to_disconnected env code reason s) = 0"
  "a_client_id (move_to_disconnected env code reason s) = []"
  "a_connect_requested (move_to_disconnected env code reason s) = False"
  "a_connect_waiters (move_to_disconnected env code reason s) = []"
  "a_sink (move_to_disconnected env code reason s) = None"
  "a_stream (move_to_disconnected env code reason s) = None"
  "a_batch_active (move_to_disconnected env code reason s) = False"
  "a_batch_queue (move_to_disconnected env code reason s) = []"
  "hm_keys (a_pending (move_to_disconnected env code reason s)) = []"
  "a_server_subs (move_to_disconnected env code reason s) = hm_empty"
  "a_config (move_to_disconnected env code reason s) = a_config s"
  "a_next_id (move_to_disconnected env code reason s) = a_next_id s"
  "a_ids (move_to_disconnected env code reason s) = a_ids s"
  by (simp_all add: move_to_disconnected_def Let_def update_shared_state_def)

lemma move_to_disconnected_subs [simp]:
  "hm_get (a_subs (move_to_disconnected env code reason s)) ch =
     (if a_state s = Connected then map_option closed_sub (hm_get (a_subs s) ch) else hm_get (a_subs s) ch)"
  by (simp add: move_to_disconnected_def Let_def update_shared_state_def)

lemma move_to_closed_fields [simp]:
  "a_state (move_to_closed env s) = Closed"
  "a_shared_state (move_to_closed env s) = 3"
  "a_connect_waiters (move_to_closed env s) = []"
  "a_sink (move_to_closed env s) = None"
  "a_stream (move_to_closed env s) = None"
  "a_batch_active (move_to_closed env s) = False"
  "a_batch_queue (move_to_closed env s) = []"
  "hm_keys (a_pending (move_to_closed env s)) = []"
  "hm_get (a_subs (move_to_closed env s)) ch = map_option closed_sub (hm_get (a_subs s) ch)"
  by (simp_all add: move_to_closed_def Let_def update_shared_state_def)

text \<open>Whether a lost connection is tried again.\<close>

definition will_reconnect :: "disconnect_info option \<Rightarrow> actor \<Rightarrow> bool" where
  "will_reconnect info s =
     ((case info of Some i \<Rightarrow> di_reconnect i | None \<Rightarrow> True) \<and> a_connect_requested s)"

lemma on_transport_close_fields [simp]:
  "a_state (on_transport_close env info s) = (if will_reconnect info s then Connecting else Disconnected)"
  "a_shared_state (on_transport_close env info s) = (if will_reconnect info s then 1 else 0)"
  "a_connect_requested (on_transport_close env info s) = will_reconnect info s"
  "a_connect_waiters (on_transport_close env info s) = (if will_reconnect info s then a_connect_waiters s else [])"
  "a_sink (on_transport_close env info s) = None"
  "a_stream (on_transport_close env info s) = None"
  "a_batch_active (on_transport_close env info s) = False"
  "a_batch_queue (on_transport_close env info s) = []"
  "hm_keys (a_pending (on_transport_close env info s)) = []"
  by (auto simp: on_transport_close_def Let_def will_reconnect_def transport_closed_info_def
      for_keys_keeps [where p = a_connect_requested] for_keys_keeps [where p = a_connect_waiters]
      for_keys_keeps [where p = a_sink] for_keys_keeps [where p = a_stream]
      for_keys_keeps [where p = a_batch_active] for_keys_keeps [where p = a_batch_queue]
      for_keys_keeps [where p = a_pending] split: option.splits)

lemma on_transport_close_subs [simp]:
  "hm_get (a_subs (on_transport_close env info s)) ch =
     (if will_reconnect info s then map_option suspended_sub (hm_get (a_subs s) ch)
      else if a_state s = Connected then map_option closed_sub (hm_get (a_subs s) ch)
      else hm_get (a_subs s) ch)"
  by (auto simp: on_transport_close_def Let_def will_reconnect_def transport_closed_info_def
      for_keys_keeps [where p = a_subs] split: option.splits)

end
