(* ===== verification/Invariant.thy ===== *)
theory Invariant
  imports Transitions
begin

text \<open>
  The invariant of the connection state machine: what each state says about the transport, the
  pending requests, the callers of \<open>connect\<close> and the subscriptions. It holds in every reachable state.
\<close>

section \<open>The invariant\<close>

definition none_subscribed :: "actor \<Rightarrow> bool" where
  "none_subscribed s \<longleftrightarrow> (\<forall>ch sub. hm_get (a_subs s) ch = Some sub \<longrightarrow> ss_state sub \<noteq> Subscribed)"

definition conn_inv :: "actor \<Rightarrow> bool" where
  "conn_inv s \<longleftrightarrow>
     a_shared_state s = as_u8 (a_state s) \<and> a_sink s = a_stream s \<and>
     (a_state s = Disconnected \<or> a_state s = Closed \<longrightarrow> a_connect_waiters s = []) \<and>
     (a_state s = Disconnected \<longrightarrow> \<not> a_connect_requested s) \<and>
     (a_state s = Connecting \<longrightarrow> a_connect_requested s) \<and>
     (a_state s \<noteq> Connected \<longrightarrow> hm_keys (a_pending s) = [] \<and> none_subscribed s)"

text \<open>
  Between steps there is no transport outside state \<open>Connected\<close>; during a handshake there is one.
  The flag says which of the two is meant.
\<close>

definition safe :: "bool \<Rightarrow> actor \<Rightarrow> bool" where
  "safe b s \<longleftrightarrow> conn_inv s \<and> (b \<and> a_state s \<noteq> Connected \<longrightarrow> a_sink s = None)"

text \<open>A step that leaves the connection as it is.\<close>

definition keeps :: "actor \<Rightarrow> actor \<Rightarrow> bool" where
  "keeps s t \<longleftrightarrow> a_state t = a_state s \<and> a_shared_state t = a_shared_state s \<and> a_sink t = a_sink s \<and>
     a_stream t = a_stream s \<and> a_connect_waiters t = a_connect_waiters s \<and>
     a_connect_requested t = a_connect_requested s \<and>
     (a_state s \<noteq> Connected \<longrightarrow> hm_keys (a_pending s) = [] \<longrightarrow> hm_keys (a_pending t) = []) \<and>
     (a_state s \<noteq> Connected \<longrightarrow> none_subscribed s \<longrightarrow> none_subscribed t)"

lemma keeps_refl [simp]: "keeps s s"
  by (simp add: keeps_def)

lemma keeps_trans: "keeps s t \<Longrightarrow> keeps t u \<Longrightarrow> keeps s u"
  by (simp add: keeps_def)

lemma keeps_safe: "keeps s t \<Longrightarrow> safe b s \<Longrightarrow> safe b t"
  by (auto simp: keeps_def safe_def conn_inv_def)

lemma keeps_state: "keeps s t \<Longrightarrow> a_state t = a_state s"
  by (simp add: keeps_def)

lemma none_subscribed_put:
  "none_subscribed s \<Longrightarrow> ss_state sub \<noteq> Subscribed \<Longrightarrow> none_subscribed (put_sub ch sub s)"
  by (auto simp: none_subscribed_def split: if_splits)

lemma none_subscribed_cong: "a_subs t = a_subs s \<Longrightarrow> none_subscribed t = none_subscribed s"
  by (simp add: none_subscribed_def)

section \<open>Steps that keep the connection\<close>

lemma keeps_log [simp]:
  "keeps s (perform e s)" "keeps s (emit_client_event ev s)" "keeps s (emit_error msg s)"
  "keeps s (sub_emit sub sev s)" "keeps s (schedule d c s)" "keeps s (answer w v s)"
  "keeps s (answer_all ws v s)" "keeps s (drop_sender w s)" "keeps s (drop_all ws s)" "keeps s (step_tick s)"
  by (simp_all add: keeps_def none_subscribed_def)

lemma keeps_send [simp]:
  "keeps s (snd (next_cmd_id s))" "keeps s (snd (sink_send env conn data s))"
  "keeps s (snd (send_command env cmd s))" "keeps s (schedule_request_timeout i s)"
  "keeps s (remove_pending i s)"
  by (simp_all add: keeps_def none_subscribed_def)

lemma keeps_fields [simp]:
  "keeps s (s\<lparr>a_config := c\<rparr>)" "keeps s (s\<lparr>a_server_subs := m\<rparr>)"
  "keeps s (s\<lparr>a_batch_active := b\<rparr>)" "keeps s (s\<lparr>a_batch_queue := q\<rparr>)"
  "keeps s (s\<lparr>a_client_event_tx := tx\<rparr>)" "keeps s (s\<lparr>a_reconnect_attempts := n\<rparr>)"
  "keeps s (s\<lparr>a_refresh_required := b\<rparr>)" "keeps s (s\<lparr>a_token_expires := b, a_token_ttl := l\<rparr>)"
  "keeps s (s\<lparr>a_last_data_received := d\<rparr>)"
  by (simp_all add: keeps_def none_subscribed_def)

lemma keeps_fold: "(\<And>x s. keeps s (f x s)) \<Longrightarrow> keeps s (fold f xs s)"
  by (induction xs arbitrary: s) (auto intro: keeps_trans)

lemma keeps_for_keys: "(\<And>x s. keeps s (f x s)) \<Longrightarrow> keeps s (for_keys env m f s)"
  unfolding for_keys_def by (rule keeps_trans [OF _ keeps_fold]) simp

lemma keeps_then: "keeps s t \<Longrightarrow> (\<And>u. keeps u (f u)) \<Longrightarrow> keeps s (f t)"
  by (rule keeps_trans)

lemma keeps_put_sub:
  assumes "keeps s t" and "hm_get (a_subs t) ch = Some sub"
    and "ss_state sub' = Subscribed \<Longrightarrow> ss_state sub = Subscribed \<or> a_state s = Connected"
  shows "keeps s (put_sub ch sub' t)"
proof (rule keeps_trans [OF assms(1)])
  show "keeps t (put_sub ch sub' t)"
    using assms(2,3) keeps_state [OF assms(1)]
    by (auto simp: keeps_def none_subscribed_def split: if_splits)
qed

lemma keeps_insert_pending:
  "keeps s t \<Longrightarrow> a_state s = Connected \<Longrightarrow> keeps s (insert_pending i req t)"
  by (simp add: keeps_def none_subscribed_def)

text \<open>Operations that are built from these.\<close>

lemma keeps_unsubscribe_unauthorized [simp]: "keeps s (unsubscribe_unauthorized ch s)"
  by (auto simp: unsubscribe_unauthorized_def split: option.split
      intro!: keeps_then [OF _ keeps_log(4)] keeps_then [OF _ keeps_log(7)] keeps_put_sub)

lemma keeps_sub_events:
  "keeps s t \<Longrightarrow> keeps s (sub_emit sub ev t)" "keeps s t \<Longrightarrow> keeps s (schedule d c t)"
  "keeps s t \<Longrightarrow> keeps s (answer_all ws v t)" "keeps s t \<Longrightarrow> keeps s (emit_client_event cev t)"
  "keeps s t \<Longrightarrow> keeps s (answer w v t)" "keeps s t \<Longrightarrow> keeps s (step_tick t)"
  "keeps s t \<Longrightarrow> keeps s (snd (send_command env cmd t))" "keeps s t \<Longrightarrow> keeps s (snd (next_cmd_id t))"
  "keeps s t \<Longrightarrow> keeps s (remove_pending i t)" "keeps s t \<Longrightarrow> keeps s (schedule_request_timeout i t)"
  "keeps s t \<Longrightarrow> keeps s (drop_all ws t)"
  by (rule keeps_trans, assumption, simp)+

lemma keeps_schedules [simp]:
  "keeps s (schedule_token_refresh s)" "keeps s (schedule_sub_token_refresh ch ttl s)"
  "keeps s (schedule_token_refresh_retry s)" "keeps s (schedule_resubscribe env ch s)"
  by (simp_all add: schedule_token_refresh_def schedule_sub_token_refresh_def keeps_sub_events
      schedule_token_refresh_retry_def schedule_resubscribe_def split: option.split)

lemma keeps_do_token_refresh [simp]: "keeps s (snd (do_token_refresh s))"
  by (auto simp: do_token_refresh_def split: option.split sum.split
      intro: keeps_trans [OF keeps_log(10) keeps_fields(1)])

lemma keeps_send_sub_refresh [simp]: "a_state s = Connected \<Longrightarrow> keeps s (send_sub_refresh env ch token s)"
  by (simp add: send_sub_refresh_def case_prod_beta Let_def keeps_sub_events keeps_insert_pending
      split: sum.split unit.split)

lemma keeps_do_refresh_sub_token [simp]: "keeps s (do_refresh_sub_token env ch s)"
proof (cases "hm_get (a_subs s) ch")
  case (Some sub)
  have "keeps s (send_sub_refresh env ch token (put_sub ch (sub\<lparr>ss_token := token\<rparr>) (step_tick s)))"
    if "a_state s = Connected" for token
    by (rule keeps_trans [OF keeps_put_sub keeps_send_sub_refresh]) (simp_all add: Some that)
  moreover have "keeps s (unsubscribe_unauthorized ch (step_tick s))"
    by (rule keeps_trans [OF keeps_log(10)]) simp
  moreover have "keeps s (schedule_sub_token_refresh ch n (sub_emit sub ev (step_tick s)))" for n ev
    by (rule keeps_trans [OF keeps_sub_events(1) [OF keeps_log(10)] keeps_schedules(2)])
  ultimately show ?thesis
    by (simp add: do_refresh_sub_token_def Some split: option.split sum.split)
qed (simp add: do_refresh_sub_token_def)

lemma keeps_receive_publications [simp]:
  "keeps s (snd (receive_publication env pt p (sub, s)))"
  "keeps s (snd (fold (receive_publication env pt) ps (sub, s)))"
proof -
  show one: "keeps s (snd (receive_publication env pt p (sub, s)))" for s sub p
    by (simp add: receive_publication_def Let_def case_prod_beta)
  show "keeps s (snd (fold (receive_publication env pt) ps (sub, s)))"
  proof (induction ps arbitrary: sub s)
    case (Cons p ps)
    then show ?case
      using keeps_trans [OF one [of s p sub]] by (cases "receive_publication env pt p (sub, s)") auto
  qed simp
qed

lemma receive_publication_state [simp]:
  "ss_state (fst (receive_publication env pt p x)) = ss_state (fst x)"
  by (cases x) (simp add: receive_publication_def Let_def case_prod_beta)

lemma keeps_subscribe_success [simp]:
  assumes "a_state s = Connected"
  shows "keeps s (handle_subscribe_success env ch result s)"
proof -
  have "keeps s (put_sub ch sub t)" if "keeps s t" for t sub
    using that assms by (simp add: keeps_def)
  moreover have "keeps s (snd (fold (receive_publication env pt) ps (sub, sub_emit sub' ev s)))"
    for pt ps sub sub' ev
    by (rule keeps_trans [OF keeps_log(4) keeps_receive_publications(2)])
  ultimately show ?thesis
    by (auto simp: handle_subscribe_success_def Let_def case_prod_beta split: option.split
        intro!: keeps_sub_events keeps_trans [OF keeps_sub_events(3) keeps_schedules(2)])
qed

lemma keeps_subscribe_error [simp]: "keeps s (handle_subscribe_error env ch err s)"
proof (cases "hm_get (a_subs s) ch")
  case (Some sub)
  have "keeps s (schedule_resubscribe env ch (put_sub ch sub' (sub_emit sub ev s)))"
    if "ss_state sub' = ss_state sub" for sub' ev
    by (rule keeps_trans [OF keeps_put_sub [where sub = sub] keeps_schedules(4)]) (simp_all add: Some that)
  then show ?thesis
    by (auto simp: handle_subscribe_error_def Some Let_def intro!: keeps_sub_events keeps_put_sub)
qed (simp add: handle_subscribe_error_def)

lemma keeps_subscribe_token:
  assumes "hm_get (a_subs s) ch = Some sub"
  shows "keeps s (snd (subscribe_token env ch sub s))"
proof -
  have "keeps s (put_sub ch sub' (step_tick s))" if "ss_state sub' = ss_state sub" for sub'
    by (rule keeps_put_sub [where sub = sub]) (simp_all add: assms that)
  moreover have "keeps s (schedule_resubscribe env ch (put_sub ch sub' (sub_emit sub ev (step_tick s))))"
    if "ss_state sub' = ss_state sub" for sub' ev
    by (rule keeps_trans [OF keeps_put_sub [where sub = sub] keeps_schedules(4)])
      (simp_all add: assms that keeps_sub_events)
  moreover have "keeps s (unsubscribe_unauthorized ch (step_tick s))"
    by (rule keeps_trans [OF keeps_log(10)]) simp
  ultimately show ?thesis
    by (simp add: subscribe_token_def split: option.split sum.split)
qed

lemma keeps_subscribe_data [simp]: "keeps s (subscribe_data ch s)"
proof (cases "hm_get (a_subs s) ch")
  case (Some sub)
  have "keeps s (put_sub ch sub' (step_tick s))" if "ss_state sub' = ss_state sub" for sub'
    by (rule keeps_put_sub [where sub = sub]) (simp_all add: Some that)
  then show ?thesis
    by (auto simp: subscribe_data_def Some intro!: keeps_sub_events split: option.split sum.split)
qed (simp add: subscribe_data_def)

lemma keeps_send_subscribe [simp]: "a_state s = Connected \<Longrightarrow> keeps s (send_subscribe env ch s)"
  by (simp add: send_subscribe_def case_prod_beta Let_def keeps_sub_events keeps_insert_pending
      split: option.split sum.split unit.split)

lemma keeps_do_subscribe [simp]:
  assumes "a_state s = Connected"
  shows "keeps s (do_subscribe env ch s)"
proof -
  have "keeps s (send_subscribe env ch (subscribe_data ch (snd (subscribe_token env ch sub s))))"
    if "hm_get (a_subs s) ch = Some sub" for sub
  proof -
    have k: "keeps s (subscribe_data ch (snd (subscribe_token env ch sub s)))"
      by (rule keeps_trans [OF keeps_subscribe_token [OF that] keeps_subscribe_data])
    then show ?thesis
      using assms by (intro keeps_trans [OF k keeps_send_subscribe]) (simp add: keeps_state)
  qed
  then show ?thesis
    by (simp add: do_subscribe_def case_prod_beta keeps_subscribe_token split: option.split)
qed

section \<open>Steps that keep the invariant\<close>

text \<open>A connected actor stays connected through \<open>keeps\<close> steps, so a loop may assume it.\<close>

lemma keeps_fold_connected:
  "(\<And>x s. a_state s = Connected \<Longrightarrow> keeps s (f x s)) \<Longrightarrow> a_state s = Connected \<Longrightarrow> keeps s (fold f xs s)"
proof (induction xs arbitrary: s)
  case (Cons x xs)
  have k: "keeps s (f x s)" by (rule Cons)+
  then have "keeps (f x s) (fold f xs (f x s))"
    using Cons by (intro Cons.IH) (simp_all add: keeps_state [OF k])
  with k show ?case by (auto intro: keeps_trans)
qed simp

lemma keeps_resubscribe_all [simp]: "a_state s = Connected \<Longrightarrow> keeps s (resubscribe_all env s)"
  unfolding resubscribe_all_def Let_def
  by (rule keeps_trans [OF keeps_log(10) keeps_fold_connected]) simp_all

lemma keeps_process_server_subs [simp]:
  assumes "a_state s = Connected"
  shows "keeps s (process_server_subs env result s)"
proof -
  have recv: "keeps s (receive_server_publication ch p s)" for s ch p
    by (simp add: receive_server_publication_def Let_def keeps_sub_events split: option.split)
  have "keeps s (fold (receive_server_publication ch) ps (emit_client_event ev (s\<lparr>a_server_subs := m\<rparr>)))"
    for s ch ps ev m
    by (rule keeps_trans [OF _ keeps_fold [OF recv]]) (simp add: keeps_sub_events)
  then have sub: "keeps s (process_server_sub env result ch s)" if "a_state s = Connected" for s ch
    using that by (simp add: process_server_sub_def Let_def split: option.split)
  have lost: "keeps s (remove_lost_server_sub result ch s)" for s ch
    by (simp add: remove_lost_server_sub_def keeps_sub_events)
  have loop: "keeps s (for_keys env m (process_server_sub env result) (step_tick s))" for m
    unfolding for_keys_def using assms sub
    by (intro keeps_trans [OF _ keeps_fold_connected]) (simp_all add: keeps_sub_events)
  show ?thesis
    unfolding process_server_subs_def Let_def
    by (rule keeps_trans [OF loop keeps_fold [OF lost]])
qed

lemma keeps_handle_publication [simp]: "keeps s (handle_publication env ch p s)"
proof -
  have "keeps s (put_sub ch (fst (receive_publication env pt p (sub, s)))
      (snd (receive_publication env pt p (sub, s))))"
    if "hm_get (a_subs s) ch = Some sub" for sub pt
    by (rule keeps_put_sub [OF keeps_receive_publications(1), where sub = sub])
      (auto simp: that receive_publication_def Let_def case_prod_beta split: if_splits)
  then show ?thesis
    by (simp add: handle_publication_def case_prod_beta keeps_sub_events split: option.split)
qed

lemma keeps_handle_pushes [simp]:
  "keeps s (handle_join ch j s)" "keeps s (handle_leave ch l s)" "keeps s (handle_server_subscribe ch sub s)"
  by (simp_all add: handle_join_def handle_leave_def handle_server_subscribe_def keeps_sub_events
      split: option.split)

lemma keeps_server_unsubscribe [simp]: "keeps s (handle_server_unsubscribe ch code reason s)"
proof (cases "hm_get (a_subs s) ch")
  case (Some sub)
  have "keeps s (put_sub ch sub' s)" if "ss_state sub' \<noteq> Subscribed" for sub'
    by (rule keeps_put_sub [where sub = sub]) (simp_all add: Some that)
  with Some show ?thesis by (simp add: handle_server_unsubscribe_def keeps_sub_events)
qed (simp add: handle_server_unsubscribe_def keeps_sub_events)

text \<open>The transitions establish the invariant.\<close>

lemma closed_sub_state [simp]: "ss_state (closed_sub sub) = Unsubscribed"
  by (simp add: closed_sub_def)

lemma suspended_sub_state [simp]: "ss_state (suspended_sub sub) \<noteq> Subscribed"
  by (simp add: suspended_sub_def)

lemma safe_disconnected [simp]: "safe b s \<Longrightarrow> safe b' (move_to_disconnected env code reason s)"
  by (auto simp: safe_def conn_inv_def none_subscribed_def split: if_splits)

lemma safe_closed [simp]: "safe b' (move_to_closed env s)"
  by (auto simp: safe_def conn_inv_def none_subscribed_def)

lemma safe_transport_close [simp]: "safe b s \<Longrightarrow> safe b' (on_transport_close env info s)"
  by (auto simp: safe_def conn_inv_def none_subscribed_def split: if_splits)

lemma safe_then: "safe b s \<Longrightarrow> keeps s t \<Longrightarrow> safe b t"
  by (rule keeps_safe)

subsection \<open>Replies\<close>

lemma safe_handle_push:
  assumes s: "safe b s"
  shows "safe b (handle_push env push s)"
  using safe_transport_close [OF s] safe_disconnected [OF s]
  by (simp add: handle_push_def Let_def handle_disconnect_push_def s keeps_safe [OF _ s]
      split: option.split)

lemma keeps_resolve_pending:
  assumes "a_state s = Connected"
  shows "keeps s (resolve_pending env req reply s)"
proof -
  have "keeps s (schedule_token_refresh (s\<lparr>a_token_expires := e, a_token_ttl := l\<rparr>))" for e l
    by (rule keeps_trans [OF keeps_fields(8) keeps_schedules(1)])
  with assms show ?thesis
    by (cases req) (simp_all add: resolve_subscribe_def resolve_refresh_def resolve_sub_refresh_def
        Let_def keeps_sub_events split: option.split)
qed

text \<open>Outside state \<open>Connected\<close> nothing is pending, so only a push can change the actor.\<close>

lemma safe_dispatch:
  assumes s: "safe b s"
  shows "safe b (dispatch_reply env reply s)"
proof (cases "a_state s = Connected")
  case True
  have "keeps s (resolve_pending env req reply (remove_pending i s))" for req i
    by (rule keeps_trans [OF keeps_send(5) keeps_resolve_pending]) (simp add: True)
  then show ?thesis
    by (simp add: dispatch_reply_def safe_handle_push s keeps_safe [OF _ s] split: option.split)
next
  case False
  from s False have "hm_get (a_pending s) i = None" for i
    by (simp add: safe_def conn_inv_def hm_keys_Nil_iff)
  then show ?thesis
    by (simp add: dispatch_reply_def safe_handle_push s keeps_safe [OF _ s] split: option.split)
qed

lemma safe_fold: "(\<And>x s. safe b s \<Longrightarrow> safe b (f x s)) \<Longrightarrow> safe b s \<Longrightarrow> safe b (fold f xs s)"
  by (induction xs arbitrary: s) auto

lemma safe_transport_data: "safe b s \<Longrightarrow> safe b (handle_transport_data env data s)"
  by (auto simp: handle_transport_data_def intro: safe_transport_close safe_fold safe_dispatch
      split: sum.split)

lemma safe_scan: "safe b s \<Longrightarrow> safe b (snd (scan_replies env i replies s))"
  by (induction replies arbitrary: s) (auto intro: safe_dispatch)

lemma safe_read: "safe b s \<Longrightarrow> safe b (snd (read_reply_with_timeout env i frames s))"
proof (induction frames arbitrary: s)
  case (Cons frame frames)
  have "safe b t" if "scan_replies env i replies s = (res, t)" for replies res t
    using safe_scan [OF Cons.prems, of env i replies] that by simp
  with Cons show ?case
    by (auto split: option.split transport_frame.split sum.split prod.split)
qed simp

subsection \<open>Commands\<close>

lemma safe_refresh_token:
  assumes s: "safe b s"
  shows "safe b (do_refresh_token env s)"
proof -
  obtain res t where d: "do_token_refresh s = (res, t)" by fastforce
  with keeps_do_token_refresh [of s] have t: "keeps s t" by simp
  have retry: "keeps s (schedule_token_refresh_retry u)" if "keeps s u" for u
    by (rule keeps_trans [OF that keeps_schedules(3)])
  have "keeps s (emit_error msg t)" for msg
    by (rule keeps_trans [OF t keeps_log(3)])
  with t retry show ?thesis
    using safe_disconnected [OF keeps_safe [OF t s]]
    by (simp add: do_refresh_token_def d case_prod_beta Let_def keeps_sub_events keeps_insert_pending
        keeps_safe [OF _ s] s split: sum.split unit.split)
qed

lemma keeps_handle_subscribe: "keeps s (handle_subscribe env ch r s)"
proof (cases "hm_get (a_subs s) ch")
  case (Some sub)
  have one: "keeps s (put_sub ch sub' s)" if "ss_state sub' \<noteq> Subscribed" for sub'
    by (rule keeps_put_sub [where sub = sub]) (simp_all add: Some that)
  have two: "keeps s (put_sub ch sub' (sub_emit sub1 ev (put_sub ch sub1 s)))"
    if "ss_state sub1 \<noteq> Subscribed" "ss_state sub' \<noteq> Subscribed" for sub' sub1 ev
    by (rule keeps_put_sub [where sub = sub1]) (simp_all add: one that keeps_sub_events)
  from Some one two show ?thesis
    by (simp add: handle_subscribe_def Let_def case_prod_beta keeps_sub_events keeps_insert_pending
        split: option.split sum.split unit.split)
qed (simp add: handle_subscribe_def)

lemma safe_handle_unsubscribe:
  assumes s: "safe b s"
  shows "safe b (handle_unsubscribe env ch r s)"
proof (cases "hm_get (a_subs s) ch")
  case (Some sub)
  have one: "keeps s (put_sub ch sub' s)" if "ss_state sub' \<noteq> Subscribed" for sub'
    by (rule keeps_put_sub [where sub = sub]) (simp_all add: Some that)
  with Some show ?thesis
    by (simp add: handle_unsubscribe_def Let_def case_prod_beta keeps_sub_events keeps_safe [OF _ s]
        safe_transport_close [where b = b]
        split: sum.split unit.split)
qed (simp add: handle_unsubscribe_def keeps_safe [OF _ s])

lemma keeps_handle_remove: "keeps s (handle_remove_subscription env ch r s)"
proof -
  have "keeps s (s\<lparr>a_subs := hm_remove ch (a_subs s)\<rparr>)"
    by (simp add: keeps_def none_subscribed_def)
  then show ?thesis
    by (simp add: handle_remove_subscription_def Let_def case_prod_beta keeps_sub_events split: option.split)
qed

lemma keeps_send_request: "keeps s (send_request_command env cmd req s)"
proof -
  have "keeps s (snd (fail_request req e t))" if "keeps s t" for req e t
    using that by (cases req) (simp_all add: keeps_sub_events)
  then show ?thesis
    by (simp add: send_request_command_def Let_def case_prod_beta keeps_sub_events keeps_insert_pending
        split: option.split sum.split unit.split)
qed

lemma safe_request_timeout:
  assumes s: "safe b s"
  shows "safe b (handle_request_timeout env i s)"
proof (cases "hm_get (a_pending s) i")
  case (Some req)
  obtain ch t where f: "fail_request req Timeout (remove_pending i s) = (ch, t)" by fastforce
  then have t: "keeps s t" by (cases req) (auto simp: keeps_sub_events)
  have "keeps s (answer_all ws v (put_sub c (sub\<lparr>ss_waiters := []\<rparr>) t))"
    if "hm_get (a_subs t) c = Some sub" for c sub ws v
    by (rule keeps_sub_events(3) [OF keeps_put_sub [OF t that]]) simp
  with t show ?thesis
    by (simp add: handle_request_timeout_def Some f keeps_safe [OF _ s] safe_transport_close [where b = b]
        split: option.split)
qed (simp add: handle_request_timeout_def s)

lemma safe_handle_connect: "safe b s \<Longrightarrow> safe b (handle_connect r s)"
  by (auto simp: handle_connect_def safe_def conn_inv_def none_subscribed_def split: client_state.split)

lemma keeps_flush: "keeps s (flush_batch env s)"
proof -
  have "keeps s (snd (sink_send env conn data (s\<lparr>a_batch_active := False, a_batch_queue := []\<rparr>)))"
    for conn data
    by (rule keeps_trans [OF keeps_trans [OF keeps_fields(3) keeps_fields(4)] keeps_send(2)])
  then show ?thesis
    by (auto simp: flush_batch_def Let_def keeps_def none_subscribed_def split: option.split)
qed

lemma keeps_new_subscription: "keeps s (handle_new_subscription ch config r s)"
proof -
  have "none_subscribed s \<Longrightarrow> none_subscribed (put_sub ch (new_sub_state config) s)"
    by (rule none_subscribed_put) (simp_all add: new_sub_state_def split: option.split)
  then have "keeps s (put_sub ch (new_sub_state config) s)"
    by (simp add: keeps_def)
  then show ?thesis by (simp add: handle_new_subscription_def keeps_sub_events)
qed

lemma safe_handle_command:
  assumes s: "safe b s"
  shows "safe b (handle_command env cmd s)"
proof (cases cmd)
  case (SetSubEventChannel ch tx)
  have "keeps s (put_sub ch (sub\<lparr>ss_event_tx := Some tx\<rparr>) s)" if "hm_get (a_subs s) ch = Some sub" for sub
    by (rule keeps_put_sub [where sub = sub]) (simp_all add: that)
  with SetSubEventChannel s show ?thesis by (simp add: keeps_safe [OF _ s] split: option.split)
next
  case (Resubscribe ch)
  then show ?thesis by (simp add: s keeps_safe [OF _ s])
next
  case (Disconnect r)
  show ?thesis
    unfolding Disconnect handle_command.simps
    by (rule keeps_safe [OF keeps_log(6) safe_disconnected [OF s]])
next
  case (Close r)
  show ?thesis
    unfolding Close handle_command.simps by (rule keeps_safe [OF keeps_log(6) safe_closed])
next
  case (ListSubscriptions r)
  show ?thesis
    unfolding ListSubscriptions handle_command.simps list_subscriptions_def
    by (simp add: keeps_safe [OF _ s] keeps_sub_events)
next
  case RefreshToken
  then show ?thesis by (simp add: safe_refresh_token s)
next
  case (Connect r)
  then show ?thesis by (simp add: safe_handle_connect s)
next
  case (Unsubscribe ch r)
  then show ?thesis by (simp add: safe_handle_unsubscribe s)
next
  case (RequestTimeout i)
  then show ?thesis by (simp add: safe_request_timeout s)
qed (simp_all add: s keeps_safe [OF _ s] keeps_new_subscription keeps_handle_subscribe keeps_handle_remove
    keeps_send_request keeps_flush)

subsection \<open>Attempts\<close>

lemma safe_weaken: "safe b s \<Longrightarrow> safe False s"
  by (simp add: safe_def)

lemma safe_backoff: "safe b s \<Longrightarrow> safe b (snd (wait_backoff env cmds s))"
  by (induction env cmds s rule: wait_backoff.induct) (simp_all add: Let_def safe_handle_command)

lemma safe_refresh_if_needed:
  assumes s: "safe b s"
  shows "safe b (snd (refresh_token_if_needed env s))"
proof -
  obtain res t where d: "do_token_refresh s = (res, t)" by fastforce
  with keeps_do_token_refresh [of s] have t: "keeps s t" by simp
  have "keeps s (t\<lparr>a_refresh_required := False\<rparr>)" "keeps s (emit_error msg t)" for msg
    by (rule keeps_trans [OF t], simp)+
  with safe_disconnected [OF keeps_safe [OF t s]] show ?thesis
    by (simp add: refresh_token_if_needed_def d s keeps_safe [OF _ s] split: sum.split unit.split)
qed

lemma keeps_handshake_data: "keeps s (handshake_data s)"
  by (auto simp: handshake_data_def split: option.split sum.split
      intro: keeps_trans [OF keeps_log(10) keeps_fields(1)] keeps_trans [OF keeps_log(10) keeps_log(3)])

lemma safe_do_handshake:
  assumes s: "safe b s"
  shows "safe b (snd (do_handshake env frames s))"
proof -
  have "keeps s (snd (send_command env cmd (snd (next_cmd_id (handshake_data s)))))" for cmd
    by (simp add: keeps_sub_events keeps_handshake_data)
  from keeps_safe [OF this s] show ?thesis
    by (simp add: do_handshake_def Let_def case_prod_beta safe_read split: sum.split unit.split)
qed

lemma move_to_connected_fields [simp]:
  "a_state (move_to_connected env result s) = Connected"
  "a_shared_state (move_to_connected env result s) = 2"
  "a_sink (move_to_connected env result s) = a_sink s"
  "a_stream (move_to_connected env result s) = a_stream s"
  "a_reconnect_attempts (move_to_connected env result s) = 0"
  "a_client_id (move_to_connected env result s) = cr_client result"
  "a_pending (move_to_connected env result s) = a_pending s"
  "a_subs (move_to_connected env result s) = a_subs s"
  "a_server_subs (move_to_connected env result s) = a_server_subs s"
  "a_connect_waiters (move_to_connected env result s) = a_connect_waiters s"
  "a_connect_requested (move_to_connected env result s) = a_connect_requested s"
  by (simp_all add: move_to_connected_def Let_def update_shared_state_def)

text \<open>A successful handshake ends in state \<open>Connected\<close>, where the invariant asks for little.\<close>

lemma handshake_success_state:
  assumes "a_sink s = a_stream s"
  shows "safe b (on_handshake_success env result s) \<and> a_state (on_handshake_success env result s) = Connected"
proof -
  let ?a = "move_to_connected env result s"
  let ?b = "process_server_subs env result ?a"
  let ?c = "resubscribe_all env (schedule_token_refresh ?b)"
  have a: "safe b ?a" using assms by (simp add: safe_def conn_inv_def)
  have b: "keeps ?a ?b" by simp
  then have b': "keeps ?a (schedule_token_refresh ?b)"
    by (rule keeps_trans) simp
  have c: "keeps ?a ?c"
    by (rule keeps_trans [OF b']) (simp add: keeps_state [OF b'])
  then have "safe b ?c" using a by (rule keeps_safe)
  moreover have "a_state ?c = Connected" using keeps_state [OF c] by simp
  ultimately show ?thesis
    by (simp add: on_handshake_success_def safe_def conn_inv_def)
qed

lemma safe_handshake_failure:
  assumes s: "safe False s"
  shows "safe True (on_handshake_failure env err s)"
proof -
  let ?t = "\<lambda>msg. emit_error msg (s\<lparr>a_sink := None, a_stream := None\<rparr>)"
  have t: "safe True (?t msg)" for msg
    using s by (simp add: safe_def conn_inv_def none_subscribed_def)
  show ?thesis
    using t safe_disconnected [OF t] keeps_safe [OF keeps_fields(7) t]
    by (cases err) (simp_all add: on_handshake_failure_def Let_def)
qed

lemma safe_after_backoff:
  assumes s: "safe True s"
  shows "safe True (attempt_after_backoff env frames s)"
proof -
  let ?a = "s\<lparr>a_reconnect_attempts := a_reconnect_attempts s + 1\<rparr>"
  let ?b = "snd (refresh_token_if_needed env ?a)"
  let ?c = "snd (open_transport env ?b)"
  let ?d = "snd (do_handshake env frames ?c)"
  have b: "safe True ?b"
    by (rule safe_refresh_if_needed [OF keeps_safe [OF keeps_fields(6) s]])
  have c: "safe True ?c" if "\<not> fst (open_transport env ?b)"
    using that keeps_safe [OF keeps_trans [OF keeps_log(10) keeps_log(3)] b]
    by (auto simp: open_transport_def split: option.splits)
  have "safe False ?c"
  proof (cases "fst (open_transport env ?b)")
    case True
    with b show ?thesis
      by (auto simp: open_transport_def safe_def conn_inv_def none_subscribed_def split: option.splits)
  next
    case False
    then show ?thesis using c safe_weaken by blast
  qed
  then have d: "safe False ?d" by (rule safe_do_handshake)
  then have "safe True (on_handshake_success env result ?d)" for result
    using handshake_success_state by (simp add: safe_def conn_inv_def)
  with b c safe_handshake_failure [OF d] show ?thesis
    by (simp add: attempt_after_backoff_def Let_def case_prod_beta split: sum.split)
qed

lemma safe_attempt:
  assumes "safe True s"
  shows "safe True (connect_attempt env cmds frames s)"
proof -
  have "safe True (snd (wait_backoff env cmds (step_tick s)))"
    by (rule safe_backoff [OF keeps_safe [OF keeps_log(10) assms]])
  with assms show ?thesis by (simp add: connect_attempt_def case_prod_beta safe_after_backoff)
qed

lemma safe_event:
  assumes s: "safe b s"
  shows "safe b (handle_connected_event env ev s)"
proof -
  have "keeps s ((step_tick s)\<lparr>a_last_data_received := d\<rparr>)" for d
    by (rule keeps_trans [OF keeps_log(10) keeps_fields(9)])
  then show ?thesis
    using s by (cases "(env, ev, s)" rule: handle_connected_event.cases)
      (simp_all add: safe_transport_data safe_transport_close [OF s] safe_handle_command keeps_safe [OF _ s])
qed

lemma safe_step: "actor_step env cmds s t \<Longrightarrow> safe True s \<Longrightarrow> safe True t"
proof (induction rule: actor_step.induct)
  case (attempt s s' cmds frames)
  then have s': "safe True s'" by (simp add: safe_attempt)
  have "keeps s' (enter_connected_loop env s')"
    unfolding enter_connected_loop_def by (rule keeps_trans [OF keeps_log(10) keeps_fields(9)])
  from keeps_safe [OF this s'] s' show ?case by simp
next
  case (deadline s)
  show ?case by (rule safe_event [OF keeps_safe [OF keeps_log(10) deadline.prems]])
qed (simp_all add: safe_handle_command safe_event del: handle_connected_event.simps)

lemma reachable_safe: "reachable env config cmds s \<Longrightarrow> safe True s"
proof (induction rule: reachable.induct)
  case start
  then show ?case by (simp add: new_actor_def safe_def conn_inv_def none_subscribed_def)
next
  case (step cmds s cmds' t)
  then show ?case by (simp add: safe_step)
qed

text \<open>
  C2. the invariant of the state machine. In every reachable state the shared atomic agrees with the
  state; sink and stream belong to the same connection and exist in state \<open>Connected\<close> only; outside
  it nothing is pending and no channel is subscribed; nobody waits for a connect in a state that is
  not trying to connect, and an actor that is connecting was asked to.
\<close>

theorem reachable_inv:
  assumes "reachable env config cmds s"
  shows "from_u8 (a_shared_state s) = a_state s \<and> a_sink s = a_stream s \<and>
     (a_state s \<noteq> Connected \<longrightarrow> a_sink s = None \<and> hm_keys (a_pending s) = [] \<and>
        (\<forall>ch sub. hm_get (a_subs s) ch = Some sub \<longrightarrow> ss_state sub \<noteq> Subscribed)) \<and>
     (a_state s = Disconnected \<or> a_state s = Closed \<longrightarrow> a_connect_waiters s = []) \<and>
     (a_state s = Disconnected \<longrightarrow> \<not> a_connect_requested s) \<and>
     (a_state s = Connecting \<longrightarrow> a_connect_requested s)"
  using reachable_safe [OF assms] by (auto simp: safe_def conn_inv_def none_subscribed_def)

text \<open>One command into the life of a client: it is connecting, its caller waits.\<close>

theorem reachable_inv_witness:
  "a_state (handle_command sample_env (Connect 7) (new_actor default_client_config)) = Connecting \<and>
   from_u8 (a_shared_state (handle_command sample_env (Connect 7) (new_actor default_client_config))) = Connecting \<and>
   a_connect_requested (handle_command sample_env (Connect 7) (new_actor default_client_config))"
  using reachable_inv [OF reachable_connecting]
  by (simp add: handle_connect_def new_actor_def)

end
