(* ===== verification/Recovery.thy ===== *)
theory Recovery
  imports Growth Transitions
begin

text \<open>
  Positions across a reconnect: what a subscribe result and every publication store, what the next
  handshake asks for, and what the connect result does to the registry of server-side subscriptions.
\<close>

section \<open>Positions\<close>

text \<open>The offset after a list of publications: that of the last one that has an offset.\<close>

definition last_offset :: "proto_publication list \<Rightarrow> u64 \<Rightarrow> u64" where
  "last_offset pubs n = fold (\<lambda>p n. if pp_offset p > 0 then pp_offset p else n) pubs n"

lemma last_offset_simps [simp]:
  "last_offset [] n = n"
  "last_offset (p # pubs) n = last_offset pubs (if pp_offset p > 0 then pp_offset p else n)"
  by (simp_all add: last_offset_def)

lemma receive_publication_fields [simp]:
  "ss_state (fst (receive_publication env pt p x)) = ss_state (fst x)"
  "ss_epoch (fst (receive_publication env pt p x)) = ss_epoch (fst x)"
  "ss_recover (fst (receive_publication env pt p x)) = ss_recover (fst x)"
  "ss_attempts (fst (receive_publication env pt p x)) = ss_attempts (fst x)"
  "ss_config (fst (receive_publication env pt p x)) = ss_config (fst x)"
  "ss_token (fst (receive_publication env pt p x)) = ss_token (fst x)"
  "ss_event_tx (fst (receive_publication env pt p x)) = ss_event_tx (fst x)"
  "ss_delta_negotiated (fst (receive_publication env pt p x)) = ss_delta_negotiated (fst x)"
  "ss_offset (fst (receive_publication env pt p x)) = last_offset [p] (ss_offset (fst x))"
  by (cases x; simp add: receive_publication_def Let_def case_prod_beta)+

lemma receive_publications_fields [simp]:
  "ss_state (fst (fold (receive_publication env pt) ps x)) = ss_state (fst x)"
  "ss_epoch (fst (fold (receive_publication env pt) ps x)) = ss_epoch (fst x)"
  "ss_recover (fst (fold (receive_publication env pt) ps x)) = ss_recover (fst x)"
  "ss_attempts (fst (fold (receive_publication env pt) ps x)) = ss_attempts (fst x)"
  "ss_config (fst (fold (receive_publication env pt) ps x)) = ss_config (fst x)"
  "ss_token (fst (fold (receive_publication env pt) ps x)) = ss_token (fst x)"
  "ss_offset (fst (fold (receive_publication env pt) ps x)) = last_offset ps (ss_offset (fst x))"
  by (induction ps arbitrary: x) simp_all

text \<open>The events of the publications, in their order, with the payloads after the deltas.\<close>

fun delivered :: "env \<Rightarrow> protocol_type \<Rightarrow> sub_state \<Rightarrow> proto_publication list \<Rightarrow> publication list" where
  "delivered env pt sub [] = []"
| "delivered env pt sub (p # pubs) =
     (let (data, sub') = sub_apply_delta (env_codec env) (sub\<lparr>ss_offset := last_offset [p] (ss_offset sub)\<rparr>)
            (pp_data p) (pp_delta p) pt
      in (publication_from p)\<lparr>pub_data := data\<rparr> # delivered env pt sub' pubs)"

lemma receive_publication_unfold:
  "receive_publication env pt p (sub, s) =
     (let (data, sub') = sub_apply_delta (env_codec env) (sub\<lparr>ss_offset := last_offset [p] (ss_offset sub)\<rparr>)
            (pp_data p) (pp_delta p) pt
      in (sub', sub_emit sub' (SE_Publication ((publication_from p)\<lparr>pub_data := data\<rparr>)) s))"
  by (simp add: receive_publication_def Let_def case_prod_beta)

definition sub_events :: "sub_state \<Rightarrow> sub_event list \<Rightarrow> effect list" where
  "sub_events sub evs = (case ss_event_tx sub of Some tx \<Rightarrow> map (EmitSub tx) evs | None \<Rightarrow> [])"

lemma sub_emit_log: "a_log (sub_emit sub ev s) = a_log s @ sub_events sub [ev]"
  by (simp add: sub_emit_def sub_events_def split: option.split)

lemma receive_publications_log:
  "a_log (snd (fold (receive_publication env pt) pubs (sub, s)))
     = a_log s @ sub_events sub (map SE_Publication (delivered env pt sub pubs))"
proof (induction pubs arbitrary: sub s)
  case Nil
  show ?case by (simp add: sub_events_def split: option.split)
next
  case (Cons p pubs)
  obtain data sub' where d: "sub_apply_delta (env_codec env)
      (sub\<lparr>ss_offset := last_offset [p] (ss_offset sub)\<rparr>) (pp_data p) (pp_delta p) pt = (data, sub')"
    by fastforce
  have "ss_event_tx sub' = ss_event_tx sub"
    using sub_apply_delta_simps(9) [of "env_codec env" "sub\<lparr>ss_offset := last_offset [p] (ss_offset sub)\<rparr>"
        "pp_data p" "pp_delta p" pt] by (simp only: d snd_conv) simp
  then show ?case
    using Cons [of sub'] d
    by (simp add: receive_publication_unfold Let_def sub_emit_log sub_events_def split: option.split
        del: last_offset_simps)
qed

section \<open>A successful subscribe\<close>

lemma subscribed_sub_fields [simp]:
  "ss_state (subscribed_sub result sub) = Subscribed"
  "ss_attempts (subscribed_sub result sub) = 0"
  "ss_delta_negotiated (subscribed_sub result sub) = sr_delta result"
  "ss_event_tx (subscribed_sub result sub) = ss_event_tx sub"
  "ss_config (subscribed_sub result sub) = ss_config sub"
  "ss_token (subscribed_sub result sub) = ss_token sub"
  "ss_offset (subscribed_sub result sub) =
     (if sr_recoverable result \<or> sr_positioned result then sr_offset result else ss_offset sub)"
  "ss_epoch (subscribed_sub result sub) =
     (if sr_recoverable result \<or> sr_positioned result then sr_epoch result else ss_epoch sub)"
  "ss_recover (subscribed_sub result sub) = (sr_recoverable result \<or> ss_recover sub)"
  by (auto simp: subscribed_sub_def Let_def)

text \<open>
  C19. A successful subscribe: the channel is subscribed, nobody waits for it any more, its position is
  the server's moved on by the recovered publications, and the user has seen first the subscribed
  event and then exactly the recovered publications in order; every waiter has then been told, and
  the refresh of an expiring token is scheduled.
\<close>

theorem subscribe_success:
  assumes "hm_get (a_subs s) ch = Some sub"
  shows "(\<exists>sub'. hm_get (a_subs (handle_subscribe_success env ch result s)) ch = Some sub' \<and>
      ss_state sub' = Subscribed \<and> ss_waiters sub' = [] \<and> ss_attempts sub' = 0 \<and>
      ss_offset sub' = last_offset (sr_publications result)
        (if sr_recoverable result \<or> sr_positioned result then sr_offset result else ss_offset sub) \<and>
      ss_epoch sub' = (if sr_recoverable result \<or> sr_positioned result then sr_epoch result else ss_epoch sub)) \<and>
    a_log (handle_subscribe_success env ch result s) = a_log s @
      sub_events sub (SE_Subscribed (subscribed_context_of ch (recovering sub) result)
        # map SE_Publication (delivered env (protocol_of s) (subscribed_sub result sub) (sr_publications result)))
      @ map (\<lambda>w. Answer w (RUnit (Inr ()))) (ss_waiters sub)
      @ (if sr_expires result \<and> sr_ttl result > 0
         then [Schedule (refresh_delay (sr_ttl result)) (RefreshSubToken ch)] else [])"
proof -
  have "sub_events (subscribed_sub result sub) evs = sub_events sub evs" for evs
    by (simp add: sub_events_def)
  then show ?thesis
    using assms
    by (simp add: handle_subscribe_success_def Let_def case_prod_beta receive_publications_log sub_emit_log
        schedule_sub_token_refresh_def schedule_def)
      (simp add: sub_events_def split: option.split)
qed

definition one_sub_actor :: actor where
  "one_sub_actor = (new_actor default_client_config)\<lparr>a_state := Connected, a_connect_requested := True,
     a_subs := hm_insert ''news'' ((new_sub_state default_subscription_config)\<lparr>ss_state := Subscribing,
       ss_event_tx := Some 3, ss_waiters := [7, 8]\<rparr>) hm_empty\<rparr>"

theorem subscribe_success_witness:
  "\<exists>sub'. hm_get (a_subs (handle_subscribe_success sample_env ''news'' (default_subscribe_result\<lparr>
       sr_recoverable := True, sr_offset := 41, sr_epoch := ''e'',
       sr_publications := [default_publication\<lparr>pp_offset := 42\<rparr>]\<rparr>) one_sub_actor)) ''news'' = Some sub' \<and>
     ss_state sub' = Subscribed \<and> ss_waiters sub' = [] \<and> ss_offset sub' = 42 \<and> ss_epoch sub' = ''e''"
  using subscribe_success [of one_sub_actor "''news''", where env = sample_env and
      result = "default_subscribe_result\<lparr>sr_recoverable := True, sr_offset := 41, sr_epoch := ''e'',
       sr_publications := [default_publication\<lparr>pp_offset := 42\<rparr>]\<rparr>"]
  by (force simp: one_sub_actor_def)

section \<open>The next handshake\<close>

lemma map_of_entries: "map_of (hm_entries m) k = hm_get m k"
  by (simp add: hm_entries_def hm_get_def DAList.lookup.rep_eq)

lemma distinct_entries [simp]: "distinct (map fst (hm_entries m))"
  by (simp add: hm_entries_def)

lemma get_fold_filtered:
  "distinct (map fst xs) \<Longrightarrow>
   hm_get (fold (\<lambda>(k, v) m. if P v then hm_insert k (f k v) m else m) xs m) k =
     (case map_of xs k of Some v \<Rightarrow> if P v then Some (f k v) else hm_get m k | None \<Rightarrow> hm_get m k)"
  by (induction xs arbitrary: m) (auto split: option.splits simp: map_of_eq_None_iff rev_image_eqI)

lemma handshake_subs_get:
  "hm_get (handshake_subs s) ch =
     (case hm_get (a_subs s) ch of
        Some sub \<Rightarrow> if batched_in_handshake sub then Some (subscribe_request_of ch sub)
          else (case hm_get (a_server_subs s) ch of
              Some srv \<Rightarrow> if srv_recoverable srv then Some (server_sub_request srv) else None
            | None \<Rightarrow> None)
      | None \<Rightarrow> (case hm_get (a_server_subs s) ch of
              Some srv \<Rightarrow> if srv_recoverable srv then Some (server_sub_request srv) else None
            | None \<Rightarrow> None))"
proof -
  have srv: "hm_get (fold (\<lambda>(ch, sub) m. if srv_recoverable sub then hm_insert ch (server_sub_request sub) m else m)
      (hm_entries (a_server_subs s)) hm_empty) ch = (case hm_get (a_server_subs s) ch of
              Some srv \<Rightarrow> if srv_recoverable srv then Some (server_sub_request srv) else None
            | None \<Rightarrow> None)"
    by (subst get_fold_filtered [where f = "\<lambda>ch. server_sub_request"])
      (simp_all add: map_of_entries split: option.split)
  show ?thesis
    unfolding handshake_subs_def Let_def
    by (subst get_fold_filtered [where f = subscribe_request_of]) (simp_all add: map_of_entries srv split: option.split)
qed

text \<open>A request that recovers a channel from where a subscription stands.\<close>

definition asks_from :: "string \<Rightarrow> sub_state \<Rightarrow> subscribe_request \<Rightarrow> bool" where
  "asks_from ch sub req \<longleftrightarrow> sq_channel req = ch \<and> sq_recover req \<and>
     sq_offset req = ss_offset sub \<and> sq_epoch req = ss_epoch sub"

definition same_position :: "sub_state \<Rightarrow> sub_state \<Rightarrow> bool" where
  "same_position sub sub' \<longleftrightarrow> ss_offset sub' = ss_offset sub \<and> ss_epoch sub' = ss_epoch sub \<and>
     ss_recover sub' = ss_recover sub"

lemma asks_from_request: "recovering sub \<Longrightarrow> same_position sub sub' \<Longrightarrow> asks_from ch sub (subscribe_request_of ch sub')"
  by (auto simp: asks_from_def same_position_def subscribe_request_of_def recovering_def default_subscribe_request_def)

text \<open>The callbacks of \<open>do_subscribe\<close> change the token and the data of a request, not its position.\<close>

lemma callbacks_keep_position:
  assumes "hm_get (a_subs u) ch = Some sub" and "fst (subscribe_token env ch sub u)"
  shows "\<exists>sub'. hm_get (a_subs (subscribe_data ch (snd (subscribe_token env ch sub u)))) ch = Some sub' \<and>
    same_position sub sub'"
proof -
  let ?v = "snd (subscribe_token env ch sub u)"
  obtain sub' where v: "hm_get (a_subs ?v) ch = Some sub'" and p: "same_position sub sub'"
    using assms
    by (auto simp: subscribe_token_def same_position_def put_sub_def split: option.splits sum.splits if_splits)
  then show ?thesis
    by (auto simp: subscribe_data_def same_position_def put_sub_def split: option.splits sum.splits)
qed

text \<open>A subscribe request is registered under the next identifier and sent; it is forgotten when the send fails.\<close>

definition sent_subscribe :: "env \<Rightarrow> string \<Rightarrow> subscribe_request \<Rightarrow> actor \<Rightarrow> actor" where
  "sent_subscribe env ch req v =
     (case send_command env (default_command\<lparr>cmd_id := a_next_id v, cmd_subscribe := Some req\<rparr>)
         (register (PSubscribe ch None) v) of
        (Inr (), t) \<Rightarrow> t | (Inl e, t) \<Rightarrow> remove_pending (a_next_id v) t)"

text \<open>So the subscribe request that \<open>do_subscribe\<close> registers and sends recovers from where the channel stands.\<close>

lemma do_subscribe_asks:
  assumes "hm_get (a_subs u) ch = Some sub'" and "ss_state sub' = Subscribing"
    and "recovering sub" and "same_position sub sub'" and "fst (subscribe_token env ch sub' u)"
  shows "\<exists>v req. asks_from ch sub req \<and> do_subscribe env ch u = sent_subscribe env ch req v"
proof -
  let ?v = "subscribe_data ch (snd (subscribe_token env ch sub' u))"
  obtain sub2 where v: "hm_get (a_subs ?v) ch = Some sub2" and p: "same_position sub' sub2"
    using callbacks_keep_position [OF assms(1,5)] by blast
  let ?req = "subscribe_request_of ch sub2"
  have "same_position sub sub2" using p assms(4) by (simp add: same_position_def)
  then have "asks_from ch sub ?req" by (rule asks_from_request [OF assms(3)])
  moreover have "do_subscribe env ch u = send_subscribe env ch ?v"
    using assms(1,2,5) by (simp add: do_subscribe_def case_prod_beta)
  moreover have "send_subscribe env ch ?v = sent_subscribe env ch ?req ?v"
    using v by (simp add: send_subscribe_def sent_subscribe_def build_subscribe_command_def register_def track_def
        next_cmd_id_def case_prod_beta Let_def split: sum.split unit.split)
  ultimately show ?thesis by (intro exI [of _ ?v] exI [of _ ?req]) simp
qed

text \<open>
  C12. No position is lost with the connection. When a transport is lost and will be tried again, every
  subscribed channel with a position to recover from is subscribing at that position. If it needs no
  callback, the connect command of the next handshake asks for it from exactly that offset and
  epoch; in any case, so does every subscribe request that \<open>do_subscribe\<close> sends for it, whatever the
  callbacks for its token and data return, in any later state in which it is still subscribing at
  that position. Every recoverable server-side subscription is asked for from its own position, unless
  a client-side subscription to the same channel is.
\<close>

theorem resume_from_position:
  assumes "will_reconnect info s"
    and "cmd_connect (connect_command i (on_transport_close env info s)) = Some conn"
  shows "(\<forall>ch sub. hm_get (a_subs s) ch = Some sub \<and> ss_state sub = Subscribed \<and> recovering sub \<longrightarrow>
      (\<exists>sub'. hm_get (a_subs (on_transport_close env info s)) ch = Some sub' \<and> ss_state sub' = Subscribing \<and>
        same_position sub sub') \<and>
      (\<not> needs_token sub \<and> scfg_get_data (ss_config sub) = None \<longrightarrow>
        (\<exists>req. hm_get (cq_subs conn) ch = Some req \<and> asks_from ch sub req)) \<and>
      (\<forall>env' u sub'. hm_get (a_subs u) ch = Some sub' \<and> ss_state sub' = Subscribing \<and> same_position sub sub' \<and>
          fst (subscribe_token env' ch sub' u) \<longrightarrow>
        (\<exists>v req. asks_from ch sub req \<and> do_subscribe env' ch u = sent_subscribe env' ch req v))) \<and>
    (\<forall>ch srv. hm_get (a_server_subs s) ch = Some srv \<and> srv_recoverable srv \<and>
        (\<forall>sub. hm_get (a_subs s) ch = Some sub \<longrightarrow> \<not> batched_in_handshake (suspended_sub sub)) \<longrightarrow>
      (\<exists>req. hm_get (cq_subs conn) ch = Some req \<and>
        sq_recover req \<and> sq_offset req = srv_offset srv \<and> sq_epoch req = srv_epoch srv))"
proof -
  let ?t = "on_transport_close env info s"
  have srv: "a_server_subs ?t = a_server_subs s"
    using assms(1)
    by (auto simp: on_transport_close_def Let_def will_reconnect_def transport_closed_info_def
        for_keys_keeps [where p = a_server_subs] split: option.splits)
  have subs: "hm_get (a_subs ?t) ch = map_option suspended_sub (hm_get (a_subs s) ch)" for ch
    using assms(1) by simp
  have conn: "cq_subs conn = handshake_subs ?t"
    using assms(2) by (auto simp: connect_command_def)
  have "\<exists>sub'. hm_get (a_subs ?t) ch = Some sub' \<and> ss_state sub' = Subscribing \<and> same_position sub sub'"
    "\<not> needs_token sub \<and> scfg_get_data (ss_config sub) = None \<longrightarrow>
       (\<exists>req. hm_get (cq_subs conn) ch = Some req \<and> asks_from ch sub req)"
    if "hm_get (a_subs s) ch = Some sub" "ss_state sub = Subscribed" "recovering sub" for ch sub
    using that asks_from_request [OF that(3), of "sub\<lparr>ss_state := Subscribing, ss_attempts := 0\<rparr>" ch]
    by (auto simp: assms(1) conn subs handshake_subs_get suspended_sub_def batched_in_handshake_def needs_token_def
        same_position_def)
  moreover have "\<exists>req. hm_get (cq_subs conn) ch = Some req \<and>
      sq_recover req \<and> sq_offset req = srv_offset srv \<and> sq_epoch req = srv_epoch srv"
    if "hm_get (a_server_subs s) ch = Some srv" "srv_recoverable srv"
      "\<forall>sub. hm_get (a_subs s) ch = Some sub \<longrightarrow> \<not> batched_in_handshake (suspended_sub sub)" for ch srv
    using that by (auto simp: assms(1) conn subs srv handshake_subs_get server_sub_request_def default_subscribe_request_def
        split: option.split)
  ultimately show ?thesis
    using do_subscribe_asks by (intro conjI allI impI) blast+
qed

definition resuming_actor :: actor where
  "resuming_actor = (new_actor default_client_config)\<lparr>a_state := Connected, a_connect_requested := True,
     a_subs := hm_insert ''news'' ((new_sub_state default_subscription_config)\<lparr>ss_state := Subscribed,
       ss_recover := True, ss_offset := 42, ss_epoch := ''e''\<rparr>) hm_empty,
     a_server_subs := hm_insert ''srv'' \<lparr>srv_recoverable = True, srv_offset = 5, srv_epoch = ''f''\<rparr> hm_empty\<rparr>"

theorem resume_from_position_witness:
  "\<exists>req req'. hm_get (handshake_subs (on_transport_close sample_env None resuming_actor)) ''news'' = Some req \<and>
      sq_channel req = ''news'' \<and> sq_recover req \<and> sq_offset req = 42 \<and> sq_epoch req = ''e'' \<and>
    hm_get (handshake_subs (on_transport_close sample_env None resuming_actor)) ''srv'' = Some req' \<and>
      sq_recover req' \<and> sq_offset req' = 5 \<and> sq_epoch req' = ''f''"
proof -
  let ?t = "on_transport_close sample_env None resuming_actor"
  let ?conn = "the (cmd_connect (connect_command 1 ?t))"
  let ?news = "(new_sub_state default_subscription_config)\<lparr>ss_state := Subscribed, ss_recover := True,
    ss_offset := 42, ss_epoch := ''e''\<rparr>"
  have "will_reconnect None resuming_actor" "cmd_connect (connect_command 1 ?t) = Some ?conn"
    by (simp_all add: resuming_actor_def will_reconnect_def connect_command_def)
  note resume = resume_from_position [OF this]
  have "hm_get (a_subs resuming_actor) ''news'' = Some ?news" "ss_state ?news = Subscribed" "recovering ?news"
    "\<not> needs_token ?news" "scfg_get_data (ss_config ?news) = None"
    by (simp_all add: resuming_actor_def recovering_def needs_token_def new_sub_state_def
        default_subscription_config_def)
  with resume have news: "\<exists>req. hm_get (cq_subs ?conn) ''news'' = Some req \<and> asks_from ''news'' ?news req" by blast
  have "hm_get (a_server_subs resuming_actor) ''srv'' = Some \<lparr>srv_recoverable = True, srv_offset = 5, srv_epoch = ''f''\<rparr>"
    "hm_get (a_subs resuming_actor) ''srv'' = None"
    by (simp_all add: resuming_actor_def)
  with resume have "\<exists>req. hm_get (cq_subs ?conn) ''srv'' = Some req \<and> sq_recover req \<and> sq_offset req = 5 \<and> sq_epoch req = ''f''"
    by fastforce
  moreover have "cq_subs ?conn = handshake_subs ?t" by (simp add: connect_command_def)
  ultimately show ?thesis using news by (auto simp: asks_from_def)
qed

section \<open>Server-side subscriptions of a connect result\<close>

text \<open>The registry entry a connect result asks for.\<close>

definition registered :: "subscribe_result \<Rightarrow> server_sub_state" where
  "registered r = \<lparr>srv_recoverable = sr_recoverable r,
     srv_offset = last_offset (sr_publications r) (sr_offset r), srv_epoch = sr_epoch r\<rparr>"

lemma receive_server_publication_get:
  "hm_get (a_server_subs (receive_server_publication ch p s)) ch' =
     (if ch' = ch then map_option (\<lambda>srv. srv\<lparr>srv_offset := last_offset [p] (srv_offset srv)\<rparr>) (hm_get (a_server_subs s) ch)
      else hm_get (a_server_subs s) ch')"
  by (auto simp: receive_server_publication_def Let_def split: option.splits)

lemma receive_server_publications_get:
  "hm_get (a_server_subs (fold (receive_server_publication ch) ps s)) ch' =
     (if ch' = ch then map_option (\<lambda>srv. srv\<lparr>srv_offset := last_offset ps (srv_offset srv)\<rparr>) (hm_get (a_server_subs s) ch)
      else hm_get (a_server_subs s) ch')"
proof (induction ps arbitrary: s)
  case Nil
  then show ?case by (simp add: option.map_id [unfolded id_def])
next
  case (Cons p ps)
  then show ?case
    by (auto simp: receive_server_publication_get option.map_comp comp_def split: option.splits)
qed

lemma receive_server_publication_subs [simp]:
  "a_subs (receive_server_publication ch p s) = a_subs s"
  by (simp add: receive_server_publication_def Let_def split: option.split)

lemma receive_publication_server_subs [simp]:
  "a_server_subs (snd (receive_publication env pt p x)) = a_server_subs (snd x)"
  by (cases x) (simp add: receive_publication_def Let_def case_prod_beta)

lemma receive_publications_server_subs [simp]:
  "a_server_subs (snd (fold (receive_publication env pt) ps x)) = a_server_subs (snd x)"
  by (induction ps arbitrary: x) simp_all

lemma handle_subscribe_success_server_subs [simp]:
  "a_server_subs (handle_subscribe_success env ch result s) = a_server_subs s"
  "set (hm_keys (a_subs (handle_subscribe_success env ch result s))) = set (hm_keys (a_subs s))"
  by (auto simp: handle_subscribe_success_def Let_def case_prod_beta schedule_sub_token_refresh_def
      hm_keys_iff_get split: option.split)

text \<open>One channel of the result changes its own registry entry at most, and no set of channels.\<close>

lemma process_server_sub_get:
  "hm_get (a_server_subs (process_server_sub env result ch s)) ch' =
     (if ch' = ch then
        (case hm_get (cr_subs result) ch of
           Some r \<Rightarrow> if ch \<in> set (hm_keys (a_subs s)) then hm_get (a_server_subs s) ch else Some (registered r)
         | None \<Rightarrow> hm_get (a_server_subs s) ch)
      else hm_get (a_server_subs s) ch')"
  by (simp add: process_server_sub_def Let_def receive_server_publications_get registered_def
      split: option.split)

lemma process_server_sub_keys:
  "set (hm_keys (a_subs (process_server_sub env result ch s))) = set (hm_keys (a_subs s))"
  by (simp add: process_server_sub_def Let_def fold_keeps [where p = a_subs] split: option.split)

lemma process_server_subs_loop:
  "distinct chs \<Longrightarrow> hm_get (a_server_subs (fold (process_server_sub env result) chs s)) ch =
     (if ch \<in> set chs then
        (case hm_get (cr_subs result) ch of
           Some r \<Rightarrow> if ch \<in> set (hm_keys (a_subs s)) then hm_get (a_server_subs s) ch else Some (registered r)
         | None \<Rightarrow> hm_get (a_server_subs s) ch)
      else hm_get (a_server_subs s) ch)"
  by (induction chs arbitrary: s) (auto simp: process_server_sub_get process_server_sub_keys split: option.split)

lemma remove_lost_loop:
  "hm_get (a_server_subs (fold (remove_lost_server_sub result) chs s)) ch =
     (if ch \<in> set chs \<and> ch \<notin> set (hm_keys (cr_subs result)) then None else hm_get (a_server_subs s) ch)"
  by (induction chs arbitrary: s) (auto simp: remove_lost_server_sub_def)

text \<open>
  C22. After a connect the registry of server-side subscriptions is the server's: a channel of the
  result without a client-side subscription is registered with the result's flags and position,
  moved on by the recovered publications; a registered channel the result does not have is gone;
  a channel with a client-side subscription keeps the entry it had, if any.
\<close>

theorem server_registry:
  "hm_get (a_server_subs (process_server_subs env result s)) ch =
     (case hm_get (cr_subs result) ch of
        Some r \<Rightarrow> if hm_contains (a_subs s) ch then hm_get (a_server_subs s) ch else Some (registered r)
      | None \<Rightarrow> None)"
proof -
  have "ch \<notin> set (hm_keys (a_server_subs s)) \<Longrightarrow> hm_get (a_server_subs s) ch = None"
    by (simp add: hm_keys_iff_get)
  then show ?thesis
    by (auto simp: process_server_subs_def Let_def remove_lost_loop for_keys_def process_server_subs_loop
        hm_keys_iff_get split: option.split)
qed

end
