(* ===== verification/Lifecycle.thy ===== *)
theory Lifecycle
  imports Callers Growth Invariant Recovery
begin

text \<open>
  What disconnecting, closing, losing the transport and a successful handshake tell the callers.
\<close>

section \<open>Who is told what\<close>

lemma fail_all_pending_answers:
  assumes "hm_get (a_pending s) i = Some req" and "pending_sender req = Some w"
  shows "Answer w (failure req ClientDisconnected) \<in> set (a_log (fail_all_pending env s))"
  unfolding fail_all_pending_def
proof (rule for_keys_logs [where p = "\<lambda>s. hm_get (a_pending s) i" and x = "Some req"])
  show "prefix (a_log s) (a_log (case hm_get (a_pending s) k of None \<Rightarrow> s
      | Some req \<Rightarrow> snd (fail_request req ClientDisconnected (remove_pending k s))))" for k s
    by (auto intro: grows.fail_pending split: option.split)
qed (use assms in \<open>auto simp: fail_request_log hm_keys_iff_get split: option.split\<close>)

lemma drop_connection_answers:
  assumes "hm_get (a_pending s) i = Some req" and "pending_sender req = Some w"
  shows "Answer w (failure req ClientDisconnected) \<in> set (a_log (drop_connection env s))"
  using fail_all_pending_answers [of "s\<lparr>a_sink := None, a_stream := None\<rparr>" i req w env] assms
  by (simp add: drop_connection_def)

lemma unsubscribe_all_answers:
  assumes "hm_get (a_subs s) ch = Some sub" and "ss_state sub \<noteq> Unsubscribed" and "w \<in> set (ss_waiters sub)"
  shows "Answer w (RUnit (Inl err)) \<in> set (a_log (unsubscribe_all_subs env err code reason s))"
  unfolding unsubscribe_all_subs_def
proof (rule for_keys_logs [where p = "\<lambda>s. hm_get (a_subs s) ch" and x = "Some sub" and ?k0.0 = ch])
  show "Answer w (RUnit (Inl err)) \<in> set (a_log (unsubscribe_sub err code reason ch s))"
    if "hm_get (a_subs s) ch = Some sub" for s
    using assms that by (auto simp: unsubscribe_sub_def sub_emit_log)
  show "prefix (a_log s) (a_log (unsubscribe_sub err code reason k s))" for k s
    by (rule grows.r_unsubscribe_sub)
qed (use assms in \<open>auto simp: unsubscribe_sub_def hm_keys_iff_get split: option.split\<close>)

lemma drain_connect_answers:
  "w \<in> set (a_connect_waiters s) \<Longrightarrow> Answer w v \<in> set (a_log (drain_connect_waiters v s))"
  by (simp add: drain_connect_waiters_def)

section \<open>Disconnecting and closing\<close>

text \<open>The part both transitions have in common: drop the connection, then turn the connect waiters away.\<close>

lemma drop_and_drain_answers:
  shows "hm_get (a_pending s) i = Some req \<Longrightarrow> pending_sender req = Some w \<Longrightarrow>
      Answer w (failure req ClientDisconnected) \<in> set (a_log (drain_connect_waiters (RUnit v) (drop_connection env s)))"
    and "w \<in> set (a_connect_waiters s) \<Longrightarrow>
      Answer w (RUnit v) \<in> set (a_log (drain_connect_waiters (RUnit v) (drop_connection env s)))"
proof -
  assume "hm_get (a_pending s) i = Some req" "pending_sender req = Some w"
  then show "Answer w (failure req ClientDisconnected) \<in> set (a_log (drain_connect_waiters (RUnit v) (drop_connection env s)))"
    using log_mono [OF grows.r_drain_connect] drop_connection_answers by blast
next
  assume "w \<in> set (a_connect_waiters s)"
  then show "Answer w (RUnit v) \<in> set (a_log (drain_connect_waiters (RUnit v) (drop_connection env s)))"
    by (intro drain_connect_answers) simp
qed

lemma move_to_disconnected_answers:
  shows "hm_get (a_pending s) i = Some req \<Longrightarrow> pending_sender req = Some w \<Longrightarrow>
      Answer w (failure req ClientDisconnected) \<in> set (a_log (move_to_disconnected env code reason s))"
    and "w \<in> set (a_connect_waiters s) \<Longrightarrow>
      Answer w (RUnit (Inl ClientDisconnected)) \<in> set (a_log (move_to_disconnected env code reason s))"
    and "a_state s = Connected \<Longrightarrow> hm_get (a_subs s) ch = Some sub \<Longrightarrow> ss_state sub \<noteq> Unsubscribed \<Longrightarrow>
      w \<in> set (ss_waiters sub) \<Longrightarrow>
      Answer w (RUnit (Inl ClientDisconnected)) \<in> set (a_log (move_to_disconnected env code reason s))"
proof -
  let ?b = "(update_shared_state (s\<lparr>a_state := Disconnected\<rparr>))\<lparr>a_client_id := [], a_connect_requested := False\<rparr>"
  let ?c = "drain_connect_waiters (RUnit (Inl ClientDisconnected)) (drop_connection env ?b)"
  let ?d = "if a_state s = Connected then unsubscribe_all_subs env ClientDisconnected CLIENT_CLOSED reason ?c else ?c"
  let ?t = "move_to_disconnected env code reason s"
  have d: "prefix (a_log ?d) (a_log ?t)"
    unfolding move_to_disconnected_def Let_def
    by (rule grows.then_any_event) (rule grows.r_drain_server_subs)
  have "prefix (a_log ?c) (a_log ?d)" by simp
  with d have c: "prefix (a_log ?c) (a_log ?t)" by (rule prefix_order.trans [rotated])
  {
    assume "hm_get (a_pending s) i = Some req" "pending_sender req = Some w"
    then have "Answer w (failure req ClientDisconnected) \<in> set (a_log ?c)"
      by (intro drop_and_drain_answers(1)) (simp_all add: update_shared_state_def)
    then show "Answer w (failure req ClientDisconnected) \<in> set (a_log ?t)" by (rule log_mono [OF c])
  next
    assume "w \<in> set (a_connect_waiters s)"
    then have "Answer w (RUnit (Inl ClientDisconnected)) \<in> set (a_log ?c)"
      by (intro drop_and_drain_answers(2)) (simp add: update_shared_state_def)
    then show "Answer w (RUnit (Inl ClientDisconnected)) \<in> set (a_log ?t)" by (rule log_mono [OF c])
  next
    assume "a_state s = Connected" "hm_get (a_subs s) ch = Some sub" "ss_state sub \<noteq> Unsubscribed"
      "w \<in> set (ss_waiters sub)"
    then have "Answer w (RUnit (Inl ClientDisconnected)) \<in> set (a_log ?d)"
      using unsubscribe_all_answers [of ?c ch sub w] by (simp add: update_shared_state_def)
    then show "Answer w (RUnit (Inl ClientDisconnected)) \<in> set (a_log ?t)" by (rule log_mono [OF d])
  }
qed

lemma move_to_closed_answers:
  shows "hm_get (a_pending s) i = Some req \<Longrightarrow> pending_sender req = Some w \<Longrightarrow>
      Answer w (failure req ClientDisconnected) \<in> set (a_log (move_to_closed env s))"
    and "w \<in> set (a_connect_waiters s) \<Longrightarrow>
      Answer w (RUnit (Inl ClientClosed)) \<in> set (a_log (move_to_closed env s))"
    and "hm_get (a_subs s) ch = Some sub \<Longrightarrow> ss_state sub \<noteq> Unsubscribed \<Longrightarrow> w \<in> set (ss_waiters sub) \<Longrightarrow>
      Answer w (RUnit (Inl ClientClosed)) \<in> set (a_log (move_to_closed env s))"
proof -
  let ?c = "drain_connect_waiters (RUnit (Inl ClientClosed))
    (drop_connection env (update_shared_state (s\<lparr>a_state := Closed\<rparr>)))"
  let ?t = "move_to_closed env s"
  have c: "prefix (a_log ?c) (a_log ?t)"
    unfolding move_to_closed_def Let_def by (rule grows.r_unsubscribe_all)
  {
    assume "hm_get (a_pending s) i = Some req" "pending_sender req = Some w"
    then have "Answer w (failure req ClientDisconnected) \<in> set (a_log ?c)"
      by (intro drop_and_drain_answers(1)) (simp_all add: update_shared_state_def)
    then show "Answer w (failure req ClientDisconnected) \<in> set (a_log ?t)" by (rule log_mono [OF c])
  next
    assume "w \<in> set (a_connect_waiters s)"
    then have "Answer w (RUnit (Inl ClientClosed)) \<in> set (a_log ?c)"
      by (intro drop_and_drain_answers(2)) (simp add: update_shared_state_def)
    then show "Answer w (RUnit (Inl ClientClosed)) \<in> set (a_log ?t)" by (rule log_mono [OF c])
  next
    assume "hm_get (a_subs s) ch = Some sub" "ss_state sub \<noteq> Unsubscribed" "w \<in> set (ss_waiters sub)"
    then show "Answer w (RUnit (Inl ClientClosed)) \<in> set (a_log ?t)"
      unfolding move_to_closed_def Let_def
      by (intro unsubscribe_all_answers) (simp_all add: update_shared_state_def)
  }
qed

text \<open>
  C15. \<open>disconnect\<close> ends in \<open>Disconnected\<close> with nothing of the connection left: pending requests and
  connect callers are told, and the caller of \<open>disconnect\<close> is answered last, with success. The
  callers waiting for a subscription are told only when the client was connected, and of those
  only the ones whose channel is not unsubscribed; from any other state the subscriptions are left
  exactly as they are, and whoever waits for one goes on waiting.
\<close>

theorem disconnect_settles:
  "let t = handle_command env (Disconnect r) s in
     a_state t = Disconnected \<and> a_sink t = None \<and> hm_keys (a_pending t) = [] \<and> a_connect_waiters t = [] \<and>
     \<not> a_connect_requested t \<and> \<not> a_batch_active t \<and> a_batch_queue t = [] \<and> a_server_subs t = hm_empty \<and>
     (\<forall>i req w. hm_get (a_pending s) i = Some req \<and> pending_sender req = Some w \<longrightarrow>
        Answer w (failure req ClientDisconnected) \<in> set (a_log t)) \<and>
     (\<forall>w. w \<in> set (a_connect_waiters s) \<longrightarrow> Answer w (RUnit (Inl ClientDisconnected)) \<in> set (a_log t)) \<and>
     (\<forall>ch sub w. a_state s = Connected \<and> hm_get (a_subs s) ch = Some sub \<and> ss_state sub \<noteq> Unsubscribed \<and>
        w \<in> set (ss_waiters sub) \<longrightarrow> Answer w (RUnit (Inl ClientDisconnected)) \<in> set (a_log t)) \<and>
     (\<forall>ch. hm_get (a_subs t) ch =
        (if a_state s = Connected then map_option closed_sub (hm_get (a_subs s) ch) else hm_get (a_subs s) ch)) \<and>
     last (a_log t) = Answer r (RUnit (Inr ()))"
  by (auto simp: Let_def answer_def move_to_disconnected_answers)

theorem disconnect_settles_witness:
  "last (a_log (handle_command sample_env (Disconnect 9) one_sub_actor)) = Answer 9 (RUnit (Inr ())) \<and>
   Answer 7 (RUnit (Inl ClientDisconnected)) \<in> set (a_log (handle_command sample_env (Disconnect 9) one_sub_actor)) \<and>
   Answer 8 (RUnit (Inl ClientDisconnected)) \<in> set (a_log (handle_command sample_env (Disconnect 9) one_sub_actor))"
proof -
  have "a_state one_sub_actor = Connected" by (simp add: one_sub_actor_def)
  moreover obtain sub where "hm_get (a_subs one_sub_actor) ''news'' = Some sub" "ss_state sub \<noteq> Unsubscribed"
    "7 \<in> set (ss_waiters sub)" "8 \<in> set (ss_waiters sub)"
    by (simp add: one_sub_actor_def)
  ultimately show ?thesis
    using disconnect_settles [of sample_env 9 one_sub_actor] unfolding Let_def by blast
qed

text \<open>
  C14. \<open>close\<close> ends in \<open>Closed\<close>, from which no step leads away. Pending requests and connect callers
  are told, and so are the callers waiting for a subscription that is not unsubscribed. (Callers
  left in the list of an unsubscribed channel are not: its entry stays as it is.)
\<close>

theorem close_settles:
  "let t = handle_command env (Close r) s in
     a_state t = Closed \<and> a_sink t = None \<and> hm_keys (a_pending t) = [] \<and> a_connect_waiters t = [] \<and>
     \<not> actor_step env cmds t u \<and>
     (\<forall>i req w. hm_get (a_pending s) i = Some req \<and> pending_sender req = Some w \<longrightarrow>
        Answer w (failure req ClientDisconnected) \<in> set (a_log t)) \<and>
     (\<forall>w. w \<in> set (a_connect_waiters s) \<longrightarrow> Answer w (RUnit (Inl ClientClosed)) \<in> set (a_log t)) \<and>
     (\<forall>ch sub w. hm_get (a_subs s) ch = Some sub \<and> ss_state sub \<noteq> Unsubscribed \<and>
        w \<in> set (ss_waiters sub) \<longrightarrow> Answer w (RUnit (Inl ClientClosed)) \<in> set (a_log t)) \<and>
     (\<forall>ch. hm_get (a_subs t) ch = map_option closed_sub (hm_get (a_subs s) ch)) \<and>
     last (a_log t) = Answer r (RUnit (Inr ()))"
  by (auto simp: Let_def answer_def move_to_closed_answers elim: actor_stepE)

theorem close_settles_witness:
  "a_state (handle_command sample_env (Close 9) one_sub_actor) = Closed \<and>
   Answer 7 (RUnit (Inl ClientClosed)) \<in> set (a_log (handle_command sample_env (Close 9) one_sub_actor)) \<and>
   Answer 8 (RUnit (Inl ClientClosed)) \<in> set (a_log (handle_command sample_env (Close 9) one_sub_actor))"
proof -
  obtain sub where "hm_get (a_subs one_sub_actor) ''news'' = Some sub" "ss_state sub \<noteq> Unsubscribed"
    "7 \<in> set (ss_waiters sub)" "8 \<in> set (ss_waiters sub)"
    by (simp add: one_sub_actor_def)
  then show ?thesis
    using close_settles [of sample_env 9 one_sub_actor] unfolding Let_def by blast
qed

section \<open>Losing the transport\<close>

lemma on_transport_close_grows: "prefix (a_log (drop_connection env s)) (a_log (on_transport_close env info s))"
proof -
  let ?i = "case info of Some i \<Rightarrow> i | None \<Rightarrow> transport_closed_info"
  let ?b = "for_keys env (a_subs (drop_connection env s)) (resubscribing_sub (di_reason ?i)) (drop_connection env s)"
  have b: "prefix (a_log (drop_connection env s)) (a_log ?b)"
    by (rule grows.for_keys_rel) (rule grows.r_resubscribing_sub)
  have "prefix (a_log ?b) (a_log (for_keys env (a_server_subs ?b) (\<lambda>channel. emit_client_event
      (CE_ServerSubscribing channel SUBSCRIBING_TRANSPORT_CLOSED (di_reason ?i))) ?b))"
    by (rule grows.for_keys_rel) simp
  with b have "prefix (a_log (drop_connection env s)) (a_log (for_keys env (a_server_subs ?b) (\<lambda>channel. emit_client_event
      (CE_ServerSubscribing channel SUBSCRIBING_TRANSPORT_CLOSED (di_reason ?i))) ?b))"
    by (rule prefix_order.trans)
  then show ?thesis
    unfolding on_transport_close_def Let_def
    by (auto intro: prefix_order.trans grows.to_connecting simp: grows.to_disconnected)
qed

text \<open>
  C10. Losing the transport: pending requests are failed, the batch is dropped, and the client goes to
  \<open>Connecting\<close> exactly when the close allows it and a connect was asked for. Then connect callers
  keep waiting, subscribed channels become subscribing and keep their positions, the others stay
  as they are. Otherwise the client is disconnected and the connect callers are told.
\<close>

theorem transport_loss:
  "let t = on_transport_close env info s in
     a_state t = (if will_reconnect info s then Connecting else Disconnected) \<and>
     a_sink t = None \<and> a_stream t = None \<and> hm_keys (a_pending t) = [] \<and>
     \<not> a_batch_active t \<and> a_batch_queue t = [] \<and>
     (\<forall>i req w. hm_get (a_pending s) i = Some req \<and> pending_sender req = Some w \<longrightarrow>
        Answer w (failure req ClientDisconnected) \<in> set (a_log t)) \<and>
     a_connect_waiters t = (if will_reconnect info s then a_connect_waiters s else []) \<and>
     (will_reconnect info s \<longrightarrow> (\<forall>ch. hm_get (a_subs t) ch = map_option suspended_sub (hm_get (a_subs s) ch)))"
  using log_mono [OF on_transport_close_grows drop_connection_answers] by (auto simp: Let_def)

theorem transport_loss_witness:
  "a_state (on_transport_close sample_env None resuming_actor) = Connecting \<and>
   hm_get (a_subs (on_transport_close sample_env None resuming_actor)) ''news''
     = map_option suspended_sub (hm_get (a_subs resuming_actor) ''news'')"
  using transport_loss [of sample_env None resuming_actor]
  by (simp add: Let_def will_reconnect_def resuming_actor_def)

section \<open>A successful handshake\<close>

text \<open>
  C16. A successful handshake ends in \<open>Connected\<close>, for the shared atomic too, and every caller that
  waited for the connect has been told so; none waits any more.
\<close>

theorem handshake_success:
  assumes "a_sink s = a_stream s"
  shows "let t = on_handshake_success env result s in
     a_state t = Connected \<and> from_u8 (a_shared_state t) = Connected \<and> a_connect_waiters t = [] \<and>
     (\<forall>w. w \<in> set (a_connect_waiters s) \<longrightarrow> Answer w (RUnit (Inr ())) \<in> set (a_log t))"
proof -
  let ?a = "move_to_connected env result s"
  let ?b = "schedule_token_refresh (process_server_subs env result ?a)"
  let ?c = "resubscribe_all env ?b"
  have b: "keeps ?a ?b" by (rule keeps_trans [OF keeps_process_server_subs keeps_schedules(1)]) simp
  have "keeps ?a ?c" by (rule keeps_trans [OF b]) (simp add: keeps_state [OF b])
  then have "a_connect_waiters ?c = a_connect_waiters s" by (simp add: keeps_def)
  then have "w \<in> set (a_connect_waiters s) \<Longrightarrow> Answer w (RUnit (Inr ())) \<in> set (a_log (on_handshake_success env result s))"
    for w unfolding on_handshake_success_def by (intro drain_connect_answers) simp
  moreover have "a_state (on_handshake_success env result s) = Connected"
    and "a_shared_state (on_handshake_success env result s) = as_u8 Connected"
    using handshake_success_state [OF assms, of True env result] by (auto simp: safe_def conn_inv_def)
  moreover have "a_connect_waiters (on_handshake_success env result s) = []"
    by (simp add: on_handshake_success_def)
  ultimately show ?thesis by (simp only: Let_def from_u8_as_u8) simp
qed

theorem handshake_success_witness:
  "Answer 7 (RUnit (Inr ())) \<in> set (a_log (on_handshake_success sample_env default_connect_result
     ((new_actor default_client_config)\<lparr>a_state := Connecting, a_connect_waiters := [7]\<rparr>)))"
  using handshake_success [of "(new_actor default_client_config)\<lparr>a_state := Connecting, a_connect_waiters := [7]\<rparr>"
      sample_env default_connect_result]
  by (simp add: Let_def new_actor_def)

section \<open>A failed handshake\<close>

lemma marked_attempt:
  assumes "a_refresh_required u"
  shows "let (go_on, u') = refresh_token_if_needed env u in
         case cfg_get_token (a_config u) of
           None \<Rightarrow> go_on \<and> u' = u\<lparr>a_refresh_required := False\<rparr>
         | Some get_token \<Rightarrow>
             (case get_token (a_tick u) of
                Inr token \<Rightarrow>
                  if token = [] then a_state u' = Disconnected
                  else go_on \<and> cfg_token (a_config u') = token \<and> \<not> a_refresh_required u' \<and> a_state u' = a_state u
              | Inl e \<Rightarrow>
                  if e = Unauthorized then a_state u' = Disconnected
                  else \<not> go_on \<and> a_refresh_required u' \<and> a_config u' = a_config u \<and> a_state u' = a_state u)"
proof (cases "cfg_get_token (a_config u)")
  case None
  then show ?thesis using assms by (simp add: refresh_token_if_needed_def do_token_refresh_def split: unit.split)
next
  case (Some get_token)
  then show ?thesis
    using assms
    by (cases "get_token (a_tick u)") (simp_all add: refresh_token_if_needed_def do_token_refresh_def emit_error_def split: unit.split)
qed

text \<open>
  C23. A failed handshake drops the connection. An expired token leaves the client connecting with
  the mark that a new token is required. An attempt that starts with the mark asks the token
  callback, if there is one: a new token is stored and the mark cleared before the transport is
  opened, an empty one or \<open>Unauthorized\<close> ends in \<open>Disconnected\<close>, any other error ends the attempt and keeps
  the mark; without a callback the mark is cleared and the token stays. A permanent error of the
  server ends the connect cycle in \<open>Disconnected\<close> and tells every connect caller; after any other
  error the client goes on connecting and its callers go on waiting.
\<close>

theorem handshake_failure:
  assumes "a_state s = Connecting"
  shows "let t = on_handshake_failure env err s in
     a_sink t = None \<and> a_stream t = None \<and>
     (case err of
        Server e \<Rightarrow>
          if se_code e = TOKEN_EXPIRED
          then a_state t = Connecting \<and> a_refresh_required t \<and> a_connect_waiters t = a_connect_waiters s
          else if \<not> is_temporary (se_code e) (se_temporary e)
          then a_state t = Disconnected \<and> a_connect_waiters t = [] \<and>
            (\<forall>w. w \<in> set (a_connect_waiters s) \<longrightarrow> Answer w (RUnit (Inl ClientDisconnected)) \<in> set (a_log t))
          else a_state t = Connecting \<and> a_refresh_required t = a_refresh_required s \<and>
            a_connect_waiters t = a_connect_waiters s
      | _ \<Rightarrow> a_state t = Connecting \<and> a_refresh_required t = a_refresh_required s \<and>
            a_connect_waiters t = a_connect_waiters s) \<and>
     (a_refresh_required u \<longrightarrow>
        (let (go_on, u') = refresh_token_if_needed env u in
         case cfg_get_token (a_config u) of
           None \<Rightarrow> go_on \<and> u' = u\<lparr>a_refresh_required := False\<rparr>
         | Some get_token \<Rightarrow>
             (case get_token (a_tick u) of
                Inr token \<Rightarrow>
                  if token = [] then a_state u' = Disconnected
                  else go_on \<and> cfg_token (a_config u') = token \<and> \<not> a_refresh_required u' \<and> a_state u' = a_state u
              | Inl e \<Rightarrow>
                  if e = Unauthorized then a_state u' = Disconnected
                  else \<not> go_on \<and> a_refresh_required u' \<and> a_config u' = a_config u \<and> a_state u' = a_state u)))"
proof -
  let ?u = "emit_error (''handshake: '' @ error_to_string err) (s\<lparr>a_sink := None, a_stream := None\<rparr>)"
  have "a_state ?u = Connecting" "a_sink ?u = None" "a_stream ?u = None"
    "a_refresh_required ?u = a_refresh_required s" "a_connect_waiters ?u = a_connect_waiters s"
    using assms by (simp_all add: emit_error_def)
  then show ?thesis
    using move_to_disconnected_answers(2) [of _ ?u] marked_attempt [of u env]
    by (cases err) (simp_all add: Let_def on_handshake_failure_def)
qed

theorem handshake_failure_witness:
  "Answer 7 (RUnit (Inl ClientDisconnected)) \<in> set (a_log (on_handshake_failure sample_env
     (Server \<lparr>se_code = 101, se_message = ''unauthorized'', se_temporary = False\<rparr>)
     (handle_command sample_env (Connect 7) (new_actor default_client_config))))"
proof -
  let ?s = "handle_command sample_env (Connect 7) (new_actor default_client_config)"
  have "a_state ?s = Connecting" "a_connect_waiters ?s = [7]"
    by (simp_all add: handle_connect_def new_actor_def)
  then show ?thesis
    using handshake_failure [of ?s sample_env "Server \<lparr>se_code = 101, se_message = ''unauthorized'', se_temporary = False\<rparr>"]
    by (simp add: Let_def TOKEN_EXPIRED_def is_temporary_def INTERNAL_ERROR_def del: handle_command.simps)
qed

end
