(* ===== verification/Requests.thy ===== *)
theory Requests
  imports Callers Transitions
begin

text \<open>
  Requests and replies: a request is answered once, by the reply that carries its id, by an error of
  sending, or by its timeout; and a batch is written as the one frame its commands encode to.
\<close>

section \<open>Correlation\<close>

text \<open>
  A reply with the id of a request answers that request's caller with that reply, removes the
  request, and changes nothing else; the same reply again, or any reply to an id that nobody waits
  for, changes nothing at all.
\<close>

theorem reply_correlation:
  assumes "hm_get (a_pending s) (rp_id reply) = Some (PRequest (Some r))" and "rp_id reply \<noteq> 0"
  shows "dispatch_reply env reply s =
      s\<lparr>a_pending := hm_remove (rp_id reply) (a_pending s), a_log := a_log s @ [Answer r (RReply (Inr reply))]\<rparr> \<and>
    dispatch_reply env reply (dispatch_reply env reply s) = dispatch_reply env reply s"
  using assms by (simp_all add: dispatch_reply_def answer_def perform_def remove_pending_def)

text \<open>An actor with one request in flight.\<close>

definition waiting_actor :: actor where
  "waiting_actor = (new_actor default_client_config)\<lparr>a_state := Connected, a_sink := Some 0, a_stream := Some 0,
     a_next_id := 2, a_pending := hm_insert 1 (PRequest (Some 7)) hm_empty\<rparr>"

lemma waiting_actor_simps [simp]:
  "hm_get (a_pending waiting_actor) 1 = Some (PRequest (Some 7))" "a_log waiting_actor = []"
  by (simp_all add: waiting_actor_def new_actor_def)

theorem reply_correlation_witness:
  "a_log (dispatch_reply sample_env (default_reply\<lparr>rp_id := 1\<rparr>) waiting_actor)
     = [Answer 7 (RReply (Inr (default_reply\<lparr>rp_id := 1\<rparr>)))] \<and>
   dispatch_reply sample_env (default_reply\<lparr>rp_id := 1\<rparr>) (dispatch_reply sample_env (default_reply\<lparr>rp_id := 1\<rparr>) waiting_actor)
     = dispatch_reply sample_env (default_reply\<lparr>rp_id := 1\<rparr>) waiting_actor"
proof -
  have "hm_get (a_pending waiting_actor) (rp_id (default_reply\<lparr>rp_id := 1\<rparr>)) = Some (PRequest (Some 7))"
    "rp_id (default_reply\<lparr>rp_id := 1\<rparr>) \<noteq> 0" by simp_all
  note c = reply_correlation [OF this, of sample_env]
  show ?thesis by (intro conjI) (simp add: c [THEN conjunct1], rule c [THEN conjunct2])
qed

text \<open>
  A request is never left hanging by a failure to send it: when the actor is not connected, or
  the command cannot be encoded or written, its caller is answered with that error at once and no
  request stays pending; only one that was written or queued stays pending, under the next id.
\<close>

theorem send_request_outcomes:
  "handle_command env (SendRequest cmd r) s =
    (if a_state s \<noteq> Connected then answer (Some r) (RReply (Inl ClientDisconnected)) s
     else case send_command env (cmd\<lparr>cmd_id := a_next_id s\<rparr>) (schedule_request_timeout (a_next_id s)
         (insert_pending (a_next_id s) (PRequest (Some r)) (snd (next_cmd_id s)))) of
         (Inr (), u) \<Rightarrow> u
       | (Inl e, u) \<Rightarrow> answer (Some r) (RReply (Inl e)) (remove_pending (a_next_id s) u))"
proof -
  have "hm_get (a_pending (snd (send_command env (cmd\<lparr>cmd_id := a_next_id s\<rparr>)
      (schedule_request_timeout (a_next_id s)
        (insert_pending (a_next_id s) (PRequest (Some r)) (snd (next_cmd_id s)))))))
      (a_next_id s) = Some (PRequest (Some r))"
    by simp
  then show ?thesis
    by (simp add: send_request_command_def next_cmd_id_def Let_def case_prod_beta split: sum.split unit.split)
qed

text \<open>
  A reply and the timeout of the same request race, and the caller is answered once: whichever
  comes first answers it, and the other one then changes nothing.
\<close>

theorem reply_timeout_race:
  assumes "hm_get (a_pending s) i = Some (PRequest (Some r))" and "i \<noteq> 0" and "rp_id reply = i"
  shows "let after_timeout = handle_command env (RequestTimeout i) s; after_reply = dispatch_reply env reply s in
    a_log after_timeout = a_log s @ [Answer r (RReply (Inl Timeout))] \<and>
    dispatch_reply env reply after_timeout = after_timeout \<and>
    a_log after_reply = a_log s @ [Answer r (RReply (Inr reply))] \<and>
    handle_command env (RequestTimeout i) after_reply = after_reply"
  using assms
  by (simp add: Let_def handle_request_timeout_def dispatch_reply_def answer_def)

theorem reply_timeout_race_witness:
  "dispatch_reply sample_env (default_reply\<lparr>rp_id := 1\<rparr>) (handle_command sample_env (RequestTimeout 1) waiting_actor)
     = handle_command sample_env (RequestTimeout 1) waiting_actor \<and>
   a_log (handle_command sample_env (RequestTimeout 1) waiting_actor) = [Answer 7 (RReply (Inl Timeout))]"
  using reply_timeout_race [of waiting_actor 1 7 "default_reply\<lparr>rp_id := 1\<rparr>" sample_env]
  by (simp add: Let_def del: handle_command.simps)

section \<open>Batches\<close>

text \<open>Sending while batching: the encoded commands queue up, nothing is written.\<close>

definition send_all :: "env \<Rightarrow> proto_command list \<Rightarrow> actor \<Rightarrow> actor" where
  "send_all env cs s = fold (\<lambda>c s. snd (send_command env c s)) cs s"

lemma collect_results_Cons: "collect_results (x # xs) = Inr ds \<longleftrightarrow>
    (\<exists>d ds'. x = Inr d \<and> collect_results xs = Inr ds' \<and> ds = d # ds')"
  by (cases x; cases "collect_results xs") auto

lemma collect_results_length: "collect_results xs = Inr ds \<Longrightarrow> length ds = length xs"
  by (induction xs arbitrary: ds) (auto simp: collect_results_Cons simp del: collect_results.simps(2))

lemma send_all_batched:
  assumes "a_batch_active s"
    and "collect_results (map (\<lambda>c. encode_commands (env_codec env) (protocol_of s) [c]) cs) = Inr ds"
  shows "send_all env cs s = s\<lparr>a_batch_queue := a_batch_queue s @ ds\<rparr>"
  using assms
proof (induction cs arbitrary: s ds)
  case (Cons c cs)
  then obtain d ds' where d: "encode_commands (env_codec env) (protocol_of s) [c] = Inr d"
    "collect_results (map (\<lambda>c. encode_commands (env_codec env) (protocol_of s) [c]) cs) = Inr ds'"
    "ds = d # ds'"
    by (auto simp: collect_results_Cons simp del: collect_results.simps(2))
  let ?s = "s\<lparr>a_batch_queue := a_batch_queue s @ [d]\<rparr>"
  have "send_all env cs ?s = ?s\<lparr>a_batch_queue := a_batch_queue ?s @ ds'\<rparr>"
    by (rule Cons.IH) (use Cons.prems d in \<open>simp_all add: protocol_of_def\<close>)
  with Cons.prems d show ?case by (simp add: send_all_def send_command_def)
qed (simp add: send_all_def)

text \<open>
  C34. A batch is one frame: commands sent between \<open>start_batching\<close> and \<open>stop_batching\<close> on a working
  connection are written by the flush as the single message that encodes them all, in order, and
  nothing is written before. Afterwards the batch is closed and its queue empty.
\<close>

theorem batch_is_one_frame:
  assumes "a_sink s = Some conn" and "a_batch_queue s = []" and "cs \<noteq> []"
    and "collect_results (map (\<lambda>c. encode_commands (env_codec env) (protocol_of s) [c]) cs) = Inr ds"
    and "\<And>t d. env_send env t d = None"
  shows "let s' = handle_command env StopBatching (send_all env cs (handle_command env StartBatching s)) in
    (\<exists>message. encode_commands (env_codec env) (protocol_of s) cs = Inr message \<and>
       a_log s' = a_log s @ [Write conn message]) \<and>
    \<not> a_batch_active s' \<and> a_batch_queue s' = []"
proof -
  let ?b = "s\<lparr>a_batch_active := True\<rparr>"
  have "length ds = length cs"
    using collect_results_length [OF assms(4)] by simp
  with assms(3) have "ds \<noteq> []" by auto
  moreover have "send_all env cs ?b = ?b\<lparr>a_batch_queue := ds\<rparr>"
    using send_all_batched [of ?b env cs ds] assms by (simp add: protocol_of_def)
  ultimately have "let s' = flush_batch env (send_all env cs ?b) in
      a_log s' = a_log s @ [Write conn (combine_batch (protocol_of s) ds)] \<and>
      \<not> a_batch_active s' \<and> a_batch_queue s' = []"
    using assms by (simp add: flush_batch_def Let_def sink_send_def protocol_of_def)
  with codec.encode_all [OF assms(4)] show ?thesis by (simp add: Let_def)
qed

theorem batch_is_one_frame_witness:
  "\<exists>message. encode_commands sample_codec Json [default_command, default_command] = Inr message \<and>
    a_log (handle_command sample_env StopBatching (send_all sample_env [default_command, default_command]
      (handle_command sample_env StartBatching ((new_actor default_client_config)\<lparr>a_sink := Some 0\<rparr>))))
      = [Write 0 message]"
  using batch_is_one_frame [of "(new_actor default_client_config)\<lparr>a_sink := Some 0\<rparr>" 0
      "[default_command, default_command]" sample_env "[[123, 125], [123, 125]]"]
  by (simp add: new_actor_def default_client_config_def protocol_of_def sample_codec_def
      encode_commands_def json_encode_commands_def Let_def)

end
