(* ===== verification/Client.thy ===== *)
theory Client
  imports Callers Transitions Invariant
begin

text \<open>
  The handles the user holds: \<open>Client\<close> of \<open>src/client/mod.rs\<close> and \<open>Subscription\<close> of
  \<open>src/subscription.rs\<close>. A method sends one command to the actor's queue and turns what comes back on
  the reply channel into its result; both handles have the same request methods.
\<close>

section \<open>The command queue and the reply channel\<close>

text \<open>The queue of 256 commands: it takes a command, has no room, or the actor is gone.\<close>

datatype queue_status = Accepting | Full | Gone

text \<open>\<open>request\<close>: the queue is awaited, so only a missing actor refuses the command.\<close>

definition request :: "queue_status \<Rightarrow> 'a res option \<Rightarrow> 'a res" where
  "request q received =
     (if q = Gone then Inl ClientClosed
      else case received of None \<Rightarrow> Inl ClientClosed | Some r \<Rightarrow> r)"

text \<open>What a caller receives: the first effect that settles it; \<open>None\<close> inside when it was dropped.\<close>

fun received :: "nat \<Rightarrow> effect list \<Rightarrow> reply_value option option" where
  "received r [] = None"
| "received r (Answer r' v # es) = (if r' = r then Some (Some v) else received r es)"
| "received r (DropSender r' # es) = (if r' = r then Some None else received r es)"
| "received r (e # es) = received r es"

section \<open>Fire and forget\<close>

text \<open>\<open>try_send\<close> does not wait: the command is queued, or it is lost.\<close>

definition try_send :: "queue_status \<Rightarrow> actor_command \<Rightarrow> actor_command list" where
  "try_send q cmd = (if q = Accepting then [cmd] else [])"

definition client_set_token :: "queue_status \<Rightarrow> string \<Rightarrow> actor_command list" where
  "client_set_token q token = try_send q (SetToken token)"

definition client_set_data :: "queue_status \<Rightarrow> bytes \<Rightarrow> actor_command list" where
  "client_set_data q data = try_send q (SetData data)"

definition start_batching :: "queue_status \<Rightarrow> actor_command list" where
  "start_batching q = try_send q StartBatching"

definition stop_batching :: "queue_status \<Rightarrow> actor_command list" where
  "stop_batching q = try_send q StopBatching"

definition client_events :: "queue_status \<Rightarrow> nat \<Rightarrow> nat res \<times> actor_command list" where
  "client_events q tx = (if q = Accepting then (Inr tx, [SetClientEventChannel tx]) else (Inl ClientClosed, []))"

definition subscription_events :: "queue_status \<Rightarrow> string \<Rightarrow> nat \<Rightarrow> nat res \<times> actor_command list" where
  "subscription_events q channel tx =
     (if q = Accepting then (Inr tx, [SetSubEventChannel channel tx]) else (Inl ClientClosed, []))"

text \<open>\<open>Client::send\<close> waits for room in the queue, not for an answer.\<close>

definition client_send :: "queue_status \<Rightarrow> bytes \<Rightarrow> unit res \<times> actor_command list" where
  "client_send q data = (if q = Gone then (Inl ClientClosed, []) else (Inr (), [Send data]))"

definition client_state_of :: "actor \<Rightarrow> client_state" where
  "client_state_of s = from_u8 (a_shared_state s)"

section \<open>Calls answered by the actor itself\<close>

definition client_subscriptions ::
  "queue_status \<Rightarrow> (string \<times> subscription_state) list option \<Rightarrow> (string \<times> subscription_state) list" where
  "client_subscriptions q answered =
     (if q = Gone then [] else case answered of None \<Rightarrow> [] | Some xs \<Rightarrow> xs)"

text \<open>The handle of a channel is its name.\<close>

definition new_subscription_result :: "queue_status \<Rightarrow> string \<Rightarrow> unit res option \<Rightarrow> string res" where
  "new_subscription_result q channel answered =
     (case request q answered of Inl e \<Rightarrow> Inl e | Inr () \<Rightarrow> Inr channel)"

definition get_subscription_result :: "queue_status \<Rightarrow> string \<Rightarrow> bool option \<Rightarrow> string option res" where
  "get_subscription_result q channel answered =
     (if q = Gone then Inl ClientClosed
      else case answered of None \<Rightarrow> Inl ClientClosed
        | Some found \<Rightarrow> Inr (if found then Some channel else None))"

text \<open>\<open>Client::subscribe\<close>: register, take the event stream, subscribe; the first failure is returned.\<close>

definition subscribe_call ::
  "string \<Rightarrow> string res \<Rightarrow> nat res \<Rightarrow> unit res \<Rightarrow> (string \<times> nat) res" where
  "subscribe_call channel registered events subscribed =
     (case registered of Inl e \<Rightarrow> Inl e | Inr sub \<Rightarrow>
       (case events of Inl e \<Rightarrow> Inl e | Inr rx \<Rightarrow>
         (case subscribed of Inl e \<Rightarrow> Inl e | Inr () \<Rightarrow> Inr (sub, rx))))"

section \<open>Requests to the server\<close>

definition send_proto_extract :: "proto_reply res \<Rightarrow> (proto_reply \<Rightarrow> 'a option) \<Rightarrow> string \<Rightarrow> 'a res" where
  "send_proto_extract result extract name =
     (case result of Inl e \<Rightarrow> Inl e
      | Inr reply \<Rightarrow>
          (case rp_error reply of
             Some err \<Rightarrow> Inl (Server (server_error_from err))
           | None \<Rightarrow> (case extract reply of
               Some x \<Rightarrow> Inr x
             | None \<Rightarrow> Inl (Protocol (''missing '' @ name @ '' result'')))))"

definition send_proto_ok :: "proto_reply res \<Rightarrow> unit res" where
  "send_proto_ok result = send_proto_extract result (\<lambda>_. Some ()) []"

definition rpc_command :: "string \<Rightarrow> bytes \<Rightarrow> proto_command" where
  "rpc_command rpc_method data = default_command\<lparr>cmd_rpc := Some \<lparr>rpq_data = data, rpq_method = rpc_method\<rparr>\<rparr>"

definition rpc_outcome :: "proto_reply res \<Rightarrow> rpc_result_out res" where
  "rpc_outcome result = map_sum (\<lambda>e. e) (\<lambda>r. \<lparr>rro_data = rpr_data r\<rparr>) (send_proto_extract result rp_rpc ''rpc'')"

definition publish_command :: "string \<Rightarrow> bytes \<Rightarrow> proto_command" where
  "publish_command channel data = default_command\<lparr>cmd_publish := Some \<lparr>pq_channel = channel, pq_data = data\<rparr>\<rparr>"

definition history_command :: "string \<Rightarrow> history_options \<Rightarrow> proto_command" where
  "history_command channel opts = default_command\<lparr>cmd_history := Some \<lparr>hq_channel = channel,
     hq_limit = ho_limit opts,
     hq_since = map_option (\<lambda>p. \<lparr>psp_offset = sp_offset p, psp_epoch = sp_epoch p\<rparr>) (ho_since opts),
     hq_reverse = ho_reverse opts\<rparr>\<rparr>"

definition history_outcome :: "proto_reply res \<Rightarrow> history_result_out res" where
  "history_outcome result = map_sum (\<lambda>e. e)
     (\<lambda>r. \<lparr>hro_publications = map publication_from (hr_publications r), hro_offset = hr_offset r,
           hro_epoch = hr_epoch r\<rparr>)
     (send_proto_extract result rp_history ''history'')"

definition presence_command :: "string \<Rightarrow> proto_command" where
  "presence_command channel = default_command\<lparr>cmd_presence := Some \<lparr>prq_channel = channel\<rparr>\<rparr>"

definition presence_outcome :: "proto_reply res \<Rightarrow> presence_result_out res" where
  "presence_outcome result = map_sum (\<lambda>e. e)
     (\<lambda>r. \<lparr>pro_presence = hm_map_values client_info_from (prr_presence r)\<rparr>)
     (send_proto_extract result rp_presence ''presence'')"

definition presence_stats_command :: "string \<Rightarrow> proto_command" where
  "presence_stats_command channel = default_command\<lparr>cmd_presence_stats := Some \<lparr>psq_channel = channel\<rparr>\<rparr>"

definition presence_stats_outcome :: "proto_reply res \<Rightarrow> presence_stats_out res" where
  "presence_stats_outcome result = map_sum (\<lambda>e. e)
     (\<lambda>r. \<lparr>pso_num_clients = psr_num_clients r, pso_num_users = psr_num_users r\<rparr>)
     (send_proto_extract result rp_presence_stats ''presence_stats'')"

section \<open>Laws\<close>

lemma received_append:
  "received r (es @ es') = (case received r es of None \<Rightarrow> received r es' | Some x \<Rightarrow> Some x)"
  by (induction r es rule: received.induct) auto

lemma received_None_iff: "received r es = None \<longleftrightarrow> r \<notin># sum_list (map settles es)"
  by (induction r es rule: received.induct) auto

lemma received_settled: "received r (a_log s) = None \<longleftrightarrow> r \<notin># settled s"
  by (simp add: received_None_iff settled_def)

text \<open>
  C17. An RPC from end to end: a connected client writes the command under the next id; when a reply
  with that id comes, the caller of \<open>rpc\<close> receives it, and its result is the server's error, the
  data of the result, or the error for a reply without one.
\<close>

theorem rpc_end_to_end:
  assumes "a_state s = Connected" and "a_sink s = Some conn" and "\<not> a_batch_active s"
    and "encode_commands (env_codec env) (protocol_of s)
      [(rpc_command rpc_method data)\<lparr>cmd_id := a_next_id s\<rparr>] = Inr wire"
    and "\<And>t d. env_send env t d = None"
    and "r \<notin># settled s" and "hm_get (a_pending s) (a_next_id s) = None"
    and "rp_id reply = a_next_id s" and "rp_id reply \<noteq> 0"
  shows "let t = handle_command env (SendRequest (rpc_command rpc_method data) r) s; u = dispatch_reply env reply t in
    Write conn wire \<in> set (a_log t) \<and> received r (a_log t) = None \<and>
    received r (a_log u) = Some (Some (RReply (Inr reply))) \<and>
    rpc_outcome (request Accepting (Some (Inr reply))) =
      (case rp_error reply of Some err \<Rightarrow> Inl (Server (server_error_from err))
       | None \<Rightarrow> (case rp_rpc reply of Some x \<Rightarrow> Inr \<lparr>rro_data = rpr_data x\<rparr>
           | None \<Rightarrow> Inl (Protocol ''missing rpc result'')))"
proof -
  let ?t = "handle_command env (SendRequest (rpc_command rpc_method data) r) s"
  have t: "a_log ?t = a_log s @ [Schedule (cfg_timeout (a_config s)) (RequestTimeout (a_next_id s)), Write conn wire]"
    and p: "hm_get (a_pending ?t) (a_next_id s) = Some (PRequest (Some r))"
    using assms
    by (simp_all add: send_request_command_def next_cmd_id_def send_command_def sink_send_def protocol_of_def
        schedule_request_timeout_def schedule_def insert_pending_def Let_def case_prod_beta split: unit.split)
  have "a_log (dispatch_reply env reply ?t) = a_log ?t @ [Answer r (RReply (Inr reply))]"
    using p assms(8,9) by (simp add: dispatch_reply_def answer_def)
  with t show ?thesis
    using assms(6) unfolding received_settled [symmetric] Let_def
    by (simp add: received_append rpc_outcome_def request_def send_proto_extract_def
        split: option.split del: handle_command.simps)
qed

definition idle_actor :: actor where
  "idle_actor = (new_actor default_client_config)\<lparr>a_state := Connected, a_sink := Some 0, a_stream := Some 0\<rparr>"

theorem rpc_end_to_end_witness:
  "received 7 (a_log (dispatch_reply sample_env (default_reply\<lparr>rp_id := 1, rp_rpc := Some \<lparr>rpr_data = [42]\<rparr>\<rparr>)
     (handle_command sample_env (SendRequest (rpc_command ''add'' [1]) 7) idle_actor)))
   = Some (Some (RReply (Inr (default_reply\<lparr>rp_id := 1, rp_rpc := Some \<lparr>rpr_data = [42]\<rparr>\<rparr>))))"
  using rpc_end_to_end [of idle_actor 0 sample_env "''add''" "[1]" "[123, 125]" 7
      "default_reply\<lparr>rp_id := 1, rp_rpc := Some \<lparr>rpr_data = [42]\<rparr>\<rparr>"]
  by (simp add: Let_def idle_actor_def new_actor_def settled_def protocol_of_def encode_commands_def
      json_encode_commands_def sample_codec_def default_client_config_def del: handle_command.simps)

text \<open>
  \<open>publish\<close> succeeds exactly when the server's reply has no error, and every request method
  passes on, unchanged, an error of the client and the error of the server.
\<close>

theorem request_outcomes:
  "send_proto_ok (Inr reply) = (case rp_error reply of None \<Rightarrow> Inr () | Some err \<Rightarrow> Inl (Server (server_error_from err)))
   \<and> send_proto_ok (Inl e) = Inl e \<and> rpc_outcome (Inl e) = Inl e \<and> history_outcome (Inl e) = Inl e
   \<and> presence_outcome (Inl e) = Inl e \<and> presence_stats_outcome (Inl e) = Inl e"
  by (simp add: send_proto_ok_def send_proto_extract_def rpc_outcome_def history_outcome_def
      presence_outcome_def presence_stats_outcome_def default_reply_def split: option.split)

end
