(* ===== verification/Channels.thy ===== *)
theory Channels
  imports Recovery
begin

text \<open>
  What the server can do to a channel besides accepting a subscribe: refuse it, unsubscribe it, push
  publications. And the refresh cycle of the connection token.
\<close>

section \<open>A refused subscribe\<close>

lemma sub_emit_keeps [simp]:
  "a_tick (sub_emit sub ev s) = a_tick s" "a_subs (sub_emit sub ev s) = a_subs s"
  "a_tick (put_sub ch sub s) = a_tick s" "a_log (put_sub ch sub s) = a_log s"
  by (simp_all add: sub_emit_def put_sub_def perform_def split: option.split)

lemma sub_events_cong: "ss_event_tx sub' = ss_event_tx sub \<Longrightarrow> sub_events sub' evs = sub_events sub evs"
  by (simp add: sub_events_def)

text \<open>The subscription after a temporary error: one more attempt, an expired token forgotten.\<close>

definition retried_sub :: "server_error \<Rightarrow> sub_state \<Rightarrow> sub_state" where
  "retried_sub err sub = sub\<lparr>ss_token := (if se_code err = TOKEN_EXPIRED then [] else ss_token sub),
     ss_attempts := ss_attempts sub + 1\<rparr>"

lemma retried_sub_fields [simp]:
  "ss_config (retried_sub err sub) = ss_config sub" "ss_attempts (retried_sub err sub) = ss_attempts sub + 1"
  by (simp_all add: retried_sub_def)

lemma temporary_error:
  assumes "hm_get (a_subs s) ch = Some sub" and "is_temporary (se_code err) (se_temporary err)"
  shows "hm_get (a_subs (handle_subscribe_error env ch err s)) ch = Some (retried_sub err sub)"
    and "a_log (handle_subscribe_error env ch err s) = a_log s
      @ sub_events sub [SE_Error (''subscribe error: '' @ show_nat (unat (se_code err)) @ '': '' @ se_message err)]
      @ [Schedule (resubscribe_delay env (retried_sub err sub) s) (Resubscribe ch)]"
proof -
  have r: "(if se_code err = TOKEN_EXPIRED then sub\<lparr>ss_token := []\<rparr> else sub)
      \<lparr>ss_attempts := ss_attempts (if se_code err = TOKEN_EXPIRED then sub\<lparr>ss_token := []\<rparr> else sub) + 1\<rparr>
    = retried_sub err sub"
    by (simp add: retried_sub_def)
  show "hm_get (a_subs (handle_subscribe_error env ch err s)) ch = Some (retried_sub err sub)"
    using assms by (simp add: handle_subscribe_error_def Let_def r schedule_resubscribe_def)
  show "a_log (handle_subscribe_error env ch err s) = a_log s
      @ sub_events sub [SE_Error (''subscribe error: '' @ show_nat (unat (se_code err)) @ '': '' @ se_message err)]
      @ [Schedule (resubscribe_delay env (retried_sub err sub) s) (Resubscribe ch)]"
    using assms by (simp add: handle_subscribe_error_def Let_def r schedule_resubscribe_def schedule_def
        sub_emit_log resubscribe_delay_def)
qed

lemma permanent_error:
  assumes "hm_get (a_subs s) ch = Some sub" and "\<not> is_temporary (se_code err) (se_temporary err)"
  shows "hm_get (a_subs (handle_subscribe_error env ch err s)) ch
      = Some (sub\<lparr>ss_state := Unsubscribed, ss_attempts := 0, ss_waiters := []\<rparr>)"
    and "a_log (handle_subscribe_error env ch err s) = a_log s
      @ map (\<lambda>w. Answer w (RUnit (Inl (Server err)))) (ss_waiters sub)
      @ sub_events sub [SE_Unsubscribed (se_code err) (se_message err)]"
  using assms by (simp_all add: handle_subscribe_error_def sub_emit_log)

text \<open>
  C20. A refused subscribe. A temporary error leaves the channel as it is with its waiters, counts an
  attempt, forgets an expired token and sets exactly one timer to subscribe again, within both the
  configured maximum and the exponential bound. Any other error unsubscribes the channel, tells
  every waiter the server's error and the user the code, and sets no timer.
\<close>

theorem subscribe_refused:
  assumes "hm_get (a_subs s) ch = Some sub" and "\<And>t. in_range_rng (env_rand env t)"
  shows "let s' = handle_subscribe_error env ch err s; c = ss_config sub in
    if is_temporary (se_code err) (se_temporary err) then
      (\<exists>d msg. hm_get (a_subs s') ch = Some (retried_sub err sub) \<and>
         a_log s' = a_log s @ sub_events sub [SE_Error msg] @ [Schedule d (Resubscribe ch)] \<and>
         d \<le> scfg_max_resubscribe_delay c \<and>
         d \<le> scfg_min_resubscribe_delay c * 2 ^ (unat (ss_attempts sub + 1) - 1))
    else
      hm_get (a_subs s') ch = Some (sub\<lparr>ss_state := Unsubscribed, ss_attempts := 0, ss_waiters := []\<rparr>) \<and>
      a_log s' = a_log s @ map (\<lambda>w. Answer w (RUnit (Inl (Server err)))) (ss_waiters sub)
        @ sub_events sub [SE_Unsubscribed (se_code err) (se_message err)]"
proof -
  have "resubscribe_delay env (retried_sub err sub) s \<le> scfg_max_resubscribe_delay (ss_config sub) \<and>
     resubscribe_delay env (retried_sub err sub) s
       \<le> scfg_min_resubscribe_delay (ss_config sub) * 2 ^ (unat (ss_attempts sub + 1) - 1)"
    using next_delay_le [OF assms(2)] by (simp add: resubscribe_delay_def retried_sub_def)
  then show ?thesis
    using temporary_error [OF assms(1)] permanent_error [OF assms(1)] unfolding Let_def by auto
qed

theorem subscribe_refused_witness:
  "a_log (handle_subscribe_error sample_env ''news'' \<lparr>se_code = 103, se_message = ''denied'', se_temporary = False\<rparr>
     one_sub_actor) = [Answer 7 (RUnit (Inl (Server \<lparr>se_code = 103, se_message = ''denied'', se_temporary = False\<rparr>))),
     Answer 8 (RUnit (Inl (Server \<lparr>se_code = 103, se_message = ''denied'', se_temporary = False\<rparr>))),
     EmitSub 3 (SE_Unsubscribed 103 ''denied'')]"
proof -
  let ?sub = "(new_sub_state default_subscription_config)\<lparr>ss_state := Subscribing, ss_event_tx := Some 3,
    ss_waiters := [7, 8]\<rparr>"
  have "hm_get (a_subs one_sub_actor) ''news'' = Some ?sub"
    by (simp add: one_sub_actor_def)
  note refused = subscribe_refused [OF this, of sample_env
      "\<lparr>se_code = 103, se_message = ''denied'', se_temporary = False\<rparr>"]
  have "a_log one_sub_actor = []" by (simp add: one_sub_actor_def new_actor_def)
  with refused show ?thesis
    by (simp add: in_range_rng_def is_temporary_def INTERNAL_ERROR_def TOKEN_EXPIRED_def sub_events_def Let_def)
qed

section \<open>Pushes\<close>

definition offered :: "actor \<Rightarrow> client_event \<Rightarrow> effect list" where
  "offered s ev = (case a_client_event_tx s of Some tx \<Rightarrow> [EmitClient tx ev] | None \<Rightarrow> [])"

lemma emit_client_log: "a_log (emit_client_event ev s) = a_log s @ offered s ev"
  by (simp add: emit_client_event_def offered_def perform_def split: option.split)

lemma receive_one_log:
  "a_log (snd (receive_publication env pt p (sub, s)))
     = a_log s @ sub_events sub (map SE_Publication (delivered env pt sub [p]))"
  using receive_publications_log [of env pt "[p]" sub s] by simp

lemma receive_one_subs: "a_subs (snd (receive_publication env pt p (sub, s))) = a_subs s"
  by simp

text \<open>
  C21. A publication pushed by the server. On a channel of the user it is delivered, after its delta is
  undone, and the position moves to its offset; on a server-side subscription it goes to the client
  events and the registry moves; on any other channel nothing at all happens. No other channel
  changes, and state and waiters of the channel stay as they are.
\<close>

theorem publication_push:
  assumes "rp_id reply = 0" and "rp_push reply = Some push" and "ph_pub push = Some p"
  shows "let ch = ph_channel push; s' = dispatch_reply env reply s in
    (\<forall>ch'. ch' \<noteq> ch \<longrightarrow> hm_get (a_subs s') ch' = hm_get (a_subs s) ch' \<and>
       hm_get (a_server_subs s') ch' = hm_get (a_server_subs s) ch') \<and>
    (case hm_get (a_subs s) ch of
       Some sub \<Rightarrow> (\<exists>sub'. hm_get (a_subs s') ch = Some sub' \<and>
           ss_offset sub' = last_offset [p] (ss_offset sub) \<and>
           ss_state sub' = ss_state sub \<and> ss_waiters sub' = ss_waiters sub) \<and>
         a_log s' = a_log s @ sub_events sub (map SE_Publication (delivered env (protocol_of s) sub [p]))
     | None \<Rightarrow> (case hm_get (a_server_subs s) ch of
         Some srv \<Rightarrow> hm_get (a_server_subs s') ch
             = Some (srv\<lparr>srv_offset := last_offset [p] (srv_offset srv)\<rparr>) \<and>
           a_log s' = a_log s @ offered s (CE_ServerPublication ch (publication_from p))
       | None \<Rightarrow> s' = s))"
proof -
  let ?ch = "ph_channel push"
  have d: "dispatch_reply env reply s = handle_publication env ?ch p s"
    using assms by (simp add: dispatch_reply_def handle_push_def Let_def)
  show ?thesis
  proof (cases "hm_get (a_subs s) ?ch")
    case (Some sub)
    have "a_server_subs (snd (receive_publication env (protocol_of s) p (sub, s))) = a_server_subs s"
      by (simp add: receive_publication_def Let_def case_prod_beta)
    with Some show ?thesis
      unfolding Let_def d handle_publication_def
      by (simp add: case_prod_beta receive_one_log del: last_offset_simps delivered.simps)
  next
    case None
    then show ?thesis
      unfolding Let_def d handle_publication_def
      by (auto simp: emit_client_log offered_def split: option.split)
  qed
qed

theorem publication_push_witness:
  "a_log (dispatch_reply sample_env (default_reply\<lparr>rp_push := Some (default_push\<lparr>ph_channel := ''news'',
     ph_pub := Some (default_publication\<lparr>pp_offset := 42, pp_data := [104, 105]\<rparr>)\<rparr>)\<rparr>) one_sub_actor)
   = [EmitSub 3 (SE_Publication ((publication_from (default_publication\<lparr>pp_offset := 42, pp_data := [104, 105]\<rparr>))
        \<lparr>pub_data := [104, 105]\<rparr>))]"
proof -
  let ?p = "default_publication\<lparr>pp_offset := 42, pp_data := [104, 105]\<rparr>"
  let ?push = "default_push\<lparr>ph_channel := ''news'', ph_pub := Some ?p\<rparr>"
  let ?sub = "(new_sub_state default_subscription_config)\<lparr>ss_state := Subscribing, ss_event_tx := Some 3,
    ss_waiters := [7, 8]\<rparr>"
  have sub: "hm_get (a_subs one_sub_actor) ''news'' = Some ?sub" "a_log one_sub_actor = []"
    "ss_delta_negotiated (new_sub_state default_subscription_config) = False"
    by (simp_all add: one_sub_actor_def new_actor_def new_sub_state_def)
  have "rp_id (default_reply\<lparr>rp_push := Some ?push\<rparr>) = 0"
    "rp_push (default_reply\<lparr>rp_push := Some ?push\<rparr>) = Some ?push" "ph_pub ?push = Some ?p"
    by (simp_all add: default_reply_def)
  from publication_push [OF this, of sample_env one_sub_actor] show ?thesis
    by (simp add: Let_def sub sub_events_def sub_apply_delta_def del: handle_command.simps)
qed

text \<open>
  C24. An unsubscribe pushed by the server. For a code that asks to subscribe again the channel becomes
  subscribing and a resubscribe is queued at once; for any other code it becomes unsubscribed with
  its attempts reset. In both cases the user is told the server's code and reason, and whoever waits
  for the channel goes on waiting. A server-side subscription is dropped and its loss announced; an
  unknown channel is ignored.
\<close>

theorem unsubscribe_push:
  assumes "rp_id reply = 0" and "rp_push reply = Some push" and "ph_unsubscribe push = Some u"
    and "ph_pub push = None" and "ph_join push = None" and "ph_leave push = None"
  shows "let ch = ph_channel push; s' = dispatch_reply env reply s in
    case hm_get (a_subs s) ch of
      Some sub \<Rightarrow>
        if pu_code u \<ge> 2500
        then hm_get (a_subs s') ch = Some (sub\<lparr>ss_state := Subscribing\<rparr>) \<and>
          a_log s' = a_log s @ sub_events sub [SE_Subscribing (pu_code u) (pu_reason u)]
            @ [Schedule 0 (Resubscribe ch)]
        else hm_get (a_subs s') ch = Some (sub\<lparr>ss_state := Unsubscribed, ss_attempts := 0\<rparr>) \<and>
          a_log s' = a_log s @ sub_events sub [SE_Unsubscribed (pu_code u) (pu_reason u)]
    | None \<Rightarrow> (case hm_get (a_server_subs s) ch of
        Some srv \<Rightarrow> hm_get (a_server_subs s') ch = None \<and>
          a_log s' = a_log s @ offered s (CE_ServerUnsubscribed ch (pu_code u) (pu_reason u))
      | None \<Rightarrow> s' = s)"
proof -
  let ?ch = "ph_channel push"
  have d: "dispatch_reply env reply s = handle_server_unsubscribe ?ch (pu_code u) (pu_reason u) s"
    using assms by (simp add: dispatch_reply_def handle_push_def Let_def)
  show ?thesis
    unfolding Let_def d handle_server_unsubscribe_def should_resubscribe_on_unsubscribe_def
    by (auto simp: sub_emit_log schedule_def emit_client_log offered_def hm_keys_iff_get
        split: option.split)
qed

theorem unsubscribe_push_witness:
  "hm_get (a_subs (dispatch_reply sample_env (default_reply\<lparr>rp_push := Some (default_push\<lparr>ph_channel := ''news'',
     ph_unsubscribe := Some \<lparr>pu_code = 2000, pu_reason = ''kicked''\<rparr>\<rparr>)\<rparr>) one_sub_actor)) ''news''
   = Some ((new_sub_state default_subscription_config)\<lparr>ss_state := Unsubscribed, ss_event_tx := Some 3,
       ss_waiters := [7, 8], ss_attempts := 0\<rparr>)"
proof -
  let ?push = "default_push\<lparr>ph_channel := ''news'', ph_unsubscribe := Some \<lparr>pu_code = 2000, pu_reason = ''kicked''\<rparr>\<rparr>"
  have sub: "hm_get (a_subs one_sub_actor) ''news'' = Some ((new_sub_state default_subscription_config)
      \<lparr>ss_state := Subscribing, ss_event_tx := Some 3, ss_waiters := [7, 8]\<rparr>)"
    by (simp add: one_sub_actor_def)
  have "rp_id (default_reply\<lparr>rp_push := Some ?push\<rparr>) = 0"
    "rp_push (default_reply\<lparr>rp_push := Some ?push\<rparr>) = Some ?push"
    "ph_unsubscribe ?push = Some \<lparr>pu_code = 2000, pu_reason = ''kicked''\<rparr>"
    "ph_pub ?push = None" "ph_join ?push = None" "ph_leave ?push = None"
    by (simp_all add: default_reply_def default_push_def)
  from unsubscribe_push [OF this, of sample_env one_sub_actor] show ?thesis
    by (simp add: Let_def sub)
qed

section \<open>The refresh cycle of the connection token\<close>

text \<open>
  C25. The refresh cycle. When the timer of a connected client fires, the new token of the callback is
  stored and sent in one refresh command; the reply sets the next timer to nine tenths of the new
  time to live. A reply with an error sets none: the cycle ends.
\<close>

theorem refresh_cycle:
  assumes "a_state s = Connected" and "a_sink s = Some conn" and "\<not> a_batch_active s"
    and "cfg_get_token (a_config s) = Some g" and "g (a_tick s) = Inr token" and "token \<noteq> []"
    and "encode_commands (env_codec env) (protocol_of s)
      [default_command\<lparr>cmd_id := a_next_id s, cmd_refresh := Some \<lparr>rq_token = token\<rparr>\<rparr>] = Inr wire"
    and "\<And>t d. env_send env t d = None" and "hm_get (a_pending s) (a_next_id s) = None"
    and "rp_id reply = a_next_id s" and "rp_id reply \<noteq> 0"
  shows "let t = handle_command env RefreshToken s; u = dispatch_reply env reply t in
    cfg_token (a_config t) = token \<and> a_log t = a_log s @ [Write conn wire] \<and>
    a_log u = a_log t @ (case (rp_error reply, rp_refresh reply) of
      (None, Some result) \<Rightarrow> if rr_expires result \<and> rr_ttl result \<noteq> 0
         then [Schedule (from_millis (unat (rr_ttl result) * 900)) RefreshToken] else []
    | _ \<Rightarrow> [])"
proof -
  let ?t = "handle_command env RefreshToken s"
  have t: "cfg_token (a_config ?t) = token" "a_log ?t = a_log s @ [Write conn wire]"
    "hm_get (a_pending ?t) (a_next_id s) = Some (PRefresh None)"
    using assms by (simp_all add: do_refresh_token_def do_token_refresh_def next_cmd_id_def send_command_def
        sink_send_def protocol_of_def insert_pending_def Let_def split: unit.split)
  have "dispatch_reply env reply ?t = resolve_refresh None reply (remove_pending (rp_id reply) ?t)"
    using t(3) assms(10,11) by (simp add: dispatch_reply_def)
  with t(1,2) show ?thesis
    unfolding Let_def by (simp only:)
      (auto simp: resolve_refresh_def schedule_token_refresh_def schedule_def refresh_delay_def answer_def
        split: option.split)
qed

definition refreshing_actor :: actor where
  "refreshing_actor = (new_actor (default_client_config\<lparr>cfg_get_token := Some (\<lambda>t. Inr ''jwt'')\<rparr>))
     \<lparr>a_state := Connected, a_sink := Some 0, a_stream := Some 0\<rparr>"

theorem refresh_cycle_witness:
  "last (a_log (dispatch_reply sample_env (default_reply\<lparr>rp_id := 1, rp_refresh := Some
      \<lparr>rr_client = [], rr_version = [], rr_expires = True, rr_ttl = 100\<rparr>\<rparr>)
     (handle_command sample_env RefreshToken refreshing_actor))) = Schedule (from_secs 90) RefreshToken"
proof -
  let ?reply = "default_reply\<lparr>rp_id := 1, rp_refresh := Some
      \<lparr>rr_client = [], rr_version = [], rr_expires = True, rr_ttl = 100\<rparr>\<rparr>"
  have "a_state refreshing_actor = Connected" "a_sink refreshing_actor = Some 0" "\<not> a_batch_active refreshing_actor"
    "cfg_get_token (a_config refreshing_actor) = Some (\<lambda>t. Inr ''jwt'')"
    "encode_commands (env_codec sample_env) (protocol_of refreshing_actor)
      [default_command\<lparr>cmd_id := a_next_id refreshing_actor, cmd_refresh := Some \<lparr>rq_token = ''jwt''\<rparr>\<rparr>] = Inr [123, 125]"
    "hm_get (a_pending refreshing_actor) (a_next_id refreshing_actor) = None"
    "rp_id ?reply = a_next_id refreshing_actor" "rp_id ?reply \<noteq> 0"
    "rp_error ?reply = None" "rp_refresh ?reply = Some \<lparr>rr_client = [], rr_version = [], rr_expires = True, rr_ttl = 100\<rparr>"
    by (simp_all add: refreshing_actor_def new_actor_def protocol_of_def default_client_config_def
        encode_commands_def json_encode_commands_def sample_codec_def default_reply_def)
  then show ?thesis
    using refresh_cycle [of refreshing_actor 0 "\<lambda>t. Inr ''jwt''" "''jwt''" sample_env "[123, 125]" ?reply]
    by (simp add: Let_def from_secs_def from_millis_def del: handle_command.simps)
qed

end
