(* ===== verification/Findings.thy ===== *)
theory Findings
  imports Lifecycle Requests Client Channels
begin

text \<open>
  Behaviour of the code that its comments or its callers would not expect, each as a theorem about the
  model: what happens, in general, with a concrete instance.
\<close>

section \<open>Unsubscribing while a subscribe is in flight\<close>

text \<open>
  \<open>unsubscribe\<close> on a channel that is still subscribing sends nothing and leaves its waiters in
  place: they are not answered, and a later \<open>close\<close> does not answer them either.
\<close>

theorem unsubscribe_strands_waiters:
  assumes "hm_get (a_subs s) ch = Some sub" and "ss_state sub = Subscribing"
  shows "let t = handle_command env (Unsubscribe ch r) s; u = handle_command env (Close q) t in
    a_log t = a_log s @ sub_events sub [SE_Unsubscribed UNSUBSCRIBE_CALLED ''unsubscribe called'']
      @ [Answer r (RUnit (Inr ()))] \<and>
    hm_get (a_subs t) ch = Some (sub\<lparr>ss_state := Unsubscribed, ss_attempts := 0\<rparr>) \<and>
    hm_get (a_subs u) ch = Some (sub\<lparr>ss_state := Unsubscribed, ss_attempts := 0\<rparr>)"
  using assms by (simp add: Let_def handle_unsubscribe_def answer_def sub_emit_log closed_sub_def)

theorem unsubscribe_strands_waiters_witness:
  "map_option ss_waiters (hm_get (a_subs (handle_command sample_env (Close 10)
     (handle_command sample_env (Unsubscribe ''news'' 9) one_sub_actor))) ''news'') = Some [7, 8]"
proof -
  obtain sub where "hm_get (a_subs one_sub_actor) ''news'' = Some sub" "ss_state sub = Subscribing"
    "ss_waiters sub = [7, 8]"
    by (simp add: one_sub_actor_def)
  then show ?thesis
    using unsubscribe_strands_waiters [of one_sub_actor "''news''" sub sample_env 9 10]
    by (simp add: Let_def del: handle_command.simps)
qed

text \<open>
  C36. The reply to the subscribe that was in flight then subscribes the channel all the same: the user
  has been told that the channel is unsubscribed, and it is subscribed.
\<close>

theorem unsubscribed_then_subscribed:
  assumes "hm_get (a_subs s) ch = Some sub" and "ss_state sub = Subscribing"
    and "hm_get (a_pending s) (rp_id reply) = Some (PSubscribe ch w)" and "rp_id reply \<noteq> 0"
    and "rp_error reply = None" and "rp_subscribe reply = Some result"
  shows "let t = handle_command env (Unsubscribe ch r) s in
    map_option ss_state (hm_get (a_subs t) ch) = Some Unsubscribed \<and>
    map_option ss_state (hm_get (a_subs (dispatch_reply env reply t)) ch) = Some Subscribed"
  using assms
  by (simp add: Let_def handle_unsubscribe_def dispatch_reply_def resolve_subscribe_def
      handle_subscribe_success_def schedule_sub_token_refresh_def case_prod_beta)

theorem unsubscribed_then_subscribed_witness:
  "map_option ss_state (hm_get (a_subs (dispatch_reply sample_env
     (default_reply\<lparr>rp_id := 1, rp_subscribe := Some default_subscribe_result\<rparr>)
     (handle_command sample_env (Unsubscribe ''news'' 9)
       (one_sub_actor\<lparr>a_pending := hm_insert 1 (PSubscribe ''news'' None) hm_empty\<rparr>)))) ''news'') = Some Subscribed"
proof -
  let ?s = "one_sub_actor\<lparr>a_pending := hm_insert 1 (PSubscribe ''news'' None) hm_empty\<rparr>"
  obtain sub where "hm_get (a_subs ?s) ''news'' = Some sub" "ss_state sub = Subscribing"
    by (simp add: one_sub_actor_def)
  then show ?thesis
    using unsubscribed_then_subscribed [of ?s "''news''" sub
        "default_reply\<lparr>rp_id := 1, rp_subscribe := Some default_subscribe_result\<rparr>" None default_subscribe_result
        sample_env 9]
    by (simp add: Let_def default_reply_def del: handle_command.simps)
qed

section \<open>An attempt after a refused token\<close>

text \<open>
  C35. When the token callback refuses (\<open>Unauthorized\<close>), the actor moves to \<open>Disconnected\<close> and tells the
  connect callers so, but the attempt goes on: with a server that accepts the handshake it ends
  \<open>Connected\<close>, with a client nobody asked to be connected any more.
\<close>

theorem unauthorized_still_connects:
  fixes env s
  assumes "a_refresh_required s \<or> cfg_token (a_config s) = [] \<and> cfg_get_token (a_config s) \<noteq> None"
    and "do_token_refresh (s\<lparr>a_reconnect_attempts := a_reconnect_attempts s + 1\<rparr>) = (Inl Unauthorized, u)"
    and "v = move_to_disconnected env DISCONNECT_UNAUTHORIZED ''unauthorized'' u"
    and "env_connect env (a_tick v) = None"
    and "fst (do_handshake env frames (snd (open_transport env v))) = Inr result"
  shows "a_state v = Disconnected \<and>
    (\<forall>w. w \<in> set (a_connect_waiters s) \<longrightarrow> Answer w (RUnit (Inl ClientDisconnected)) \<in> set (a_log v)) \<and>
    a_state (attempt_after_backoff env frames s) = Connected"
proof -
  have "keeps (s\<lparr>a_reconnect_attempts := a_reconnect_attempts s + 1\<rparr>) u"
    using keeps_do_token_refresh [of "s\<lparr>a_reconnect_attempts := a_reconnect_attempts s + 1\<rparr>"] assms(2) by simp
  then have w: "a_connect_waiters u = a_connect_waiters s" by (simp add: keeps_def)
  have refresh: "refresh_token_if_needed env (s\<lparr>a_reconnect_attempts := a_reconnect_attempts s + 1\<rparr>) = (True, v)"
    using assms(1-3) by (simp add: refresh_token_if_needed_def)
  let ?h = "snd (do_handshake env frames (snd (open_transport env v)))"
  have "keeps (move_to_connected env result ?h) (process_server_subs env result (move_to_connected env result ?h))"
    by simp
  note b = keeps_trans [OF this keeps_schedules(1)]
  have "a_state (on_handshake_success env result ?h) = Connected"
    unfolding on_handshake_success_def
    using keeps_state [OF keeps_trans [OF b keeps_resubscribe_all]] keeps_state [OF b] by simp
  then have "a_state (attempt_after_backoff env frames s) = Connected"
    using assms(4,5) refresh
    by (simp add: attempt_after_backoff_def open_transport_def Let_def case_prod_beta)
  with w assms(3) show ?thesis by (simp add: move_to_disconnected_answers)
qed

text \<open>A server that answers every message with a successful connect reply of identifier 1.\<close>

definition accepting_env :: env where
  "accepting_env = sample_env\<lparr>env_codec := sample_codec\<lparr>json_from_str :=
     (\<lambda>t. Inr (default_reply\<lparr>rp_id := 1, rp_connect := Some default_connect_result\<rparr>))\<rparr>\<rparr>"

lemma accepting_codec:
  "decode_replies (env_codec accepting_env) Json [123, 125]
     = Inr [default_reply\<lparr>rp_id := 1, rp_connect := Some default_connect_result\<rparr>]"
  "encode_commands (env_codec accepting_env) Json [cmd] = Inr [123, 125]"
  "env_send accepting_env t d = None" "env_connect accepting_env t = None"
  by (simp_all add: accepting_env_def decode_replies_def json_decode_replies_def trim_def
      is_white_space_def encode_commands_def json_encode_commands_def sample_codec_def)

lemma handshake_accepted:
  assumes "a_config s = default_client_config\<lparr>cfg_get_token := g\<rparr>" and "a_next_id s = 1"
    and "\<not> a_batch_active s" and "a_sink s = Some c" and "a_stream s = Some c"
  shows "fst (do_handshake accepting_env [Some (FrameData [123, 125])] s) = Inr default_connect_result"
proof -
  have p: "protocol_of t = Json" if "a_config t = a_config s" for t
    using that assms(1) by (simp add: protocol_of_def default_client_config_def)
  have d: "handshake_data s = s"
    using assms(1) by (simp add: handshake_data_def default_client_config_def)
  show ?thesis
    using assms(2-)
    by (simp add: do_handshake_def d next_cmd_id_def send_command_def sink_send_def p accepting_codec
        connect_reply_result_def default_reply_def split: unit.split)
qed

definition refused_actor :: actor where
  "refused_actor = (new_actor (default_client_config\<lparr>cfg_get_token := Some (\<lambda>t. Inl Unauthorized)\<rparr>))\<lparr>
     a_state := Connecting, a_connect_requested := True, a_connect_waiters := [7]\<rparr>"

definition refused_after :: actor where
  "refused_after = move_to_disconnected accepting_env DISCONNECT_UNAUTHORIZED ''unauthorized''
     (snd (do_token_refresh (refused_actor\<lparr>a_reconnect_attempts := a_reconnect_attempts refused_actor + 1\<rparr>)))"

theorem unauthorized_still_connects_witness:
  "a_state (attempt_after_backoff accepting_env [Some (FrameData [123, 125])] refused_actor) = Connected \<and>
   Answer 7 (RUnit (Inl ClientDisconnected)) \<in> set (a_log refused_after)"
proof -
  let ?s = "refused_actor\<lparr>a_reconnect_attempts := a_reconnect_attempts refused_actor + 1\<rparr>"
  have u: "do_token_refresh ?s = (Inl Unauthorized, snd (do_token_refresh ?s))"
    by (simp add: refused_actor_def new_actor_def do_token_refresh_def)
  have c: "env_connect accepting_env (a_tick refused_after) = None"
    by (simp add: accepting_codec)
  have h: "fst (do_handshake accepting_env [Some (FrameData [123, 125])]
        (snd (open_transport accepting_env refused_after))) = Inr default_connect_result"
    by (rule handshake_accepted [where g = "Some (\<lambda>t. Inl Unauthorized)" and c = "a_tick refused_after"])
      (simp_all add: open_transport_def accepting_codec refused_after_def refused_actor_def new_actor_def
        do_token_refresh_def)
  have n: "a_refresh_required refused_actor \<or>
      cfg_token (a_config refused_actor) = [] \<and> cfg_get_token (a_config refused_actor) \<noteq> None"
    by (simp add: refused_actor_def new_actor_def default_client_config_def)
  have "a_connect_waiters refused_actor = [7]" by (simp add: refused_actor_def)
  then show ?thesis
    using unauthorized_still_connects [OF n u refused_after_def c h] by simp
qed

section \<open>Batching across a connect\<close>

text \<open>
  A batch that is open when the client connects swallows the handshake: the connect command goes
  into the queue, nothing is written, and with a server that has received nothing and says nothing
  the handshake times out.
\<close>

theorem batching_blocks_handshake:
  assumes "a_batch_active s" and "cfg_get_data (a_config s) = None"
    and "encode_commands (env_codec env) (protocol_of s)
      [connect_command (a_next_id s) (snd (next_cmd_id s))] = Inr data"
  shows "fst (do_handshake env [] s) = Inl Timeout \<and> a_log (snd (do_handshake env [] s)) = a_log s \<and>
    a_batch_queue (snd (do_handshake env [] s)) = a_batch_queue s @ [data]"
  using assms
  by (simp add: do_handshake_def handshake_data_def next_cmd_id_def send_command_def protocol_of_def
      split: unit.split)

theorem batching_blocks_handshake_witness:
  "fst (do_handshake sample_env [] ((new_actor default_client_config)\<lparr>a_state := Connecting, a_batch_active := True,
     a_sink := Some 0, a_stream := Some 0\<rparr>)) = Inl Timeout"
  using batching_blocks_handshake [of "(new_actor default_client_config)\<lparr>a_state := Connecting,
     a_batch_active := True, a_sink := Some 0, a_stream := Some 0\<rparr>" sample_env "[123, 125]"]
  by (simp add: new_actor_def default_client_config_def protocol_of_def encode_commands_def
      json_encode_commands_def sample_codec_def)

text \<open>
  \<open>sub.subscribe().await\<close> between \<open>start_batching\<close> and \<open>stop_batching\<close>, as the README has it: the
  command is queued and not written, so the call returns only when its timeout fires, with
  \<open>Timeout\<close>, and that drops the connection.
\<close>

theorem batched_subscribe_times_out:
  assumes "a_state s = Connected" and "a_batch_active s"
    and "hm_get (a_subs s) ch = Some sub" and "ss_state sub = Unsubscribed"
    and "\<And>cmd. is_ok (encode_commands (env_codec env) (protocol_of s) [cmd])"
  shows "let t = handle_command env (Subscribe ch r) s; u = handle_command env (RequestTimeout (a_next_id s)) t in
    (\<forall>conn d. Write conn d \<in> set (a_log t) \<longrightarrow> Write conn d \<in> set (a_log s)) \<and>
    hm_get (a_pending t) (a_next_id s) = Some (PSubscribe ch (Some r)) \<and>
    Answer r (RUnit (Inl Timeout)) \<in> set (a_log u) \<and> a_state u \<noteq> Connected"
proof -
  let ?t = "handle_command env (Subscribe ch r) s"
  let ?u = "handle_command env (RequestTimeout (a_next_id s)) ?t"
  have ok: "\<exists>data. encode_commands (env_codec env) (protocol_of s) [cmd] = Inr data" for cmd
    using assms(5) [of cmd] by (cases "encode_commands (env_codec env) (protocol_of s) [cmd]") simp_all
  then have sent: "\<exists>q. send_command env cmd u = (Inr (), u\<lparr>a_batch_queue := q\<rparr>)"
    if "a_batch_active u" "a_config u = a_config s" for cmd u
  proof -
    obtain data where "encode_commands (env_codec env) (protocol_of s) [cmd] = Inr data" using ok by blast
    with that show ?thesis by (auto simp: send_command_def protocol_of_def)
  qed
  let ?sub = "sub\<lparr>ss_state := Subscribing, ss_attempts := 0\<rparr>"
  let ?a = "sub_emit ?sub (SE_Subscribing SUBSCRIBE_CALLED ''subscribe called'') (put_sub ch ?sub s)"
  let ?b = "schedule_request_timeout (a_next_id s)
    (insert_pending (a_next_id s) (PSubscribe ch (Some r)) (snd (next_cmd_id ?a)))"
  let ?cmd = "default_command\<lparr>cmd_id := a_next_id s, cmd_subscribe := Some (subscribe_request_of ch ?sub)\<rparr>"
  have "\<exists>q. send_command env ?cmd ?b = (Inr (), ?b\<lparr>a_batch_queue := q\<rparr>)"
    by (rule sent) (simp_all add: assms(2))
  then obtain q where q: "send_command env ?cmd ?b = (Inr (), ?b\<lparr>a_batch_queue := q\<rparr>)" by blast
  have t: "?t = ?b\<lparr>a_batch_queue := q\<rparr>"
    using assms(1,3,4) q
    by (simp add: handle_subscribe_def build_subscribe_command_def Let_def case_prod_beta split: unit.split)
  have p: "hm_get (a_pending ?t) (a_next_id s) = Some (PSubscribe ch (Some r))"
    and sub: "hm_get (a_subs ?t) ch = Some ?sub" and st: "a_state ?t = Connected"
    unfolding t using assms(1) by simp_all
  have log: "e \<in> set (a_log ?t) \<Longrightarrow> \<forall>w d. e \<noteq> Schedule w d \<Longrightarrow> \<forall>tx ev. e \<noteq> EmitSub tx ev \<Longrightarrow>
      \<forall>w. e \<noteq> DropSender w \<Longrightarrow> e \<in> set (a_log s)" for e
    unfolding t
    by (auto simp: schedule_request_timeout_def schedule_def insert_pending_def drop_sender_def sub_emit_log
        sub_events_def next_cmd_id_def Let_def split: option.splits)
  let ?v = "answer (Some r) (RUnit (Inl Timeout)) (remove_pending (a_next_id s) ?t)"
  let ?w = "answer_all (ss_waiters sub) (RUnit (Inl Timeout)) (put_sub ch (?sub\<lparr>ss_waiters := []\<rparr>) ?v)"
  have u: "?u = on_transport_close env (Some subscribe_timeout_info) ?w"
    using p sub by (simp add: handle_request_timeout_def del: handle_command.simps(10))
  have "Answer r (RUnit (Inl Timeout)) \<in> set (a_log ?w)" by (simp add: answer_def)
  then have "Answer r (RUnit (Inl Timeout)) \<in> set (a_log ?u)"
    unfolding u by (rule log_mono [OF grows.r_on_transport_close])
  moreover have "a_state ?u \<noteq> Connected" unfolding u by simp
  ultimately show ?thesis
    using p log by (auto simp: Let_def simp del: handle_command.simps)
qed

definition batching_actor :: actor where
  "batching_actor = (new_actor default_client_config)\<lparr>a_state := Connected, a_batch_active := True,
     a_subs := hm_insert ''quiet'' (new_sub_state default_subscription_config) hm_empty\<rparr>"

theorem batched_subscribe_times_out_witness:
  "Answer 9 (RUnit (Inl Timeout)) \<in> set (a_log (handle_command sample_env (RequestTimeout 1)
     (handle_command sample_env (Subscribe ''quiet'' 9) batching_actor)))"
proof -
  let ?sub = "new_sub_state default_subscription_config"
  have "a_state batching_actor = Connected" "a_batch_active batching_actor" "a_next_id batching_actor = 1"
    "hm_get (a_subs batching_actor) ''quiet'' = Some ?sub" "ss_state ?sub = Unsubscribed"
    by (simp_all add: batching_actor_def new_actor_def new_sub_state_def split: option.split)
  moreover have "is_ok (encode_commands (env_codec sample_env) (protocol_of batching_actor) [cmd])" for cmd
    by (simp add: batching_actor_def new_actor_def default_client_config_def protocol_of_def
        encode_commands_def json_encode_commands_def sample_codec_def)
  ultimately show ?thesis
    using batched_subscribe_times_out [of batching_actor "''quiet''" ?sub sample_env 9]
    by (simp add: Let_def del: handle_command.simps)
qed

section \<open>Subscribing before connecting\<close>

text \<open>
  The quick start of the README awaits \<open>client.subscribe\<close> before it calls \<open>connect\<close>: the subscribe
  call is not answered in state \<open>Disconnected\<close>, no timer is set, and the only thing that can move
  the actor is another command, which the program that waits does not send.
\<close>

theorem quick_start_waits:
  assumes "r' \<noteq> r"
    and "t = handle_command env (Subscribe ch r') (handle_command env (SetSubEventChannel ch tx)
      (handle_command env (NewSubscription ch default_subscription_config r) (new_actor config)))"
  shows "received r' (a_log t) = None \<and> r' \<in># waiting t \<and> a_state t = Disconnected \<and>
    (\<forall>d cmd. Schedule d cmd \<notin> set (a_log t)) \<and>
    (\<forall>cmds u. actor_step env cmds t u \<longrightarrow> (\<exists>cmd. cmds = [cmd] \<and> u = handle_command env cmd t))"
proof -
  let ?sub = "(new_sub_state default_subscription_config)\<lparr>ss_event_tx := Some tx\<rparr>"
  let ?s = "handle_command env (SetSubEventChannel ch tx)
      (handle_command env (NewSubscription ch default_subscription_config r) (new_actor config))"
  have new: "ss_state ?sub = Unsubscribed" "ss_waiters ?sub = []"
    by (simp_all add: new_sub_state_def split: option.split)
  have sub: "hm_get (a_subs ?s) ch = Some ?sub" and s: "a_state ?s = Disconnected"
    "a_log ?s = [Answer r (RUnit (Inr ()))]"
    by (simp_all add: handle_new_subscription_def new_actor_def answer_def)
  then have st: "a_state t = Disconnected"
    and log: "a_log t = [Answer r (RUnit (Inr ())), EmitSub tx (SE_Subscribing SUBSCRIBE_CALLED ''subscribe called'')]"
    and "hm_get (a_subs t) ch = Some (?sub\<lparr>ss_state := Subscribing, ss_attempts := 0, ss_waiters := [r']\<rparr>)"
    unfolding assms(2) handle_command.simps(10)
    using new by (simp_all add: handle_subscribe_def Let_def sub_emit_log sub_events_def del: handle_command.simps)
  then have "r' \<in># waiting t"
    using hm_sum_remove_Some [of "a_subs t" ch _ "\<lambda>sub. mset (ss_waiters sub)"]
    by (auto simp: waiting_def dest!: sym [of _ "hm_sum (\<lambda>sub. mset (ss_waiters sub)) (a_subs t)"])
  with st log assms(1) show ?thesis
    by (auto elim: actor_stepE)
qed

theorem quick_start_waits_witness:
  "received 2 (a_log (handle_command sample_env (Subscribe ''news'' 2)
     (handle_command sample_env (SetSubEventChannel ''news'' 3)
       (handle_command sample_env (NewSubscription ''news'' default_subscription_config 1)
         (new_actor default_client_config))))) = None"
  using quick_start_waits [of 2 1 _ sample_env "''news''" 3 default_client_config, OF _ refl]
  by (simp del: handle_command.simps)

section \<open>Subscribing without the token\<close>

text \<open>
  \<open>subscribe\<close> on a connected client, for a channel with a token callback and no token yet: the
  callback is not asked. The subscribe command goes out at once with an empty token, although the
  compliance table has the token fetched before the subscribe.
\<close>

theorem connected_subscribe_skips_token:
  assumes "a_state s = Connected" and "a_sink s = Some conn" and "\<not> a_batch_active s"
    and "hm_get (a_subs s) ch = Some sub" and "ss_state sub = Unsubscribed" and "needs_token sub"
    and "encode_commands (env_codec env) (protocol_of s) [default_command\<lparr>cmd_id := a_next_id s,
      cmd_subscribe := Some (subscribe_request_of ch sub)\<rparr>] = Inr wire"
    and "\<And>t d. env_send env t d = None" and "hm_get (a_pending s) (a_next_id s) = None"
  shows "let t = handle_command env (Subscribe ch r) s in
    sq_token (subscribe_request_of ch sub) = [] \<and>
    a_log t = a_log s @ sub_events sub [SE_Subscribing SUBSCRIBE_CALLED ''subscribe called'']
      @ [Schedule (cfg_timeout (a_config s)) (RequestTimeout (a_next_id s)), Write conn wire] \<and>
    a_tick t = Suc (a_tick s) \<and>
    hm_get (a_subs t) ch = Some (sub\<lparr>ss_state := Subscribing, ss_attempts := 0\<rparr>)"
proof -
  let ?sub = "sub\<lparr>ss_state := Subscribing, ss_attempts := 0\<rparr>"
  have "subscribe_request_of ch ?sub = subscribe_request_of ch sub" "sub_events ?sub evs = sub_events sub evs" for evs
    by (simp_all add: subscribe_request_of_def recovering_def sub_events_def)
  moreover have "sq_token (subscribe_request_of ch sub) = []"
    using assms(6) by (simp add: subscribe_request_of_def needs_token_def)
  ultimately show ?thesis
    using assms
    by (simp add: Let_def handle_subscribe_def next_cmd_id_def build_subscribe_command_def insert_pending_def
        schedule_request_timeout_def schedule_def send_command_def sink_send_def protocol_of_def sub_emit_log
        split: unit.split) (simp add: step_tick_def perform_def)
qed

definition token_actor :: actor where
  "token_actor = (new_actor default_client_config)\<lparr>a_state := Connected, a_sink := Some 0, a_stream := Some 0,
     a_subs := hm_insert ''vip'' (new_sub_state (default_subscription_config
       \<lparr>scfg_get_token := Some (\<lambda>ch t. Inr ''jwt'')\<rparr>)) hm_empty\<rparr>"

theorem connected_subscribe_skips_token_witness:
  "last (a_log (handle_command sample_env (Subscribe ''vip'' 9) token_actor)) = Write 0 [123, 125]"
proof -
  let ?sub = "new_sub_state (default_subscription_config\<lparr>scfg_get_token := Some (\<lambda>ch t. Inr ''jwt'')\<rparr>)"
  have "a_state token_actor = Connected" "a_sink token_actor = Some 0" "\<not> a_batch_active token_actor"
    "hm_get (a_subs token_actor) ''vip'' = Some ?sub" "ss_state ?sub = Unsubscribed" "needs_token ?sub"
    "encode_commands (env_codec sample_env) (protocol_of token_actor) [default_command\<lparr>cmd_id := a_next_id token_actor,
      cmd_subscribe := Some (subscribe_request_of ''vip'' ?sub)\<rparr>] = Inr [123, 125]"
    "hm_get (a_pending token_actor) (a_next_id token_actor) = None"
    by (simp_all add: token_actor_def new_actor_def new_sub_state_def needs_token_def default_subscription_config_def
        protocol_of_def default_client_config_def encode_commands_def json_encode_commands_def sample_codec_def)
  then show ?thesis
    using connected_subscribe_skips_token [of token_actor 0 "''vip''" ?sub sample_env "[123, 125]" 9]
    by (simp add: Let_def del: handle_command.simps)
qed

section \<open>A resubscribe timer that outlives its reason\<close>

text \<open>
  C37. A resubscribe timer set after a temporary error is not cancelled. When it fires on a channel that
  a reconnect has subscribed in the meantime, a second subscribe command goes out, since
  \<open>do_subscribe\<close> only turns unsubscribed channels away. The server's answer, already subscribed,
  counts as success with an empty result: the user is told again that the channel is subscribed,
  and delta decoding is switched off, so that the next publication is delivered with the bytes of
  its delta as its data.
\<close>

theorem stale_resubscribe_disables_delta:
  assumes "a_state s = Connected" and "a_sink s = Some conn" and "\<not> a_batch_active s"
    and "hm_get (a_subs s) ch = Some sub" and "ss_state sub = Subscribed" and "ss_delta_negotiated sub"
    and "ss_waiters sub = []" and "\<not> needs_token sub" and "scfg_get_data (ss_config sub) = None"
    and "encode_commands (env_codec env) (protocol_of s) [default_command\<lparr>cmd_id := a_next_id s,
      cmd_subscribe := Some (subscribe_request_of ch sub)\<rparr>] = Inr wire"
    and "\<And>t d. env_send env t d = None" and "hm_get (a_pending s) (a_next_id s) = None"
    and "rp_id reply = a_next_id s" and "rp_id reply \<noteq> 0"
    and "rp_error reply = Some err" and "pe_code err = ALREADY_SUBSCRIBED" and "rp_subscribe reply = None"
  shows "let t = handle_command env (Resubscribe ch) s; u = dispatch_reply env reply t in
    a_log t = a_log s @ [Schedule (cfg_timeout (a_config s)) (RequestTimeout (a_next_id s)), Write conn wire] \<and>
    hm_get (a_subs u) ch = Some (sub\<lparr>ss_attempts := 0, ss_delta_negotiated := False\<rparr>) \<and>
    a_log u = a_log t @ sub_events sub
      [SE_Subscribed (subscribed_context_of ch (recovering sub) default_subscribe_result)] \<and>
    a_log (handle_publication env ch p u) = a_log u @ sub_events sub [SE_Publication (publication_from p)]"
proof -
  let ?i = "a_next_id s"
  let ?t = "handle_command env (Resubscribe ch) s"
  let ?u = "dispatch_reply env reply ?t"
  let ?sub = "sub\<lparr>ss_attempts := 0, ss_delta_negotiated := False\<rparr>"
  have token: "subscribe_token env ch sub s = (True, s)"
    using assms(8) by (auto simp: subscribe_token_def needs_token_def split: option.split)
  have data: "subscribe_data ch s = s"
    using assms(4,9) by (simp add: subscribe_data_def)
  let ?v = "perform (Write conn wire) (step_tick (schedule_request_timeout ?i
    (insert_pending ?i (PSubscribe ch None) (snd (next_cmd_id s)))))"
  have "send_subscribe env ch s = ?v"
    using assms(2-4,10,11)
    by (simp add: send_subscribe_def build_subscribe_command_def Let_def case_prod_beta send_command_def
        sink_send_def protocol_of_def split: unit.split)
  then have v: "?t = ?v"
    using assms(1,4,5) by (simp add: do_subscribe_def token data)
  have t: "a_log ?t = a_log s @ [Schedule (cfg_timeout (a_config s)) (RequestTimeout ?i), Write conn wire]"
    "hm_get (a_pending ?t) ?i = Some (PSubscribe ch None)" "a_subs ?t = a_subs s"
    unfolding v using assms(12)
    by (simp_all add: insert_pending_def schedule_request_timeout_def schedule_def)
  have "?u = handle_subscribe_success env ch default_subscribe_result (remove_pending ?i ?t)"
    using assms(13-17) t(2)
    by (simp add: dispatch_reply_def resolve_subscribe_def answer_def del: handle_command.simps)
  moreover have "sub_events (sub\<lparr>ss_state := x, ss_attempts := n, ss_delta_negotiated := b\<rparr>) evs = sub_events sub evs"
    for x n b evs by (simp add: sub_events_def)
  ultimately have u: "hm_get (a_subs ?u) ch = Some ?sub"
    "a_log ?u = a_log ?t @ sub_events sub
      [SE_Subscribed (subscribed_context_of ch (recovering sub) default_subscribe_result)]"
    using assms(4,5,7) t(3)
    by (simp_all add: handle_subscribe_success_def subscribed_sub_def default_subscribe_result_def Let_def
        sub_emit_log answer_all_def del: handle_command.simps)
  have "a_log (handle_publication env ch p ?u) = a_log ?u @ sub_events sub [SE_Publication (publication_from p)]"
    using u(1)
    by (cases "ss_event_tx sub") (simp_all add: handle_publication_def receive_publication_def case_prod_beta Let_def sub_apply_delta_def
        sub_emit_log sub_events_def publication_from_def del: handle_command.simps)
  with t(1) u show ?thesis by (simp only: Let_def)
qed

definition delta_actor :: actor where
  "delta_actor = (new_actor default_client_config)\<lparr>a_state := Connected, a_sink := Some 0, a_stream := Some 0,
     a_subs := hm_insert ''news'' ((new_sub_state default_subscription_config)\<lparr>ss_state := Subscribed,
       ss_delta_negotiated := True, ss_event_tx := Some 3\<rparr>) hm_empty\<rparr>"

theorem stale_resubscribe_disables_delta_witness:
  "map_option ss_delta_negotiated (hm_get (a_subs (dispatch_reply sample_env
     (default_reply\<lparr>rp_id := 1, rp_error := Some \<lparr>pe_code = ALREADY_SUBSCRIBED, pe_message = [], pe_temporary = False\<rparr>\<rparr>)
     (handle_command sample_env (Resubscribe ''news'') delta_actor))) ''news'') = Some False"
proof -
  let ?sub = "(new_sub_state default_subscription_config)\<lparr>ss_state := Subscribed, ss_delta_negotiated := True,
    ss_event_tx := Some 3\<rparr>"
  let ?err = "\<lparr>pe_code = ALREADY_SUBSCRIBED, pe_message = [], pe_temporary = False\<rparr>"
  let ?reply = "default_reply\<lparr>rp_id := 1, rp_error := Some ?err\<rparr>"
  have "a_state delta_actor = Connected" "a_sink delta_actor = Some 0" "\<not> a_batch_active delta_actor"
    "hm_get (a_subs delta_actor) ''news'' = Some ?sub" "ss_state ?sub = Subscribed" "ss_delta_negotiated ?sub"
    "ss_waiters ?sub = []" "\<not> needs_token ?sub" "scfg_get_data (ss_config ?sub) = None"
    "encode_commands (env_codec sample_env) (protocol_of delta_actor) [default_command\<lparr>cmd_id := a_next_id delta_actor,
      cmd_subscribe := Some (subscribe_request_of ''news'' ?sub)\<rparr>] = Inr [123, 125]"
    "hm_get (a_pending delta_actor) (a_next_id delta_actor) = None" "rp_id ?reply = a_next_id delta_actor"
    "rp_id ?reply \<noteq> 0" "rp_error ?reply = Some ?err" "rp_subscribe ?reply = None"
    by (simp_all add: delta_actor_def new_actor_def new_sub_state_def needs_token_def default_subscription_config_def
        protocol_of_def default_client_config_def encode_commands_def json_encode_commands_def sample_codec_def
        default_reply_def)
  then show ?thesis
    using stale_resubscribe_disables_delta [of delta_actor 0 "''news''" ?sub sample_env "[123, 125]" ?reply ?err]
    by (simp add: Let_def del: handle_command.simps)
qed

section \<open>One subscription keeps the client from connecting\<close>


text \<open>The client is not connected, and its next connect command carries the request.\<close>

definition offers :: "protocol_type \<Rightarrow> string \<Rightarrow> subscribe_request \<Rightarrow> actor \<Rightarrow> bool" where
  "offers pt ch rq s \<longleftrightarrow> a_state s \<noteq> Connected \<and> hm_keys (a_pending s) = [] \<and>
     cfg_protocol_type (a_config s) = pt \<and>
     (case hm_get (a_subs s) ch of
        Some sub \<Rightarrow> batched_in_handshake sub \<and> subscribe_request_of ch sub = rq | None \<Rightarrow> False)"




lemma offers_frame [simp]:
  "offers pt ch rq (perform e s) = offers pt ch rq s" "offers pt ch rq (answer w v s) = offers pt ch rq s"
  "offers pt ch rq (answer_all ws v s) = offers pt ch rq s" "offers pt ch rq (drop_all ws s) = offers pt ch rq s"
  "offers pt ch rq (sub_emit sub ev s) = offers pt ch rq s" "offers pt ch rq (emit_error msg s) = offers pt ch rq s"
  "offers pt ch rq (step_tick s) = offers pt ch rq s"
  "offers pt ch rq (s\<lparr>a_reconnect_attempts := n\<rparr>) = offers pt ch rq s"
  "offers pt ch rq (s\<lparr>a_refresh_required := b\<rparr>) = offers pt ch rq s"
  "offers pt ch rq (s\<lparr>a_sink := x, a_stream := y\<rparr>) = offers pt ch rq s"
  by (simp_all add: offers_def)

subsection \<open>Commands\<close>










subsection \<open>Attempts\<close>















end
