(* ===== verification/Delivery.thy ===== *)
theory Delivery
  imports Channels "HOL-Library.Sublist"
begin

text \<open>
  What becomes of an event once it is emitted. The log of the actor holds the offers; between the actor
  and the user is a channel of bounded capacity, on which the code uses \<open>try_send\<close>: an event that finds
  no room is dropped.
\<close>

section \<open>The event channel\<close>

definition event_capacity :: nat where
  "event_capacity = 256"

definition try_emit :: "'e \<Rightarrow> 'e list \<Rightarrow> 'e list" where
  "try_emit ev q = (if length q < event_capacity then q @ [ev] else q)"

datatype 'e traffic = Offer 'e | Take

text \<open>What the user has taken, and what is left in the channel, after offers and takes in this order.\<close>

fun event_stream :: "'e traffic list \<Rightarrow> 'e list \<Rightarrow> 'e list \<times> 'e list" where
  "event_stream [] q = ([], q)"
| "event_stream (Offer ev # xs) q = event_stream xs (try_emit ev q)"
| "event_stream (Take # xs) [] = event_stream xs []"
| "event_stream (Take # xs) (ev # q) = (let (taken, left) = event_stream xs q in (ev # taken, left))"

fun offers :: "'e traffic list \<Rightarrow> 'e list" where
  "offers [] = []"
| "offers (Offer ev # xs) = ev # offers xs"
| "offers (Take # xs) = offers xs"

text \<open>The user never lets the channel fill up.\<close>

fun in_time :: "'e traffic list \<Rightarrow> nat \<Rightarrow> bool" where
  "in_time [] n = True"
| "in_time (Offer ev # xs) n = (n < event_capacity \<and> in_time xs (n + 1))"
| "in_time (Take # xs) n = in_time xs (n - 1)"

text \<open>The user sees events in the order of the offers, none twice; all of them when he is in time.\<close>

lemma event_stream_subseq:
  "subseq (fst (event_stream xs q) @ snd (event_stream xs q)) (q @ offers xs)"
proof (induction xs q rule: event_stream.induct)
  case (2 ev xs q)
  have "subseq (try_emit ev q @ offers xs) (q @ ev # offers xs)"
    using subseq_order.refl [of q] list_emb_Cons [OF subseq_order.refl [of "offers xs"]]
    by (auto simp: try_emit_def intro: list_emb_append_mono)
  moreover have "subseq (fst (event_stream (Offer ev # xs) q) @ snd (event_stream (Offer ev # xs) q))
      (try_emit ev q @ offers xs)"
    using 2 by simp
  ultimately show ?case by (simp only: offers.simps subseq_order.trans)
qed (auto simp: case_prod_beta)

lemma event_stream_in_time:
  "in_time xs (length q) \<Longrightarrow> fst (event_stream xs q) @ snd (event_stream xs q) = q @ offers xs"
  by (induction xs q rule: event_stream.induct) (auto simp: try_emit_def case_prod_beta)

text \<open>A user who takes nothing is left with what there was room for.\<close>

lemma event_stream_idle:
  assumes "length q \<le> event_capacity"
  shows "event_stream (map Offer evs) q = ([], q @ take (event_capacity - length q) evs)"
  using assms
proof (induction evs arbitrary: q)
  case (Cons ev evs)
  then show ?case
    using Cons.IH [of "q @ [ev]"] by (auto simp: try_emit_def take_Cons')
qed simp

section \<open>Publications of a subscription\<close>

text \<open>The message that pushes a publication on a channel.\<close>

definition pub_push :: "string \<Rightarrow> proto_publication \<Rightarrow> proto_reply" where
  "pub_push ch p = default_reply\<lparr>rp_push := Some (default_push\<lparr>ph_channel := ch, ph_pub := Some p\<rparr>)\<rparr>"

lemma dispatch_pub_push:
  assumes "hm_get (a_subs s) ch = Some sub"
  shows "dispatch_reply env (pub_push ch p) s
     = put_sub ch (fst (receive_publication env (protocol_of s) p (sub, s)))
         (snd (receive_publication env (protocol_of s) p (sub, s)))"
  using assms
  by (simp add: dispatch_reply_def pub_push_def default_reply_def default_push_def handle_push_def Let_def
      handle_publication_def case_prod_beta)

lemma receive_publication_sub:
  "fst (receive_publication env pt p (sub, s))
     = snd (sub_apply_delta (env_codec env) (sub\<lparr>ss_offset := last_offset [p] (ss_offset sub)\<rparr>) (pp_data p) (pp_delta p) pt)"
  by (simp add: receive_publication_unfold case_prod_beta)

lemma delivered_Cons:
  "delivered env pt sub (p # pubs) = delivered env pt sub [p]
     @ delivered env pt (fst (receive_publication env pt p (sub, s))) pubs"
  by (simp add: receive_publication_sub case_prod_beta del: last_offset_simps)

lemma pushes:
  assumes "hm_get (a_subs s) ch = Some sub"
  shows "\<exists>sub'. hm_get (a_subs (fold (dispatch_reply env) (map (pub_push ch) pubs) s)) ch = Some sub' \<and>
     ss_offset sub' = last_offset pubs (ss_offset sub) \<and> ss_state sub' = ss_state sub \<and>
     ss_waiters sub' = ss_waiters sub \<and>
     a_log (fold (dispatch_reply env) (map (pub_push ch) pubs) s)
       = a_log s @ sub_events sub (map SE_Publication (delivered env (protocol_of s) sub pubs))"
  using assms
proof (induction pubs arbitrary: s sub)
  case Nil
  then show ?case by (simp add: sub_events_def split: option.split)
next
  case (Cons p pubs)
  let ?r = "receive_publication env (protocol_of s) p (sub, s)"
  let ?s = "put_sub ch (fst ?r) (snd ?r)"
  have d: "dispatch_reply env (pub_push ch p) s = ?s" by (rule dispatch_pub_push [OF Cons.prems])
  have "protocol_of ?s = protocol_of s" by (simp add: protocol_of_def put_sub_def)
  moreover have "hm_get (a_subs ?s) ch = Some (fst ?r)" by (simp add: put_sub_def)
  moreover have "sub_events (fst ?r) evs = sub_events sub evs" for evs
    by (rule sub_events_cong) simp
  moreover have "a_log ?s = a_log s @ sub_events sub (map SE_Publication (delivered env (protocol_of s) sub [p]))"
    by (simp add: put_sub_def receive_one_log del: delivered.simps)
  ultimately show ?case
    using Cons.IH [of ?s "fst ?r"] d delivered_Cons [of env "protocol_of s" sub p pubs s]
    by (simp add: sub_events_def del: delivered.simps split: option.split_asm option.split)
qed

text \<open>
  C18. A user who falls behind loses publications for good. When the server pushes publications on a
  channel, the position of the channel moves on with every one of them, each is offered once, in order,
  with its delta undone; but a user who takes none of them in the meantime finds only as many as there
  was room for in his event channel. The rest is gone: the next subscribe asks for what comes after the last one.
\<close>

theorem slow_user_loses:
  assumes "hm_get (a_subs s) ch = Some sub" and "ss_event_tx sub = Some tx"
    and "t = fold (dispatch_reply env) (map (pub_push ch) pubs) s" and "length q \<le> event_capacity"
  shows "\<exists>sub' evs. hm_get (a_subs t) ch = Some sub' \<and> evs = map SE_Publication (delivered env (protocol_of s) sub pubs) \<and>
     a_log t = a_log s @ map (EmitSub tx) evs \<and> length evs = length pubs \<and>
     event_stream (map Offer evs) q = ([], q @ take (event_capacity - length q) evs) \<and>
     sq_offset (subscribe_request_of ch sub') = last_offset pubs (ss_offset sub)"
proof -
  have len: "length (delivered env pt u pubs) = length pubs" for pt u
    by (induction pubs arbitrary: u) (simp_all add: case_prod_beta del: last_offset_simps)
  obtain sub' where "hm_get (a_subs t) ch = Some sub'" "ss_offset sub' = last_offset pubs (ss_offset sub)"
    "a_log t = a_log s @ sub_events sub (map SE_Publication (delivered env (protocol_of s) sub pubs))"
    using pushes [OF assms(1)] unfolding assms(3) by blast
  then show ?thesis
    using event_stream_idle [OF assms(4)] len assms(2)
    by (intro exI [of _ sub'] exI [of _ "map SE_Publication (delivered env (protocol_of s) sub pubs)"] conjI)
      (simp_all add: sub_events_def subscribe_request_of_def del: map_map)
qed

text \<open>Of 300 publications 44 are lost.\<close>

theorem slow_user_loses_witness:
  "\<exists>evs. a_log (fold (dispatch_reply sample_env) (map (pub_push ''news'')
       (replicate 300 (default_publication\<lparr>pp_offset := 5\<rparr>))) one_sub_actor) = map (EmitSub 3) evs \<and>
     length evs = 300 \<and> length (snd (event_stream (map Offer evs) [])) = 256"
proof -
  let ?sub = "(new_sub_state default_subscription_config)\<lparr>ss_state := Subscribing, ss_event_tx := Some 3, ss_waiters := [7, 8]\<rparr>"
  let ?pubs = "replicate 300 (default_publication\<lparr>pp_offset := 5\<rparr>)"
  let ?t = "fold (dispatch_reply sample_env) (map (pub_push ''news'') ?pubs) one_sub_actor"
  have "hm_get (a_subs one_sub_actor) ''news'' = Some ?sub" "ss_event_tx ?sub = Some 3"
    "length ([] :: sub_event list) \<le> event_capacity"
    by (simp_all add: one_sub_actor_def)
  from slow_user_loses [OF this(1,2) refl this(3), of sample_env ?pubs]
  obtain evs where "a_log ?t = a_log one_sub_actor @ map (EmitSub 3) evs" "length evs = length ?pubs"
    and q: "event_stream (map Offer evs) [] = ([], [] @ take (event_capacity - length ([] :: sub_event list)) evs)"
    by blast
  then have evs: "a_log ?t = map (EmitSub 3) evs" "length evs = 300"
    by (simp_all only: length_replicate) (simp add: one_sub_actor_def new_actor_def)
  have "length (snd (event_stream (map Offer evs) [])) = 256"
    unfolding q by (simp add: evs(2) event_capacity_def)
  with evs show ?thesis by blast
qed

end
