(* ===== verification/Bridge.thy ===== *)
theory Bridge
  imports Transport
begin

text \<open>
  The WebSocket transport of \<open>src/transport.rs\<close>: the headers of the upgrade request, the two tasks of
  \<open>spawn_ws_task\<close> between the socket and the channels, and \<open>ChannelSink\<close>. What the socket yields and
  whether a send succeeds are inputs; parsing of header names and values (crate \<open>http\<close>) is a parameter.
  How the tasks are interleaved is the subject of \<open>Tasks\<close>.
\<close>

section \<open>The request\<close>

record ws_transport =
  ws_url :: string
  ws_protocol_type :: protocol_type
  ws_headers :: "(string \<times> string) list"

text \<open>\<open>WsTransport::new\<close>; the list is the header map of the configuration in its iteration order.\<close>

definition new_ws_transport :: "string \<Rightarrow> protocol_type \<Rightarrow> (string \<times> string) list \<Rightarrow> ws_transport" where
  "new_ws_transport url pt headers = \<lparr>ws_url = url, ws_protocol_type = pt, ws_headers = headers\<rparr>"

text \<open>
  \<open>parse_name\<close> is \<open>HeaderName\<close>'s parser, which also normalises case; \<open>insert\<close> replaces a header of the same
  name. A header that does not parse is skipped.
\<close>

definition insert_header ::
  "(string \<Rightarrow> string option) \<Rightarrow> (string \<Rightarrow> string option) \<Rightarrow> string \<times> string \<Rightarrow>
   (string, string) hashmap \<Rightarrow> (string, string) hashmap" where
  "insert_header parse_name parse_value = (\<lambda>(key, v) m.
     case (parse_name key, parse_value v) of
       (Some name, Some val) \<Rightarrow> hm_insert name val m
     | _ \<Rightarrow> m)"

definition request_headers ::
  "(string \<Rightarrow> string option) \<Rightarrow> (string \<Rightarrow> string option) \<Rightarrow> ws_transport \<Rightarrow>
   (string, string) hashmap \<Rightarrow> (string, string) hashmap" where
  "request_headers parse_name parse_value w m =
     fold (insert_header parse_name parse_value) (ws_headers w)
       (if ws_protocol_type w = Protobuf
        then insert_header parse_name parse_value
          (''Sec-WebSocket-Protocol'', ''centrifuge-protobuf'') m
        else m)"

section \<open>The reading task\<close>

datatype ws_message =
    WsText bytes
  | WsBinary bytes
  | WsPing
  | WsPong
  | WsRaw
  | WsClose "(u16 \<times> string) option"

text \<open>
  The items the socket yields, each with whether the frame channel still has its receiver then. The
  loop ends at a close frame, at an error, at the end of the stream and when the receiver is gone.
\<close>

fun ws_read ::
  "(string \<Rightarrow> (u32 \<times> string \<times> bool) option) \<Rightarrow> ((string + ws_message) \<times> bool) list \<Rightarrow>
   transport_frame list" where
  "ws_read advice [] = []"
| "ws_read advice ((Inr (WsText t), live) # items) =
     (if live then FrameData t # ws_read advice items else [])"
| "ws_read advice ((Inr (WsBinary b), live) # items) =
     (if live then FrameData b # ws_read advice items else [])"
| "ws_read advice ((Inr (WsClose reason), live) # items) =
     (if live then [FrameClose (map_option (\<lambda>(code, r). parse_close advice code r) reason)] else [])"
| "ws_read advice ((Inr WsPing, live) # items) = ws_read advice items"
| "ws_read advice ((Inr WsPong, live) # items) = ws_read advice items"
| "ws_read advice ((Inr WsRaw, live) # items) = ws_read advice items"
| "ws_read advice ((Inl e, live) # items) = (if live then [FrameClose None] else [])"

text \<open>\<open>ChannelStream\<close>: the frames in order, then the end of the stream, as the actor reads them.\<close>

definition channel_stream :: "transport_frame list \<Rightarrow> transport_frame option list" where
  "channel_stream frames = map Some frames @ [None]"

section \<open>The writing task\<close>

text \<open>\<open>None\<close> is the panic of \<open>expect\<close> on a text message that is not UTF-8.\<close>

definition write_message :: "bool \<Rightarrow> bytes \<Rightarrow> ws_message option" where
  "write_message is_binary data =
     (if is_binary then Some (WsBinary data)
      else if from_utf8 data \<noteq> None then Some (WsText data) else None)"

datatype write_end = SinkClosed | WritePanic

text \<open>The messages of the write channel, each with whether the socket takes it.\<close>

fun ws_write :: "bool \<Rightarrow> (bytes \<times> bool) list \<Rightarrow> ws_message list \<times> write_end" where
  "ws_write is_binary [] = ([], SinkClosed)"
| "ws_write is_binary ((data, taken) # queue) =
     (case write_message is_binary data of
        None \<Rightarrow> ([], WritePanic)
      | Some msg \<Rightarrow>
          if taken then (let (msgs, e) = ws_write is_binary queue in (msg # msgs, e))
          else ([], SinkClosed))"

section \<open>The sink\<close>

record channel_sink =
  sink_open :: bool
  sink_queue :: "bytes list"

definition new_channel_sink :: channel_sink where
  "new_channel_sink = \<lparr>sink_open = True, sink_queue = []\<rparr>"

text \<open>\<open>gone\<close>: the writing task has ended and dropped its receiver.\<close>

definition sink_send_data :: "bool \<Rightarrow> bytes \<Rightarrow> channel_sink \<Rightarrow> (string + unit) \<times> channel_sink" where
  "sink_send_data gone data k =
     (if sink_open k then
        (if gone then (Inl ''channel closed'', k)
         else (Inr (), k\<lparr>sink_queue := sink_queue k @ [data]\<rparr>))
      else (Inl ''transport closed'', k))"

definition sink_close :: "channel_sink \<Rightarrow> channel_sink" where
  "sink_close k = k\<lparr>sink_open := False\<rparr>"

text \<open>
  \<open>WsTransport::connect\<close>: \<open>into_request\<close> parses the URL into a request with its default headers,
  \<open>connect_async\<close> opens the socket; both are tungstenite's. The first failure is returned.
\<close>

definition ws_connect ::
  "(string \<Rightarrow> string + (string, string) hashmap) \<Rightarrow> (string \<Rightarrow> string option) \<Rightarrow> (string \<Rightarrow> string option) \<Rightarrow>
   ((string, string) hashmap \<Rightarrow> string + unit) \<Rightarrow> ws_transport \<Rightarrow> string + channel_sink" where
  "ws_connect into_request parse_name parse_value connect_async w =
     and_then (into_request (ws_url w)) (\<lambda>m.
     and_then (connect_async (request_headers parse_name parse_value w m)) (\<lambda>_.
     Inr new_channel_sink))"

section \<open>Laws\<close>

text \<open>What the loop is to do with a message: forward its payload, skip it, or stop.\<close>

definition payload :: "(string + ws_message) \<Rightarrow> bytes list" where
  "payload item = (case item of Inr (WsText t) \<Rightarrow> [t] | Inr (WsBinary b) \<Rightarrow> [b] | _ \<Rightarrow> [])"

definition ends_stream :: "(string + ws_message) \<Rightarrow> bool" where
  "ends_stream item = (case item of Inl e \<Rightarrow> True | Inr (WsClose reason) \<Rightarrow> True | _ \<Rightarrow> False)"

definition close_frame ::
  "(string \<Rightarrow> (u32 \<times> string \<times> bool) option) \<Rightarrow> (string + ws_message) \<Rightarrow> transport_frame" where
  "close_frame advice item = FrameClose (case item of
     Inr (WsClose (Some (code, r))) \<Rightarrow> Some (parse_close advice code r) | _ \<Rightarrow> None)"

lemma ends_stream_simps [simp]:
  "\<not> ends_stream (Inr (WsText t))" "\<not> ends_stream (Inr (WsBinary t))" "\<not> ends_stream (Inr WsPing)"
  "\<not> ends_stream (Inr WsPong)" "\<not> ends_stream (Inr WsRaw)" "ends_stream (Inr (WsClose reason))"
  "ends_stream (Inl e)"
  by (simp_all add: ends_stream_def)

lemma ws_read_live:
  "ws_read advice (map (\<lambda>i. (i, True)) items)
     = map FrameData (concat (map payload (takeWhile (\<lambda>i. \<not> ends_stream i) items)))
       @ (case dropWhile (\<lambda>i. \<not> ends_stream i) items of [] \<Rightarrow> [] | i # _ \<Rightarrow> [close_frame advice i])"
proof (induction items)
  case (Cons i items)
  show ?case
  proof (cases i)
    case (Inr msg)
    with Cons show ?thesis
      by (cases msg) (simp_all add: payload_def close_frame_def split: option.split)
  qed (simp add: close_frame_def)
qed simp

text \<open>
  While the actor listens, it reads from the bridge exactly the payloads of the text and binary
  messages before the first close or error, in order and whole, then one close frame with the
  advice of the server (none after an error), and then the end of the stream.
\<close>

theorem bridge_delivers:
  "channel_stream (ws_read advice (map (\<lambda>i. (i, True)) items))
     = map (Some \<circ> FrameData) (concat (map payload (takeWhile (\<lambda>i. \<not> ends_stream i) items)))
       @ (case dropWhile (\<lambda>i. \<not> ends_stream i) items of [] \<Rightarrow> [] | i # _ \<Rightarrow> [Some (close_frame advice i)])
       @ [None]"
proof -
  have "map Some (case is of [] \<Rightarrow> [] | i # _ \<Rightarrow> [f i]) = (case is of [] \<Rightarrow> [] | i # _ \<Rightarrow> [Some (f i)])"
    for "is" :: "(string + ws_message) list" and f :: "string + ws_message \<Rightarrow> transport_frame"
    by (cases "is") simp_all
  then show ?thesis by (simp add: channel_stream_def ws_read_live)
qed

text \<open>The writer: what it takes from the channel is written in order.\<close>

lemma ws_write_all:
  assumes "\<forall>d \<in> set ds. \<exists>msg. write_message is_binary d = Some msg"
  shows "ws_write is_binary (map (\<lambda>d. (d, True)) ds) = (map (the \<circ> write_message is_binary) ds, SinkClosed)"
  using assms by (induction ds) auto

text \<open>A sink that has been closed refuses everything; what it took before is still written.\<close>

lemma sink_close_refuses:
  "sink_send_data gone data (sink_close k) = (Inl ''transport closed'', sink_close k)"
  "sink_queue (sink_close k) = sink_queue k"
  by (simp_all add: sink_send_data_def sink_close_def)

subsection \<open>Text\<close>

lemma from_utf8_append:
  "from_utf8 xs = Some a \<Longrightarrow> from_utf8 (xs @ ys) = map_option ((@) a) (from_utf8 ys)"
proof (induction xs arbitrary: a rule: from_utf8.induct)
  case 1
  then show ?case by (simp add: option.map_ident)
next
  case (2 b bs)
  have map_some: "map_option ((#) c) (map_option ((@) x) r) = map_option (\<lambda>y. c # x @ y) r"
    "map_option ((@) (c # x)) r = map_option (\<lambda>y. c # x @ y) r" for c :: nat and x and r
    by (cases r; simp)+
  consider (ascii) "unat b < 128" | (two) "194 \<le> unat b" "unat b \<le> 223"
    | (three) "224 \<le> unat b" "unat b \<le> 239" | (four) "240 \<le> unat b" "unat b \<le> 244"
    using 2(5) by (fastforce simp: Let_def split: if_splits)
  then show ?case
  proof cases
    case ascii
    then obtain x where "from_utf8 bs = Some x" "a = unat b # x"
      using 2(5) by (auto simp: Let_def)
    then show ?thesis using 2(1) ascii by (simp add: Let_def map_some)
  next
    case two
    then obtain b1 r where bs: "bs = b1 # r"
      using 2(5) by (auto simp: Let_def split: list.splits)
    then obtain x where "from_utf8 r = Some x" "utf8_tail b1" "a = ((unat b - 192) * 64 + (unat b1 - 128)) # x"
      using 2(5) two by (auto simp: Let_def split: if_splits)
    then show ?thesis using 2(2) two bs by (simp add: Let_def map_some)
  next
    case three
    then obtain b1 b2 r where bs: "bs = b1 # b2 # r"
      using 2(5) by (auto simp: Let_def split: list.splits)
    then show ?thesis using 2(3) 2(5) three by (auto simp: Let_def map_some split: if_splits)
  next
    case four
    then obtain b1 b2 b3 r where bs: "bs = b1 # b2 # b3 # r"
      using 2(5) by (auto simp: Let_def split: list.splits)
    then show ?thesis using 2(4) 2(5) four by (auto simp: Let_def map_some split: if_splits)
  qed
qed

definition is_text :: "bytes \<Rightarrow> bool" where
  "is_text d = (from_utf8 d \<noteq> None)"

lemma is_text_append: "is_text xs \<Longrightarrow> is_text ys \<Longrightarrow> is_text (xs @ ys)"
  by (auto simp: is_text_def from_utf8_append)

lemma is_text_newline: "is_text [10]"
  by (simp add: is_text_def)

lemma is_text_join: "\<forall>d \<in> set ds. is_text d \<Longrightarrow> is_text (join_with [10] ds)"
proof (induction "[10 :: u8]" ds rule: join_with.induct)
  case (3 x y zs)
  then show ?case
    using is_text_append [OF _ is_text_append [OF is_text_newline]] by simp
qed (simp_all add: is_text_def)

text \<open>What the writer relies on: \<open>serde_json::to_string\<close> returns a \<open>String\<close>.\<close>

definition prints_text :: "codec_env \<Rightarrow> bool" where
  "prints_text E = (\<forall>cmd d. json_to_string E cmd = Inr d \<longrightarrow> is_text d)"

lemma json_encode_text:
  assumes "prints_text E" and "json_encode_commands E cs = Inr d"
  shows "is_text d"
proof -
  let ?f = "\<lambda>cmd. case json_to_string E cmd of
    Inl e \<Rightarrow> Inl (Protocol (''json encode: '' @ e)) | Inr json \<Rightarrow> Inr json"
  have "collect_results (map ?f cs) = Inr ds \<Longrightarrow> \<forall>d \<in> set ds. is_text d" for ds
  proof (induction cs arbitrary: ds)
    case (Cons c cs)
    then show ?case
      using assms(1) by (auto simp: prints_text_def and_then_Inr_iff split: sum.splits)
  qed simp
  with assms(2) show ?thesis
    by (auto simp: json_encode_commands_def is_text_join and_then_Inr_iff)
qed

end
