(* ===== verification/Handles.thy ===== *)
theory Handles
  imports Client Bridge
begin

text \<open>
  The construction of a client with its WebSocket transport (\<open>src/client/mod.rs\<close>), the calls that only
  put a command into the queue, and the request methods of the \<open>Subscription\<close> handle
  (\<open>src/subscription.rs\<close>), which repeat those of \<open>Client\<close> for the channel of the handle.
\<close>

section \<open>Construction\<close>

text \<open>
  \<open>debug_assert!\<close> panics in a debug build, which is \<open>None\<close>; a release build takes any configuration.
\<close>

definition client_new_with_transport :: "bool \<Rightarrow> client_config \<Rightarrow> actor option" where
  "client_new_with_transport debug config =
     (if debug \<and> \<not> is_ok (validate_client_config config) then None else Some (new_actor config))"

definition client_new :: "bool \<Rightarrow> client_config \<Rightarrow> (ws_transport \<times> actor) option" where
  "client_new debug config =
     map_option (Pair (new_ws_transport (cfg_url config) (cfg_protocol_type config) (hm_entries (cfg_headers config))))
       (client_new_with_transport debug config)"

section \<open>Commands of the client handle\<close>

definition client_connect :: "nat \<Rightarrow> actor_command" where
  "client_connect reply = Connect reply"

definition client_disconnect :: "nat \<Rightarrow> actor_command" where
  "client_disconnect reply = Disconnect reply"

definition client_close :: "nat \<Rightarrow> actor_command" where
  "client_close reply = Close reply"

definition new_subscription_command ::
  "bool \<Rightarrow> string \<Rightarrow> subscription_config \<Rightarrow> nat \<Rightarrow> actor_command option" where
  "new_subscription_command debug channel config reply =
     (if debug \<and> \<not> is_ok (validate_subscription_config config) then None
      else Some (NewSubscription channel config reply))"

definition new_subscription_default :: "bool \<Rightarrow> string \<Rightarrow> nat \<Rightarrow> actor_command option" where
  "new_subscription_default debug channel reply =
     new_subscription_command debug channel default_subscription_config reply"

definition remove_subscription :: "string \<Rightarrow> nat \<Rightarrow> actor_command" where
  "remove_subscription channel reply = RemoveSubscription channel reply"

definition send_proto :: "proto_command \<Rightarrow> nat \<Rightarrow> actor_command" where
  "send_proto cmd reply = SendRequest cmd reply"

section \<open>The subscription handle\<close>

record subscription =
  sub_channel :: string

definition sub_subscribe :: "subscription \<Rightarrow> nat \<Rightarrow> actor_command" where
  "sub_subscribe h reply = Subscribe (sub_channel h) reply"

definition sub_unsubscribe :: "subscription \<Rightarrow> nat \<Rightarrow> actor_command" where
  "sub_unsubscribe h reply = Unsubscribe (sub_channel h) reply"

definition sub_send_proto :: "proto_command \<Rightarrow> nat \<Rightarrow> actor_command" where
  "sub_send_proto cmd reply = SendRequest cmd reply"

definition sub_send_proto_extract :: "proto_reply res \<Rightarrow> (proto_reply \<Rightarrow> 'a option) \<Rightarrow> string \<Rightarrow> 'a res" where
  "sub_send_proto_extract result extract name =
     and_then result (\<lambda>reply.
       case rp_error reply of
         Some err \<Rightarrow> Inl (Server (server_error_from err))
       | None \<Rightarrow> (case extract reply of
           Some x \<Rightarrow> Inr x
         | None \<Rightarrow> Inl (Protocol (''missing '' @ name @ '' result''))))"

definition sub_send_proto_ok :: "proto_reply res \<Rightarrow> unit res" where
  "sub_send_proto_ok result = sub_send_proto_extract result (\<lambda>_. Some ()) []"

definition sub_publish_command :: "subscription \<Rightarrow> bytes \<Rightarrow> proto_command" where
  "sub_publish_command h data = default_command\<lparr>cmd_publish :=
     Some \<lparr>pq_channel = sub_channel h, pq_data = data\<rparr>\<rparr>"

definition sub_history_command :: "subscription \<Rightarrow> history_options \<Rightarrow> proto_command" where
  "sub_history_command h opts = default_command\<lparr>cmd_history := Some \<lparr>hq_channel = sub_channel h,
     hq_limit = ho_limit opts,
     hq_since = map_option (\<lambda>p. \<lparr>psp_offset = sp_offset p, psp_epoch = sp_epoch p\<rparr>) (ho_since opts),
     hq_reverse = ho_reverse opts\<rparr>\<rparr>"

definition sub_history_outcome :: "proto_reply res \<Rightarrow> history_result_out res" where
  "sub_history_outcome result = and_then (sub_send_proto_extract result rp_history ''history'')
     (\<lambda>r. Inr \<lparr>hro_publications = map publication_from (hr_publications r), hro_offset = hr_offset r,
           hro_epoch = hr_epoch r\<rparr>)"

definition sub_presence_command :: "subscription \<Rightarrow> proto_command" where
  "sub_presence_command h = default_command\<lparr>cmd_presence := Some \<lparr>prq_channel = sub_channel h\<rparr>\<rparr>"

definition sub_presence_outcome :: "proto_reply res \<Rightarrow> presence_result_out res" where
  "sub_presence_outcome result = and_then (sub_send_proto_extract result rp_presence ''presence'')
     (\<lambda>r. Inr \<lparr>pro_presence = hm_map_values client_info_from (prr_presence r)\<rparr>)"

definition sub_presence_stats_command :: "subscription \<Rightarrow> proto_command" where
  "sub_presence_stats_command h = default_command\<lparr>cmd_presence_stats := Some \<lparr>psq_channel = sub_channel h\<rparr>\<rparr>"

definition sub_presence_stats_outcome :: "proto_reply res \<Rightarrow> presence_stats_out res" where
  "sub_presence_stats_outcome result = and_then (sub_send_proto_extract result rp_presence_stats ''presence_stats'')
     (\<lambda>r. Inr \<lparr>pso_num_clients = psr_num_clients r, pso_num_users = psr_num_users r\<rparr>)"

section \<open>Laws\<close>

lemma sub_extract: "sub_send_proto_extract = send_proto_extract"
  by (simp add: fun_eq_iff sub_send_proto_extract_def send_proto_extract_def split: sum.split)

lemma map_sum_and_then: "map_sum (\<lambda>e. e) f r = and_then r (\<lambda>x. Inr (f x))"
  by (cases r) simp_all

text \<open>
  A subscription handle makes the requests that the client makes for the handle's channel: the same
  commands, and the same results from the same replies, errors included.
\<close>

theorem subscription_requests:
  "sub_publish_command h data = publish_command (sub_channel h) data \<and>
   sub_history_command h opts = history_command (sub_channel h) opts \<and>
   sub_presence_command h = presence_command (sub_channel h) \<and>
   sub_presence_stats_command h = presence_stats_command (sub_channel h) \<and>
   sub_send_proto_ok result = send_proto_ok result \<and> sub_history_outcome result = history_outcome result \<and>
   sub_presence_outcome result = presence_outcome result \<and>
   sub_presence_stats_outcome result = presence_stats_outcome result"
  by (simp add: sub_publish_command_def publish_command_def sub_history_command_def history_command_def
      sub_presence_command_def presence_command_def sub_presence_stats_command_def presence_stats_command_def
      sub_send_proto_ok_def send_proto_ok_def sub_history_outcome_def history_outcome_def
      sub_presence_outcome_def presence_outcome_def sub_presence_stats_outcome_def presence_stats_outcome_def
      sub_extract map_sum_and_then)

text \<open>A configuration that the checks accept is taken in either build; the defaults of the builders are.\<close>

lemma client_new_valid:
  "validate_client_config config = Inr () \<Longrightarrow> client_new_with_transport debug config = Some (new_actor config)"
  by (simp add: client_new_with_transport_def)

lemma new_subscription_default_valid:
  "new_subscription_default debug channel reply = Some (NewSubscription channel default_subscription_config reply)"
  by (simp add: new_subscription_default_def new_subscription_command_def validate_subscription_config_def
      default_subscription_config_def from_millis_def from_secs_def)

end
