(* ===== verification/Silence.thy ===== *)
theory Silence
  imports Lifecycle
begin

text \<open>
  The ping deadline: only data from the server postpones it, and when it passes the connection is
  given up.
\<close>

section \<open>What commands leave alone\<close>

text \<open>No command connects, and none moves the deadline.\<close>

definition watched :: "actor \<Rightarrow> actor \<Rightarrow> bool" where
  "watched s t \<longleftrightarrow> a_last_data_received t = a_last_data_received s \<and> a_ping_interval t = a_ping_interval s \<and>
     cfg_max_server_ping_delay (a_config t) = cfg_max_server_ping_delay (a_config s) \<and>
     (a_state t = Connected \<longrightarrow> a_state s = Connected)"

lemma flush_batch_watched: "watched s (flush_batch env s)"
  by (simp add: watched_def flush_batch_def Let_def split: option.split)

lemma announce_watched: "watched s (announce sub evs s)"
  unfolding announce_def
proof (induction evs arbitrary: s)
  case (Cons ev evs)
  from Cons [of "sub_emit sub ev s"] show ?case by (simp add: watched_def)
qed (simp add: watched_def)

lemma subscribed_watched: "watched s (answer_all ws v (put_sub ch sub' (announce sub evs s)))"
  using announce_watched [of s sub evs] by (simp add: watched_def)

lemma leaving_watched:
  "watched s (move_to_disconnected env code reason s)" "watched s (move_to_closed env s)"
  by (simp_all add: watched_def) (simp_all add: move_to_disconnected_def move_to_closed_def Let_def update_shared_state_def)

interpretation watch: actor_commands env watched "\<lambda>k r. watched" "\<lambda>ch tx. True" for env
proof
  show "watched s (flush_batch env s)" for s by (rule flush_batch_watched)
  show "watched s t" if "same_core s t" for s t using that by (simp add: watched_def same_core_def)
  show "watched s (answer_all ws v (put_sub ch sub' (announce sub evs s)))" for s ws v ch sub sub' evs
    by (rule subscribed_watched)
  show "watched s (move_to_disconnected env code reason s)" "watched s (move_to_closed env s)" for s code reason
    by (rule leaving_watched)+
qed (auto simp: watched_def track_def register_def)

declare watch.refl [simp del]

lemma takes_watched: "watch.takes cs s t \<Longrightarrow> watched s t"
  by (induction cs arbitrary: s) (auto intro: watch.trans)

lemma command_watched: "watched s (handle_command env cmd s)"
  by (rule takes_watched [OF watch.takes_command [OF attaches_any]])

lemma commands_watched: "watched s (fold (handle_command env) cmds s)"
proof (induction cmds arbitrary: s)
  case Nil
  show ?case by (simp add: watched_def)
next
  case (Cons cmd cmds)
  show ?case using watch.trans [OF command_watched Cons] by simp
qed

text \<open>A client that is connected after a sequence of commands has been so all along: it is a run.\<close>

lemma connected_run:
  assumes "reachable env config cmds\<^sub>0 s" and "a_state (fold (handle_command env) cmds s) = Connected"
  shows "reachable env config (cmds\<^sub>0 @ cmds) (fold (handle_command env) cmds s)"
  using assms
proof (induction cmds arbitrary: s cmds\<^sub>0)
  case (Cons cmd cmds)
  let ?t = "handle_command env cmd s"
  have "a_state ?t = Connected"
    using commands_watched [of ?t env cmds] Cons.prems(2) by (simp add: watched_def)
  then have "a_state s = Connected"
    using command_watched [of s env cmd] by (simp add: watched_def)
  then have "actor_step env [cmd] s ?t"
    using actor_step.connected_command [of s env "Some cmd"] by simp
  then have "reachable env config (cmds\<^sub>0 @ [cmd]) ?t" by (rule reachable.step [OF Cons.prems(1)])
  from Cons.IH [OF this] Cons.prems(2) show ?case by simp
qed simp

section \<open>The deadline\<close>

lemma on_transport_close_announced:
  assumes "di_reconnect i" and "a_connect_requested s" and "a_client_event_tx s = Some tx"
  shows "last (a_log (on_transport_close env (Some i) s)) = EmitClient tx (CE_Connecting (di_code i) (di_reason i))"
proof -
  have emit: "last (a_log (emit_client_event ev u)) = EmitClient tx ev" if "a_client_event_tx u = Some tx" for ev u
    using that by (simp add: emit_client_event_def perform_def)
  show ?thesis
    unfolding on_transport_close_def Let_def move_to_connecting_def using assms
    by (simp add: for_keys_keeps [where p = a_client_event_tx] emit update_shared_state_def)
qed

text \<open>
  C11. A server that falls silent is noticed. However many commands keep a connected client busy, they do
  not postpone the deadline: once the time of the ping interval and the configured delay has passed
  since the last data arrived, the run can go on with the timeout. That drops the connection, fails every
  pending request, and, when a connect had been asked for, goes back to connecting and tells the user
  that no ping came, with the channels suspended where they are.
\<close>

theorem silence_noticed:
  assumes "reachable env config cmds\<^sub>0 s" and "t = fold (handle_command env) cmds s" and "a_state t = Connected"
    and "env_now env (a_tick t) \<ge> a_last_data_received s + ping_timeout s"
  shows "\<exists>u. reachable env config (cmds\<^sub>0 @ cmds) u \<and> actor_step env [] t u \<and>
     a_state u = (if a_connect_requested t then Connecting else Disconnected) \<and> a_sink u = None \<and>
     hm_keys (a_pending u) = [] \<and>
     (\<forall>i req w. hm_get (a_pending t) i = Some req \<and> pending_sender req = Some w \<longrightarrow>
        Answer w (failure req ClientDisconnected) \<in> set (a_log u)) \<and>
     (a_connect_requested t \<longrightarrow>
        (\<forall>ch. hm_get (a_subs u) ch = map_option suspended_sub (hm_get (a_subs t) ch)) \<and>
        (\<forall>tx. a_client_event_tx t = Some tx \<longrightarrow> last (a_log u) = EmitClient tx (CE_Connecting NO_PING ''no ping'')))"
proof -
  let ?u = "on_transport_close env (Some no_ping_info) (step_tick t)"
  have "watched s t" unfolding assms(2) by (rule commands_watched)
  with assms(4) have "env_now env (a_tick t) \<ge> a_last_data_received t + ping_timeout t"
    by (simp add: watched_def ping_timeout_def)
  from actor_step.deadline [OF assms(3) this] have step: "actor_step env [] t ?u" by simp
  have "reachable env config (cmds\<^sub>0 @ cmds) t"
    using connected_run [OF assms(1)] assms(2,3) by simp
  from reachable.step [OF this step] have "reachable env config (cmds\<^sub>0 @ cmds) ?u" by simp
  moreover have "will_reconnect (Some no_ping_info) (step_tick t) = a_connect_requested t"
    by (simp add: will_reconnect_def no_ping_info_def)
  moreover have "Answer w (failure req ClientDisconnected) \<in> set (a_log ?u)"
    if "hm_get (a_pending t) i = Some req" "pending_sender req = Some w" for i req w
    using log_mono [OF on_transport_close_grows drop_connection_answers [of "step_tick t"]] that by simp
  moreover have "last (a_log ?u) = EmitClient tx (CE_Connecting NO_PING ''no ping'')"
    if "a_connect_requested t" "a_client_event_tx t = Some tx" for tx
    using that by (simp add: on_transport_close_announced no_ping_info_def)
  ultimately show ?thesis
    using step by (intro exI [of _ ?u] conjI) auto
qed

text \<open>A client that lists its subscriptions again and again, each time one second later.\<close>

lemma polling:
  "\<exists>l. fold (handle_command demo_env) (replicate n (ListSubscriptions r)) s = s\<lparr>a_tick := a_tick s + n, a_log := l\<rparr>"
proof (induction n arbitrary: s)
  case 0
  show ?case by (rule exI [of _ "a_log s"]) simp
next
  case (Suc n)
  let ?t = "s\<lparr>a_tick := a_tick s + 1, a_log := a_log (handle_command demo_env (ListSubscriptions r) s)\<rparr>"
  obtain l where l: "fold (handle_command demo_env) (replicate n (ListSubscriptions r)) ?t
      = ?t\<lparr>a_tick := a_tick ?t + n, a_log := l\<rparr>"
    using Suc by blast
  have "handle_command demo_env (ListSubscriptions r) s = ?t"
    by (simp add: list_subscriptions_def answer_def perform_def step_tick_def)
  then have "fold (handle_command demo_env) (replicate (Suc n) (ListSubscriptions r)) s
      = ?t\<lparr>a_tick := a_tick ?t + n, a_log := l\<rparr>"
    using l by (simp del: handle_command.simps)
  then show ?case by (intro exI [of _ l]) simp
qed

theorem silence_noticed_witness:
  "\<exists>u. reachable demo_env default_client_config (take 1 demo_commands @ replicate 34 (ListSubscriptions 5)) u \<and>
     a_state u = Connecting"
proof -
  obtain l where "fold (handle_command demo_env) (replicate 34 (ListSubscriptions 5)) demo_connected
      = demo_connected\<lparr>a_tick := a_tick demo_connected + 34, a_log := l\<rparr>"
    using polling by blast
  note busy = silence_noticed [OF demo_reachable(2) this [symmetric]]
  have "a_state demo_connected = Connected" "a_connect_requested demo_connected"
    "env_now demo_env (a_tick demo_connected + 34) \<ge> a_last_data_received demo_connected + ping_timeout demo_connected"
    by (simp_all add: demo_states ping_timeout_def from_secs_def default_client_config_def)
  with busy show ?thesis by simp blast
qed

end
