(* ===== verification/Reconnect.thy ===== *)
theory Reconnect
  imports Recovery Run
begin

text \<open>
  The end of a reconnect: the channels that the connect command asked for, and that the connect result
  brings, are subscribed at their recovered positions, and the resubscribing that follows leaves
  them alone.
\<close>

section \<open>One channel of the result\<close>

text \<open>What a subscribe result makes of a subscription.\<close>

definition accepted :: "subscribe_result \<Rightarrow> sub_state \<Rightarrow> sub_state \<Rightarrow> bool" where
  "accepted result sub sub' \<longleftrightarrow> ss_state sub' = Subscribed \<and> ss_waiters sub' = [] \<and> ss_attempts sub' = 0 \<and>
     ss_offset sub' = last_offset (sr_publications result)
       (if sr_recoverable result \<or> sr_positioned result then sr_offset result else ss_offset sub) \<and>
     ss_epoch sub' = (if sr_recoverable result \<or> sr_positioned result then sr_epoch result else ss_epoch sub)"

lemma handle_subscribe_success_accepts:
  assumes "hm_get (a_subs s) ch = Some sub"
  shows "\<exists>sub'. hm_get (a_subs (handle_subscribe_success env ch result s)) ch = Some sub' \<and> accepted result sub sub'"
  using assms
  by (simp add: handle_subscribe_success_def Let_def case_prod_beta schedule_sub_token_refresh_def accepted_def)

lemma handle_subscribe_success_other:
  "ch' \<noteq> ch \<Longrightarrow> hm_get (a_subs (handle_subscribe_success env ch result s)) ch' = hm_get (a_subs s) ch'"
  by (simp add: handle_subscribe_success_def Let_def case_prod_beta schedule_sub_token_refresh_def split: option.split)

lemma process_server_sub_other:
  "ch' \<noteq> ch \<Longrightarrow> hm_get (a_subs (process_server_sub env result ch s)) ch' = hm_get (a_subs s) ch'"
  by (simp add: process_server_sub_def Let_def handle_subscribe_success_other fold_keeps [where p = a_subs]
      split: option.split)

lemma process_server_sub_accepts:
  assumes "hm_get (cr_subs result) ch = Some r" and "hm_get (a_subs s) ch = Some sub"
  shows "\<exists>sub'. hm_get (a_subs (process_server_sub env result ch s)) ch = Some sub' \<and> accepted r sub sub'"
  using assms handle_subscribe_success_accepts [OF assms(2)]
  by (simp add: process_server_sub_def hm_keys_iff_get)

lemma process_loop_other:
  "ch \<notin> set chs \<Longrightarrow> hm_get (a_subs (fold (process_server_sub env result) chs s)) ch = hm_get (a_subs s) ch"
  by (induction chs arbitrary: s) (auto simp: process_server_sub_other)

lemma process_loop_accepts:
  assumes "distinct chs" and "ch \<in> set chs" and "hm_get (cr_subs result) ch = Some r"
    and "hm_get (a_subs s) ch = Some sub"
  shows "\<exists>sub'. hm_get (a_subs (fold (process_server_sub env result) chs s)) ch = Some sub' \<and> accepted r sub sub'"
  using assms(1,2,4)
proof (induction chs arbitrary: s)
  case (Cons c chs)
  show ?case
  proof (cases "c = ch")
    case True
    with Cons.prems process_server_sub_accepts [OF assms(3) Cons.prems(3)] show ?thesis
      by (auto simp: process_loop_other)
  next
    case False
    with Cons.prems show ?thesis
      by (auto simp: process_server_sub_other intro: Cons.IH)
  qed
qed simp

lemma remove_lost_subs [simp]: "a_subs (remove_lost_server_sub result ch s) = a_subs s"
  by (simp add: remove_lost_server_sub_def)

lemma process_server_subs_accepts:
  assumes "hm_get (cr_subs result) ch = Some r" and "hm_get (a_subs s) ch = Some sub"
  shows "\<exists>sub'. hm_get (a_subs (process_server_subs env result s)) ch = Some sub' \<and> accepted r sub sub'"
proof -
  let ?t = "step_tick s"
  let ?chs = "reorder (env_order env (a_tick ?t)) (hm_keys (cr_subs result))"
  have "distinct ?chs" "ch \<in> set ?chs"
    using assms(1) by (auto simp: hm_keys_iff_get)
  moreover have "hm_get (a_subs (step_tick ?t)) ch = Some sub" using assms(2) by simp
  ultimately have "\<exists>sub'. hm_get (a_subs (fold (process_server_sub env result) ?chs (step_tick ?t))) ch = Some sub' \<and>
      accepted r sub sub'"
    using assms(1) by (blast intro: process_loop_accepts)
  then show ?thesis
    by (simp only: process_server_subs_def Let_def for_keys_def fold_keeps [where p = a_subs, OF remove_lost_subs])
qed

section \<open>Resubscribing the rest\<close>

lemma schedule_resubscribe_subs [simp]: "a_subs (schedule_resubscribe env ch s) = a_subs s"
  by (simp add: schedule_resubscribe_def split: option.split)

lemma subscribe_token_other:
  "ch' \<noteq> ch \<Longrightarrow> hm_get (a_subs (snd (subscribe_token env ch sub s))) ch' = hm_get (a_subs s) ch'"
  by (simp add: subscribe_token_def unsubscribe_unauthorized_def split: option.split sum.split)

lemma subscribe_data_other:
  "ch' \<noteq> ch \<Longrightarrow> hm_get (a_subs (subscribe_data ch s)) ch' = hm_get (a_subs s) ch'"
  by (simp add: subscribe_data_def split: option.split sum.split)

lemma send_subscribe_subs [simp]: "a_subs (send_subscribe env ch s) = a_subs s"
  by (simp add: send_subscribe_def case_prod_beta Let_def split: option.split sum.split unit.split)

lemma do_subscribe_other:
  "ch' \<noteq> ch \<Longrightarrow> hm_get (a_subs (do_subscribe env ch s)) ch' = hm_get (a_subs s) ch'"
  by (simp add: do_subscribe_def case_prod_beta subscribe_token_other subscribe_data_other split: option.split)

lemma do_subscribe_loop:
  "ch \<notin> set chs \<Longrightarrow> hm_get (a_subs (fold (do_subscribe env) chs s)) ch = hm_get (a_subs s) ch"
  by (induction chs arbitrary: s) (auto simp: do_subscribe_other)

lemma resubscribe_all_keeps:
  assumes "hm_get (a_subs s) ch = Some sub" and "ss_state sub \<noteq> Subscribing"
  shows "hm_get (a_subs (resubscribe_all env s)) ch = Some sub"
  using assms by (simp add: resubscribe_all_def Let_def do_subscribe_loop)

text \<open>
  C13. After a successful handshake every channel of the user that the connect result brings is
  subscribed, at the position of the result moved on by the recovered publications, and whoever
  waited for it no longer does; the resubscribing of the remaining channels does not touch it.
\<close>

theorem reconnect_subscribes:
  assumes "hm_get (cr_subs result) ch = Some r" and "hm_get (a_subs s) ch = Some sub"
  shows "\<exists>sub'. hm_get (a_subs (on_handshake_success env result s)) ch = Some sub' \<and> accepted r sub sub'"
proof -
  let ?a = "move_to_connected env result s"
  have "hm_get (a_subs ?a) ch = Some sub"
    using assms(2) by (simp add: move_to_connected_def Let_def update_shared_state_def)
  from process_server_subs_accepts [OF assms(1) this, of env]
  obtain sub' where sub': "hm_get (a_subs (process_server_subs env result ?a)) ch = Some sub'" "accepted r sub sub'"
    by blast
  then have "hm_get (a_subs (schedule_token_refresh (process_server_subs env result ?a))) ch = Some sub'"
    "ss_state sub' \<noteq> Subscribing"
    by (simp_all add: schedule_token_refresh_def accepted_def)
  from resubscribe_all_keeps [OF this] sub'(2) show ?thesis
    by (simp add: on_handshake_success_def)
qed

theorem reconnect_subscribes_witness:
  "\<exists>sub'. hm_get (a_subs (on_handshake_success sample_env (default_connect_result\<lparr>cr_subs := hm_insert ''news''
       (default_subscribe_result\<lparr>sr_recoverable := True, sr_offset := 41, sr_epoch := ''e'',
        sr_publications := [default_publication\<lparr>pp_offset := 42\<rparr>]\<rparr>) hm_empty\<rparr>) demo_subscribing)) ''news'' = Some sub' \<and>
     ss_state sub' = Subscribed \<and> ss_offset sub' = 42 \<and> ss_epoch sub' = ''e''"
proof -
  let ?r = "default_subscribe_result\<lparr>sr_recoverable := True, sr_offset := 41, sr_epoch := ''e'',
        sr_publications := [default_publication\<lparr>pp_offset := 42\<rparr>]\<rparr>"
  let ?result = "default_connect_result\<lparr>cr_subs := hm_insert ''news'' ?r hm_empty\<rparr>"
  have "hm_get (cr_subs ?result) ''news'' = Some ?r" by simp
  moreover have "hm_get (a_subs demo_subscribing) ''news'' = Some (news_sub\<lparr>ss_state := Subscribing, ss_attempts := 0\<rparr>)"
    by (simp add: demo_subscribing_def)
  ultimately have "\<exists>sub'. hm_get (a_subs (on_handshake_success sample_env ?result demo_subscribing)) ''news'' = Some sub' \<and>
      accepted ?r (news_sub\<lparr>ss_state := Subscribing, ss_attempts := 0\<rparr>) sub'"
    by (rule reconnect_subscribes)
  then show ?thesis by (auto simp: accepted_def)
qed

end
