(* ===== verification/Identifiers.thy ===== *)
theory Identifiers
  imports Growth Run
begin

text \<open>
  Identifiers and timeouts of requests: what is pending carries an identifier that has been handed out,
  and whoever waits for a reply has a timer running for it.
\<close>

section \<open>The invariant\<close>

definition id_inv :: "duration \<Rightarrow> actor \<Rightarrow> bool" where
  "id_inv d s \<longleftrightarrow> cfg_timeout (a_config s) = d \<and> a_next_id s = of_nat (Suc (a_ids s)) \<and>
     (\<forall>i req. hm_get (a_pending s) i = Some req \<longrightarrow> (\<exists>n. 0 < n \<and> n \<le> a_ids s \<and> i = of_nat n) \<and>
        (\<not> is_refresh req \<or> pending_sender req \<noteq> None \<longrightarrow> Schedule d (RequestTimeout i) \<in> set (a_log s)))"

lemma id_invD:
  assumes "id_inv d s" and "hm_get (a_pending s) i = Some req"
  shows "\<exists>n. 0 < n \<and> n \<le> a_ids s \<and> i = of_nat n"
    and "\<not> is_refresh req \<or> pending_sender req \<noteq> None \<Longrightarrow> Schedule d (RequestTimeout i) \<in> set (a_log s)"
  using assms by (auto simp: id_inv_def)

text \<open>A step that keeps the table and the counters and appends to the log keeps the invariant.\<close>

lemma id_inv_mono:
  assumes "id_inv d s" and "a_pending t = a_pending s" and "a_next_id t = a_next_id s" and "a_ids t = a_ids s"
    and "cfg_timeout (a_config t) = cfg_timeout (a_config s)" and "prefix (a_log s) (a_log t)"
  shows "id_inv d t"
  using assms(1) set_mono_prefix [OF assms(6)] unfolding id_inv_def assms(2-5) by blast

lemma id_inv_remove: "id_inv d s \<Longrightarrow> id_inv d (remove_pending i s)"
  by (simp add: id_inv_def remove_pending_def)

lemma id_inv_next: "id_inv d s \<Longrightarrow> id_inv d (snd (next_cmd_id s))"
  unfolding id_inv_def using le_SucI by fastforce

text \<open>A request enters the table under the identifier handed out last; with its timeout, or as a refresh.\<close>

lemma id_inv_insert:
  assumes "id_inv d s" and "a_pending t = hm_insert (a_next_id s) req (a_pending s)"
    and "a_next_id t = a_next_id s + 1" and "a_ids t = Suc (a_ids s)"
    and "cfg_timeout (a_config t) = cfg_timeout (a_config s)" and "prefix (a_log s) (a_log t)"
    and "\<not> is_refresh req \<or> pending_sender req \<noteq> None \<Longrightarrow> Schedule d (RequestTimeout (a_next_id s)) \<in> set (a_log t)"
  shows "id_inv d t"
  unfolding id_inv_def
proof (intro conjI allI impI)
  show "cfg_timeout (a_config t) = d" "a_next_id t = word_of_nat (Suc (a_ids t))"
    using assms(1,3-5) by (simp_all add: id_inv_def)
next
  fix i req'
  assume get: "hm_get (a_pending t) i = Some req'"
  then have cases: "i = a_next_id s \<and> req' = req \<or> hm_get (a_pending s) i = Some req'"
    by (auto simp: assms(2) split: if_splits)
  have "a_next_id s = of_nat (Suc (a_ids s))" using assms(1) by (simp add: id_inv_def)
  with cases id_invD(1) [OF assms(1), of i req'] show "\<exists>n>0. n \<le> a_ids t \<and> i = word_of_nat n"
    unfolding assms(4) by (metis le_SucI order_refl zero_less_Suc)
  show "Schedule d (RequestTimeout i) \<in> set (a_log t)" if "\<not> is_refresh req' \<or> pending_sender req' \<noteq> None"
    using cases assms(7) that id_invD(2) [OF assms(1), of i req'] log_mono [OF assms(6)] by blast
qed

lemma id_inv_track: "id_inv d s \<Longrightarrow> is_refresh req \<Longrightarrow> pending_sender req = None \<Longrightarrow> id_inv d (track req s)"
  by (rule id_inv_insert [of d s _ req])
    (simp_all add: track_def insert_pending_def Let_def drop_sender_def split: option.split)

lemma id_inv_register: "id_inv d s \<Longrightarrow> id_inv d (register req s)"
  by (rule id_inv_insert [of d s _ req])
    (simp_all add: id_inv_def register_def track_def insert_pending_def Let_def drop_sender_def
      schedule_request_timeout_def schedule_def split: option.split)

lemma flush_frame:
  "a_pending (flush_batch env s) = a_pending s" "a_next_id (flush_batch env s) = a_next_id s"
  "a_ids (flush_batch env s) = a_ids s" "a_config (flush_batch env s) = a_config s"
  by (simp_all add: flush_batch_def Let_def split: option.split)

interpretation numbered: field_invariant env "id_inv d" for env d
proof
  fix s t :: actor and i :: u32 and req x
  assume "id_inv d (remove_pending i s) \<longrightarrow> id_inv d t"
  then show "id_inv d s \<longrightarrow> id_inv d (answer (pending_sender req) x t)"
    using id_inv_remove [of d s i] id_inv_mono [of d t "answer (pending_sender req) x t"]
    by (auto simp: answer_def split: option.split)
next
  show "id_inv d s \<longrightarrow> id_inv d (drop_all (ss_waiters sub) (answer (Some r) (RUnit v) (s\<lparr>a_subs := hm_remove ch (a_subs s)\<rparr>)))"
    if "hm_get (a_subs s) ch = Some sub" for s ch sub r v
    using grows.take_remove [OF that] by (auto elim!: id_inv_mono)
qed (auto simp: same_core_def id_inv_next id_inv_track id_inv_register id_inv_remove flush_frame
    drain_connect_waiters_def answer_def elim!: id_inv_mono intro: grows.send_step grows.flush_step)

declare numbered.refl [simp del]

lemma reachable_ids: "reachable env config cmds s \<Longrightarrow> id_inv (cfg_timeout config) s"
  by (erule numbered.inv_reachable) (simp add: id_inv_def new_actor_def)

section \<open>Identifiers\<close>

text \<open>
  C4. As long as fewer than \<open>2 ^ 32 - 1\<close> identifiers have been handed out, the next one is no identifier
  of a pending request and not the 0 of pushes and pings: no request takes the place of another,
  and whatever is pending has an identifier below it.
\<close>

theorem fresh_identifiers:
  assumes "reachable env config cmds s" and "a_ids s < 2 ^ 32 - 1"
  shows "a_next_id s \<noteq> 0 \<and> hm_get (a_pending s) (a_next_id s) = None \<and>
    unat (a_next_id s) = Suc (a_ids s) \<and>
    (\<forall>i req. hm_get (a_pending s) i = Some req \<longrightarrow> 0 < i \<and> i < a_next_id s)"
proof -
  have inv: "id_inv (cfg_timeout config) s" by (rule reachable_ids [OF assms(1)])
  have next_id: "unat (a_next_id s) = Suc (a_ids s)"
    using inv assms(2) by (simp only: id_inv_def unat_of_nat) simp
  have below: "0 < i \<and> i < a_next_id s" if pending: "hm_get (a_pending s) i = Some req" for i req
  proof -
    obtain n where n: "0 < n" "n \<le> a_ids s" "i = of_nat n" using id_invD(1) [OF inv pending] by blast
    then have "unat i = n" using assms(2) by (simp only: unat_of_nat) simp
    with n next_id show ?thesis by (simp add: word_less_nat_alt)
  qed
  have "hm_get (a_pending s) (a_next_id s) = None"
    using below [of "a_next_id s"] by (cases "hm_get (a_pending s) (a_next_id s)") auto
  with below next_id show ?thesis by (metis nat.distinct(1) unat_0)
qed

theorem fresh_identifiers_witness:
  "unat (a_next_id demo_subscribing) = 3 \<and> hm_get (a_pending demo_subscribing) 3 = None"
proof -
  have "a_ids demo_subscribing < 2 ^ 32 - 1" "a_ids demo_subscribing = 2" "a_next_id demo_subscribing = 3"
    by (simp_all add: demo_states)
  with fresh_identifiers [OF demo_reachable(4)] show ?thesis by simp
qed

section \<open>Timeouts\<close>

text \<open>
  C3. Whoever waits for the reply to a request has had a timeout set for exactly that request, with the
  configured duration, and handling that timeout, in whatever environment, tells the caller \<open>Timeout\<close>.
  (When the timeout is handled is another matter: it is a command in the queue of the actor, which
  must be free to take it.)
\<close>

theorem requests_have_deadlines:
  assumes "reachable env config cmds s" and "hm_get (a_pending s) i = Some req" and "pending_sender req = Some r"
  shows "Schedule (cfg_timeout config) (RequestTimeout i) \<in> set (a_log s) \<and>
    Answer r (failure req Timeout) \<in> set (a_log (handle_command env' (RequestTimeout i) s))"
proof
  show "Schedule (cfg_timeout config) (RequestTimeout i) \<in> set (a_log s)"
    using id_invD(2) [OF reachable_ids [OF assms(1)] assms(2)] assms(3) by simp
  obtain ch t where f: "fail_request req Timeout (remove_pending i s) = (ch, t)" by fastforce
  then have t: "Answer r (failure req Timeout) \<in> set (a_log t)"
    using fail_request_log [OF assms(3), of Timeout "remove_pending i s"] by simp
  then have "Answer r (failure req Timeout) \<in> set (a_log (on_transport_close env' info
      (answer_all ws x (put_sub c sub t))))" for info ws x c sub
    by (intro log_mono [OF grows.r_on_transport_close]) simp
  with t show "Answer r (failure req Timeout) \<in> set (a_log (handle_command env' (RequestTimeout i) s))"
    using assms(2) f by (simp add: handle_request_timeout_def split: option.split)
qed

theorem requests_have_deadlines_witness:
  "Schedule (from_secs 5) (RequestTimeout 2) \<in> set (a_log demo_subscribing) \<and>
   Answer 9 (RUnit (Inl Timeout)) \<in> set (a_log (handle_command demo_env (RequestTimeout 2) demo_subscribing))"
proof -
  have "hm_get (a_pending demo_subscribing) 2 = Some (PSubscribe ''news'' (Some 9))"
    by (simp add: demo_subscribing_def)
  from requests_have_deadlines [OF demo_reachable(4) this, of 9 demo_env]
  show ?thesis by (auto simp: default_client_config_def simp del: handle_command.simps)
qed

end
