(* ===== verification/Answers.thy ===== *)
theory Answers
  imports HandlerLaws Run
begin

text \<open>
  The types of the reply channels. The model puts all answers into one type; that an answer has the
  type of the channel it is sent on, which the compiler checks for the code, is an invariant here.
\<close>

definition well_typed :: "(nat \<Rightarrow> reply_kind) \<Rightarrow> actor \<Rightarrow> bool" where
  "well_typed G s \<longleftrightarrow> (\<forall>r v. Answer r v \<in> set (a_log s) \<longrightarrow> kind_of v = G r) \<and>
     (\<forall>r \<in> set (a_connect_waiters s). G r = UnitReply) \<and>
     (\<forall>ch sub. hm_get (a_subs s) ch = Some sub \<longrightarrow> (\<forall>r \<in> set (ss_waiters sub). G r = UnitReply)) \<and>
     (\<forall>i req r. hm_get (a_pending s) i = Some req \<longrightarrow> pending_sender req = Some r \<longrightarrow> G r = pending_kind req)"

lemma well_typedD:
  assumes "well_typed G s"
  shows "Answer r v \<in> set (a_log s) \<Longrightarrow> kind_of v = G r"
    and "r \<in> set (a_connect_waiters s) \<Longrightarrow> G r = UnitReply"
    and "hm_get (a_subs s) ch = Some sub \<Longrightarrow> r \<in> set (ss_waiters sub) \<Longrightarrow> G r = UnitReply"
    and "hm_get (a_pending s) i = Some req \<Longrightarrow> pending_sender req = Some r \<Longrightarrow> G r = pending_kind req"
  using assms unfolding well_typed_def by blast+

lemma typed_effect: "well_typed G s \<Longrightarrow> (\<And>r v. e = Answer r v \<Longrightarrow> kind_of v = G r) \<Longrightarrow> well_typed G (perform e s)"
  by (auto simp: well_typed_def)

lemma typed_answer: "well_typed G s \<Longrightarrow> (\<And>r. w = Some r \<Longrightarrow> kind_of v = G r) \<Longrightarrow> well_typed G (answer w v s)"
  by (auto simp: answer_def intro: typed_effect split: option.split)

lemma typed_drop: "well_typed G s \<Longrightarrow> well_typed G (drop_sender w s)"
  by (auto simp: drop_sender_def intro: typed_effect split: option.split)

lemma typed_answer_all: "well_typed G s \<Longrightarrow> \<forall>r \<in> set ws. kind_of v = G r \<Longrightarrow> well_typed G (answer_all ws v s)"
  unfolding answer_all_def by (induction ws arbitrary: s) (auto intro: typed_answer)

lemma typed_drop_all: "well_typed G s \<Longrightarrow> well_typed G (drop_all ws s)"
  unfolding drop_all_def by (induction ws arbitrary: s) (simp_all add: typed_drop)

lemma typed_put_sub:
  "well_typed G s \<Longrightarrow> \<forall>r \<in> set (ss_waiters sub). G r = UnitReply \<Longrightarrow> well_typed G (put_sub ch sub s)"
  by (auto simp: well_typed_def put_sub_def)

lemma typed_remove_sub: "well_typed G s \<Longrightarrow> well_typed G (s\<lparr>a_subs := hm_remove ch (a_subs s)\<rparr>)"
  by (auto simp: well_typed_def)

lemma typed_remove_pending: "well_typed G s \<Longrightarrow> well_typed G (remove_pending i s)"
  by (auto simp: well_typed_def remove_pending_def split: if_splits)

lemma typed_insert_pending:
  assumes "well_typed G s" and "\<And>r. pending_sender req = Some r \<Longrightarrow> G r = pending_kind req"
  shows "well_typed G (insert_pending i req s)"
proof -
  have "well_typed G (s\<lparr>a_pending := hm_insert i req (a_pending s)\<rparr>)"
    using assms by (auto simp: well_typed_def)
  then show ?thesis
    by (auto simp: insert_pending_def Let_def intro: typed_drop split: option.split)
qed

lemma typed_track: "well_typed G s \<Longrightarrow> (\<And>r. pending_sender req = Some r \<Longrightarrow> G r = pending_kind req) \<Longrightarrow>
    well_typed G (track req s)"
  unfolding track_def by (rule typed_insert_pending) (auto simp: well_typed_def)

lemma typed_register: "well_typed G s \<Longrightarrow> (\<And>r. pending_sender req = Some r \<Longrightarrow> G r = pending_kind req) \<Longrightarrow>
    well_typed G (register req s)"
  by (auto simp: register_def schedule_request_timeout_def schedule_def intro!: typed_effect typed_track)

interpretation typing: actor_fields env "\<lambda>s t. well_typed G s \<longrightarrow> well_typed G t"
  "\<lambda>k r s t. G r = k \<longrightarrow> well_typed G s \<longrightarrow> well_typed G t" for env G
proof
  show "well_typed G s \<longrightarrow> well_typed G (snd (send_command env cmd s))" for s cmd
    by (auto simp: well_typed_def send_command_def sink_send_def perform_def step_tick_def
        split: sum.split option.split)
  show "well_typed G s \<longrightarrow> well_typed G (flush_batch env s)" for s
    by (auto simp: well_typed_def flush_batch_def sink_send_def perform_def step_tick_def Let_def
        split: option.split)
  show "well_typed G s \<longrightarrow> well_typed G (drain_connect_waiters (RUnit v) s)" for s v
    using well_typedD(2) [of G s]
    by (auto simp: drain_connect_waiters_def intro!: typed_answer_all) (auto simp: well_typed_def)
next
  fix s t :: actor and i :: u32 and req x
  assume "hm_get (a_pending s) i = Some req" "kind_of x = pending_kind req"
    "well_typed G (remove_pending i s) \<longrightarrow> well_typed G t"
  then show "well_typed G s \<longrightarrow> well_typed G (answer (pending_sender req) x t)"
    using well_typedD(4) [of G s i req] by (auto intro!: typed_answer typed_remove_pending)
next
  fix s :: actor and ch and sub sub' :: sub_state and v
  assume sub: "hm_get (a_subs s) ch = Some sub"
  show "well_typed G s \<longrightarrow> well_typed G (put_sub ch sub' s)" if "ss_waiters sub' = ss_waiters sub"
    using sub that by (auto intro!: typed_put_sub dest: well_typedD(3))
  show "well_typed G s \<longrightarrow> well_typed G (answer_all (ss_waiters sub) (RUnit v) (put_sub ch sub' s))"
    if "ss_waiters sub' = []"
    using sub that by (auto intro!: typed_answer_all typed_put_sub dest: well_typedD(3))
  show "well_typed G s \<longrightarrow> well_typed G (answer_all (ss_waiters sub) (RUnit v) (s\<lparr>a_subs := hm_remove ch (a_subs s)\<rparr>))"
    using sub by (auto intro!: typed_answer_all typed_remove_sub dest: well_typedD(3))
  show "G r = UnitReply \<longrightarrow> well_typed G s \<longrightarrow> well_typed G (put_sub ch sub' s)"
    if "ss_waiters sub' = ss_waiters sub @ [r]" for r
    using sub that by (auto intro!: typed_put_sub dest: well_typedD(3))
qed (auto simp: same_core_def typed_effect typed_remove_pending typed_remove_sub
    intro!: typed_put_sub typed_register typed_track typed_answer typed_drop_all,
    auto simp: well_typed_def)

declare typing.refl [simp del]

lemma takes_typing:
  "typing.takes G cs s t \<Longrightarrow> \<forall>(k, r) \<in> set cs. G r = k \<Longrightarrow> well_typed G s \<Longrightarrow> well_typed G t"
  by (induction cs arbitrary: s) auto

lemma reachable_typing:
  "reachable env config cmds s \<Longrightarrow> \<forall>(k, r) \<in> set (channels_of cmds). G r = k \<Longrightarrow> well_typed G s"
proof (induction rule: reachable.induct)
  case start
  then show ?case by (simp add: well_typed_def new_actor_def)
next
  case (step cmds s cmds' t)
  then show ?case using takes_typing [OF typing.takes_step [OF step.hyps(2) attaches_any]] by auto
qed

text \<open>
  A check of the model. Rust types the reply channels; the model has one type of answers for all of
  them. In a run whose commands give each channel \<open>r\<close> the type \<open>G r\<close>, what the model answers on \<open>r\<close> is a
  value of that type, and a pending request waits for a reply of the request's type.
\<close>

lemma answers_well_typed:
  assumes "reachable env config cmds s" and "\<forall>(k, r) \<in> set (channels_of cmds). G r = k"
  shows "Answer r v \<in> set (a_log s) \<Longrightarrow> kind_of v = G r"
    and "hm_get (a_pending s) i = Some req \<Longrightarrow> pending_sender req = Some r \<Longrightarrow> pending_kind req = G r"
  using well_typedD(1,4) [OF reachable_typing [OF assms]] by metis+

end
