(* ===== verification/Events.thy ===== *)
theory Events
  imports HandlerLaws Run Transitions
begin

text \<open>
  What the user of the client sees of its state. The abstract client is the sequence of states that the
  connecting, connected and disconnected events tell; the actor refines it: the last event is the
  state, in every run, once an event channel is set. Closing is not told.
\<close>

section \<open>The states told\<close>

fun tells :: "effect \<Rightarrow> client_state option" where
  "tells (EmitClient tx (CE_Connecting code reason)) = Some Connecting"
| "tells (EmitClient tx (CE_Connected ctx)) = Some Connected"
| "tells (EmitClient tx (CE_Disconnected code reason)) = Some Disconnected"
| "tells _ = None"

definition told :: "actor \<Rightarrow> client_state list" where
  "told s = List.map_filter tells (a_log s)"

lemma told_perform [simp]: "told (perform e s) = told s @ (case tells e of Some st \<Rightarrow> [st] | None \<Rightarrow> [])"
  by (simp add: told_def List.map_filter_def split: option.split)

lemma told_log: "a_log t = a_log s \<Longrightarrow> told t = told s"
  by (simp add: told_def)

lemma silent_tells: "silent e \<Longrightarrow> tells e = None"
  by (cases e rule: tells.cases) simp_all

lemma told_answer [simp]: "told (answer w v s) = told s" "told (drop_sender w s) = told s"
  by (simp_all add: answer_def drop_sender_def split: option.split)

lemma told_fold: "(\<And>w s. told (f w s) = told s) \<Longrightarrow> told (fold f ws s) = told s"
  by (induction ws arbitrary: s) simp_all

lemma told_all [simp]: "told (answer_all ws v s) = told s" "told (drop_all ws s) = told s"
  by (simp_all add: answer_all_def drop_all_def told_fold)

lemma told_fields [simp]:
  "told (step_tick s) = told s" "told (put_sub ch sub s) = told s" "told (remove_pending i s) = told s"
  "told (s\<lparr>a_subs := m\<rparr>) = told s" "told (s\<lparr>a_connect_waiters := ws\<rparr>) = told s"
  "told (s\<lparr>a_client_event_tx := tx\<rparr>) = told s" "told (s\<lparr>a_batch_queue := q\<rparr>) = told s"
  "told (s\<lparr>a_batch_active := b\<rparr>) = told s"
  "told (snd (next_cmd_id s)) = told s" "told (s\<lparr>a_pending := p\<rparr>) = told s"
  by (simp_all add: told_def)

lemma told_insert_pending [simp]: "told (insert_pending i req s) = told s"
  by (simp add: insert_pending_def Let_def split: option.split)

lemma told_timeout [simp]: "told (schedule_request_timeout i s) = told s"
  by (simp add: schedule_request_timeout_def schedule_def)

lemma told_sub_emit [simp]: "told (sub_emit sub ev s) = told s"
  by (simp add: sub_emit_def split: option.split)

lemma announce_fields [simp]:
  "told (announce sub evs s) = told s" "a_state (announce sub evs s) = a_state s"
  "a_client_event_tx (announce sub evs s) = a_client_event_tx s" "a_subs (announce sub evs s) = a_subs s"
  by (simp_all add: announce_def told_fold fold_keeps [where p = a_state] fold_keeps [where p = a_subs] fold_keeps [where p = a_client_event_tx])

lemma told_register [simp]: "told (track req s) = told s" "told (register req s) = told s"
  by (simp_all add: track_def register_def)

lemma told_send [simp]: "told (snd (send_command env cmd s)) = told s" "told (flush_batch env s) = told s"
  by (simp_all add: send_command_def flush_batch_def sink_send_def Let_def split: sum.split option.split)

section \<open>Steps that tell nothing\<close>

definition quiet :: "actor \<Rightarrow> actor \<Rightarrow> bool" where
  "quiet s t \<longleftrightarrow> a_state t = a_state s \<and> told t = told s \<and> (a_client_event_tx s \<noteq> None \<longrightarrow> a_client_event_tx t \<noteq> None)"

interpretation quiet: actor_steps env quiet "\<lambda>k r. quiet" "\<lambda>ch tx. True" for env
proof
  show "quiet s t" if "same_core s t" for s t
    using that told_log [of t s] by (simp add: quiet_def same_core_def)
  show "quiet s (flush_batch env s)" for s
    by (simp add: quiet_def) (simp add: flush_batch_def Let_def split: option.split)
qed (auto simp: quiet_def silent_tells drain_connect_waiters_def track_def register_def)

declare quiet.refl [simp del]

lemma quiet_put: "quiet s (put_sub ch sub s)"
  by (simp add: quiet_def)

section \<open>The abstract client\<close>

text \<open>
  Whoever has seen the state before the step and follows the events knows it after the step, unless
  the client has been closed.
\<close>

definition follows :: "actor \<Rightarrow> actor \<Rightarrow> bool" where
  "follows s t \<longleftrightarrow> (a_client_event_tx s \<noteq> None \<longrightarrow> a_client_event_tx t \<noteq> None \<and>
     (\<exists>sts. told t = told s @ sts \<and>
       (\<forall>view. a_state s \<in> {Closed, view} \<longrightarrow> a_state t \<in> {Closed, last (view # sts)})))"

lemma quiet_follows: "quiet s t \<Longrightarrow> follows s t"
  by (auto simp: quiet_def follows_def)

lemma follows_trans:
  assumes "follows s t" and "follows t u"
  shows "follows s u"
proof (cases "a_client_event_tx s = None")
  case False
  then obtain sts where t: "a_client_event_tx t \<noteq> None" "told t = told s @ sts"
    "\<forall>view. a_state s \<in> {Closed, view} \<longrightarrow> a_state t \<in> {Closed, last (view # sts)}"
    using assms(1) by (auto simp: follows_def)
  then obtain sts' where u: "a_client_event_tx u \<noteq> None" "told u = told t @ sts'"
    "\<forall>view. a_state t \<in> {Closed, view} \<longrightarrow> a_state u \<in> {Closed, last (view # sts')}"
    using assms(2) by (auto simp: follows_def)
  have "last (view # sts @ sts') = last (last (view # sts) # sts')" for view
    by (cases sts') simp_all
  with t u show ?thesis
    unfolding follows_def by (intro impI conjI exI [of _ "sts @ sts'"]) (simp_all, metis)
qed (simp add: follows_def)

lemma follows_told:
  assumes "quiet u v" and "told u = told s" and "a_client_event_tx u = a_client_event_tx s"
    and "\<And>tx. tells (EmitClient tx ev) = Some (a_state u)"
  shows "follows s (emit_client_event ev v)"
  using assms by (auto simp: follows_def quiet_def emit_client_event_def)

interpretation mirror: actor_relation env follows "\<lambda>k r. follows" "\<lambda>ch tx. True" for env
proof
  show "follows s (s\<lparr>a_last_data_received := d\<rparr>)" for s d
    by (rule quiet_follows) (simp add: quiet_def told_def)
  show "follows s (move_to_connecting code reason s)" for s code reason
    unfolding move_to_connecting_def
    by (rule follows_told [OF quiet.refl]) (simp_all add: update_shared_state_def told_def)
  show "follows s (move_to_connected env result s)" for s result
    unfolding move_to_connected_def Let_def
    by (rule follows_told [OF quiet.refl]) (simp_all add: update_shared_state_def told_def)
  show "follows s (move_to_disconnected env code reason s)" for s code reason
  proof -
    let ?u = "(update_shared_state (s\<lparr>a_state := Disconnected\<rparr>))\<lparr>a_client_id := [], a_connect_requested := False\<rparr>"
    let ?c = "drain_connect_waiters (RUnit (Inl ClientDisconnected)) (drop_connection env ?u)"
    have "quiet ?u ?c" by (rule quiet.trans [OF quiet.r_drop_connection quiet.settle_connect])
    then have "quiet ?u (if a_state s = Connected
        then unsubscribe_all_subs env ClientDisconnected CLIENT_CLOSED reason ?c else ?c)"
      using quiet.trans [OF _ quiet.r_unsubscribe_all] by simp
    then have "quiet ?u (drain_server_subs env code reason (if a_state s = Connected
        then unsubscribe_all_subs env ClientDisconnected CLIENT_CLOSED reason ?c else ?c))"
      by (rule quiet.trans) (rule quiet.r_drain_server_subs)
    then show ?thesis
      unfolding move_to_disconnected_def Let_def
      by (rule follows_told) (simp_all add: update_shared_state_def told_def)
  qed
  show "follows s (move_to_closed env s)" for s
  proof -
    let ?u = "update_shared_state (s\<lparr>a_state := Closed\<rparr>)"
    have "quiet ?u (move_to_closed env s)"
      unfolding move_to_closed_def Let_def
      by (intro quiet.trans [OF _ quiet.r_unsubscribe_all] quiet.trans [OF _ quiet.settle_connect]
          quiet.r_drop_connection)
    then show ?thesis
      by (auto simp: quiet_def follows_def update_shared_state_def told_def)
  qed
next
  fix s t :: actor and i req x
  assume "hm_get (a_pending s) i = Some req" "follows (remove_pending i s) t"
  moreover have "quiet s (remove_pending i s)" "quiet t (answer (pending_sender req) x t)"
    by (simp_all add: quiet_def)
  ultimately show "follows s (answer (pending_sender req) x t)"
    by (blast intro: follows_trans quiet_follows)
qed (auto intro: follows_trans quiet_follows quiet.core quiet.silent_effect quiet.event_channel quiet.send_step
    quiet.flush_step quiet.discard_batch quiet.new_id quiet.track_internal quiet.register_internal
    quiet.drop_internal quiet.new_sub quiet.settle_connect
    quiet.keep_sub quiet.tell_sub quiet.settle_keep quiet.settle_tell quiet.subscribed quiet.remove_tell quiet.attach_sub
    quiet.take_answer quiet.take_connect quiet_put quiet.take_pending quiet.take_remove)

declare mirror.refl [simp del]

lemma takes_mirror: "mirror.takes cs s t \<Longrightarrow> follows s t"
  by (induction cs arbitrary: s) (auto intro: follows_trans)

text \<open>
  C5. The user who follows the events knows the state: in every run from a state with an event
  channel, the events told are a sequence of states that ends in the state of the actor, or the
  client has been closed.
\<close>

theorem events_tell_state:
  assumes "rtranclp (\<lambda>s t. \<exists>cmds. actor_step env cmds s t) s t" and "a_client_event_tx s \<noteq> None"
  shows "\<exists>sts. told t = told s @ sts \<and> (a_state t = Closed \<or> a_state t = last (a_state s # sts))"
proof -
  have "follows s t"
    using assms(1)
  proof induction
    case base
    show ?case by (rule quiet_follows) (simp add: quiet_def)
  next
    case (step t u)
    then show ?case using takes_mirror [OF mirror.takes_step [OF _ attaches_any]] by (blast intro: follows_trans)
  qed
  with assms(2) show ?thesis unfolding follows_def by blast
qed

text \<open>A connected client with an event channel, disconnected by its user.\<close>

theorem events_tell_state_witness:
  "told (handle_command demo_env (Disconnect 8) (demo_connected\<lparr>a_client_event_tx := Some 3\<rparr>)) \<noteq> [] \<and>
   last (told (handle_command demo_env (Disconnect 8) (demo_connected\<lparr>a_client_event_tx := Some 3\<rparr>))) = Disconnected"
proof -
  let ?s = "demo_connected\<lparr>a_client_event_tx := Some 3\<rparr>"
  let ?t = "handle_command demo_env (Disconnect 8) ?s"
  have s: "a_state ?s = Connected" "told ?s = []" by (simp_all add: demo_states told_def List.map_filter_def)
  have "actor_step demo_env [Disconnect 8] ?s ?t"
    using actor_step.connected_command [OF s(1), of demo_env "Some (Disconnect 8)"] by simp
  then have "rtranclp (\<lambda>s t. \<exists>cmds. actor_step demo_env cmds s t) ?s ?t" by blast
  from events_tell_state [OF this] obtain sts where sts: "told ?t = told ?s @ sts"
    "a_state ?t = Closed \<or> a_state ?t = last (a_state ?s # sts)" by auto
  moreover have "a_state ?t = Disconnected" by simp
  ultimately show ?thesis using s by (cases sts) (simp_all del: handle_command.simps)
qed

end
