(* ===== verification/SubEvents.thy ===== *)
theory SubEvents
  imports Events Growth
begin

text \<open>
  What the user of a subscription sees of its state. An event channel \<open>tx\<close> belongs to one channel; as
  long as the subscription of that channel tells its events on \<open>tx\<close>, the last state told is its state.
\<close>

section \<open>The states told on an event channel\<close>

fun sub_told_effect :: "nat \<Rightarrow> effect \<Rightarrow> subscription_state option" where
  "sub_told_effect tx (EmitSub tx' ev) = (if tx' = tx then sub_tells ev else None)"
| "sub_told_effect tx _ = None"

definition sub_told :: "nat \<Rightarrow> actor \<Rightarrow> subscription_state list" where
  "sub_told tx s = List.map_filter (sub_told_effect tx) (a_log s)"

text \<open>Whoever tells events on \<open>tx\<close> is the subscription of \<open>ch\<close>, in state \<open>v\<close>.\<close>

definition sub_view :: "string \<Rightarrow> nat \<Rightarrow> subscription_state \<Rightarrow> actor \<Rightarrow> bool" where
  "sub_view ch tx v s \<longleftrightarrow> (\<forall>ch' sub. hm_get (a_subs s) ch' = Some sub \<longrightarrow> ss_event_tx sub = Some tx \<longrightarrow>
     ch' = ch \<and> ss_state sub = v)"

definition sub_follows :: "string \<Rightarrow> nat \<Rightarrow> actor \<Rightarrow> actor \<Rightarrow> bool" where
  "sub_follows ch tx s t \<longleftrightarrow> (\<exists>sts. sub_told tx t = sub_told tx s @ sts \<and>
     (\<forall>v. sub_view ch tx v s \<longrightarrow> sub_view ch tx (last (v # sts)) t))"

lemma sub_told_log [simp]:
  "sub_told tx (perform e s) = sub_told tx s @ (case sub_told_effect tx e of Some st \<Rightarrow> [st] | None \<Rightarrow> [])"
  by (simp add: sub_told_def List.map_filter_def split: option.split)

lemma sub_told_same: "a_log t = a_log s \<Longrightarrow> sub_told tx t = sub_told tx s"
  by (simp add: sub_told_def)

lemma sub_view_same: "a_subs t = a_subs s \<Longrightarrow> sub_view ch tx v t = sub_view ch tx v s"
  by (simp add: sub_view_def)

lemma sub_told_fields [simp]:
  "sub_told tx (step_tick s) = sub_told tx s" "sub_told tx (put_sub ch sub s) = sub_told tx s"
  "sub_told tx (remove_pending i s) = sub_told tx s" "sub_told tx (s\<lparr>a_subs := m\<rparr>) = sub_told tx s"
  "sub_told tx (s\<lparr>a_connect_waiters := ws\<rparr>) = sub_told tx s"
  "sub_told tx (s\<lparr>a_client_event_tx := c\<rparr>) = sub_told tx s" "sub_told tx (s\<lparr>a_batch_queue := q\<rparr>) = sub_told tx s"
  "sub_told tx (s\<lparr>a_batch_active := b\<rparr>) = sub_told tx s" "sub_told tx (snd (next_cmd_id s)) = sub_told tx s"
  "sub_told tx (s\<lparr>a_pending := p\<rparr>) = sub_told tx s"
  "sub_told tx (s\<lparr>a_state := st, a_shared_state := n\<rparr>) = sub_told tx s"
  by (simp_all add: sub_told_def)

lemma sub_told_answer [simp]: "sub_told tx (answer w v s) = sub_told tx s" "sub_told tx (drop_sender w s) = sub_told tx s"
  by (simp_all add: answer_def drop_sender_def split: option.split)

lemma sub_told_fold: "(\<And>w s. sub_told tx (f w s) = sub_told tx s) \<Longrightarrow> sub_told tx (fold f ws s) = sub_told tx s"
  by (induction ws arbitrary: s) simp_all

lemma sub_told_all [simp]: "sub_told tx (answer_all ws v s) = sub_told tx s" "sub_told tx (drop_all ws s) = sub_told tx s"
  by (simp_all add: answer_all_def drop_all_def sub_told_fold)

lemma sub_told_requests [simp]:
  "sub_told tx (insert_pending i req s) = sub_told tx s" "sub_told tx (track req s) = sub_told tx s"
  "sub_told tx (register req s) = sub_told tx s"
  "sub_told tx (snd (send_command env cmd s)) = sub_told tx s" "sub_told tx (flush_batch env s) = sub_told tx s"
  by (simp_all add: insert_pending_def track_def register_def schedule_request_timeout_def schedule_def
      send_command_def flush_batch_def sink_send_def Let_def split: option.split sum.split)

lemma sub_told_emit:
  "sub_told tx (sub_emit sub ev s) = sub_told tx s @
     (if ss_event_tx sub = Some tx then (case sub_tells ev of Some st \<Rightarrow> [st] | None \<Rightarrow> []) else [])"
  by (simp add: sub_emit_def split: option.split)

lemma sub_told_announce:
  "sub_told tx (announce sub (SE_Subscribed ctx # map SE_Publication pubs) s) = sub_told tx s @
     (if ss_event_tx sub = Some tx then [Subscribed] else [])"
proof -
  have "sub_told tx (announce sub (map SE_Publication pubs) s) = sub_told tx s" for s
    unfolding announce_def by (induction pubs arbitrary: s) (simp_all add: sub_told_emit)
  then show ?thesis by (simp add: announce_def sub_told_emit)
qed

section \<open>Steps\<close>

lemma sub_follows_same: "sub_told tx t = sub_told tx s \<Longrightarrow> a_subs t = a_subs s \<Longrightarrow> sub_follows ch tx s t"
  by (auto simp: sub_follows_def sub_view_def)

lemma sub_follows_trans:
  assumes "sub_follows ch tx s t" and "sub_follows ch tx t u"
  shows "sub_follows ch tx s u"
proof -
  obtain sts where t: "sub_told tx t = sub_told tx s @ sts"
    "\<forall>v. sub_view ch tx v s \<longrightarrow> sub_view ch tx (last (v # sts)) t"
    using assms(1) by (auto simp: sub_follows_def)
  obtain sts' where u: "sub_told tx u = sub_told tx t @ sts'"
    "\<forall>v. sub_view ch tx v t \<longrightarrow> sub_view ch tx (last (v # sts')) u"
    using assms(2) by (auto simp: sub_follows_def)
  have "last (v # sts @ sts') = last (last (v # sts) # sts')" for v
    by (cases sts') simp_all
  with t u show ?thesis
    unfolding sub_follows_def by (intro exI [of _ "sts @ sts'"]) simp
qed

text \<open>A subscription keeps its event channel and changes its state, which it tells if it changes it.\<close>

lemma sub_follows_put:
  assumes "hm_get (a_subs s) ch' = Some sub" and "ss_event_tx sub' = ss_event_tx sub"
    and "a_subs t = hm_insert ch' sub' (a_subs s)"
    and "sub_told tx t = sub_told tx s @ (if ss_event_tx sub = Some tx then sts else [])"
    and "sts = [ss_state sub'] \<or> sts = [] \<and> ss_state sub' = ss_state sub"
  shows "sub_follows ch tx s t"
  using assms unfolding sub_follows_def
  by (intro exI [of _ "if ss_event_tx sub = Some tx then sts else []"])
    (auto simp: sub_view_def split: if_splits)

lemma sub_follows_remove:
  assumes "hm_get (a_subs s) ch' = Some sub" and "a_subs t = hm_remove ch' (a_subs s)"
    and "sub_told tx t = sub_told tx s @ (if ss_event_tx sub = Some tx then sts else [])"
  shows "sub_follows ch tx s t"
  using assms unfolding sub_follows_def
  by (intro exI [of _ "if ss_event_tx sub = Some tx then sts else []"])
    (auto simp: sub_view_def split: if_splits)

lemma sub_follows_keep:
  "hm_get (a_subs s) c = Some sub \<Longrightarrow> ss_state sub' = ss_state sub \<Longrightarrow> ss_event_tx sub' = ss_event_tx sub \<Longrightarrow>
   sub_follows ch tx s (put_sub c sub' s)"
  by (rule sub_follows_put [of s c sub sub', where sts = "[]"]) (simp_all add: put_sub_def)

lemma sub_follows_register: "sub_follows ch tx s (register req s)"
  by (rule sub_follows_same) (simp, simp add: register_def track_def)

interpretation sub_mirror: actor_states env "sub_follows ch tx" "\<lambda>k r. sub_follows ch tx" "\<lambda>ch' tx'. tx' \<noteq> tx"
  for env ch tx
proof
  fix s t u :: actor
  show "sub_follows ch tx s t" if "same_core s t"
    using that sub_told_same [of t s tx] by (intro sub_follows_same) (simp_all add: same_core_def)
  show "sub_follows ch tx s u" if "sub_follows ch tx s t" "sub_follows ch tx t u"
    using that by (rule sub_follows_trans)
  show "sub_follows ch tx s (perform e s)" if "silent e" for e
    using that by (intro sub_follows_same) (cases e; simp)+
  show "sub_follows ch tx s (s\<lparr>a_ping_interval := p, a_last_data_received := d\<rparr>)" for p d
    by (rule sub_follows_same) (simp_all add: sub_told_def)
  show "sub_follows ch tx s (flush_batch env s)"
    by (rule sub_follows_same) (simp_all, simp add: flush_batch_def Let_def split: option.split)
  show "sub_follows ch tx s (drain_connect_waiters (RUnit v) s)" for v
    by (rule sub_follows_same) (simp_all add: drain_connect_waiters_def)
next
  fix s t :: actor and i req x
  assume "hm_get (a_pending s) i = Some req" "sub_follows ch tx (remove_pending i s) t"
  moreover have "sub_follows ch tx s (remove_pending i s)" "sub_follows ch tx t (answer (pending_sender req) x t)"
    by (rule sub_follows_same, simp, simp)+
  ultimately show "sub_follows ch tx s (answer (pending_sender req) x t)"
    by (blast intro: sub_follows_trans)
next
  fix s :: actor and c v ctx pubs and sub sub' :: sub_state and ev
  assume sub: "hm_get (a_subs s) c = Some sub"
  show "sub_follows ch tx s (put_sub c (sub\<lparr>ss_event_tx := Some tx'\<rparr>) s)" if "tx' \<noteq> tx" for tx'
    using sub that unfolding sub_follows_def
    by (intro exI [of _ "[]"]) (auto simp: sub_view_def put_sub_def split: if_splits)
  assume tx: "ss_event_tx sub' = ss_event_tx sub"
  show "sub_follows ch tx s (put_sub c sub' s)" if "ss_state sub' = ss_state sub"
    by (rule sub_follows_put [OF sub tx, where sts = "[]"]) (simp_all add: put_sub_def that)
  show "sub_follows ch tx s (answer_all (ss_waiters sub) (RUnit v) (put_sub c sub' s))" if "ss_state sub' = ss_state sub"
    by (rule sub_follows_put [OF sub tx, where sts = "[]"]) (simp_all add: put_sub_def that)
  show "sub_follows ch tx s (sub_emit sub ev (put_sub c sub' s))" if "sub_tells ev = Some (ss_state sub')"
    by (rule sub_follows_put [OF sub tx, where sts = "[ss_state sub']"]) (simp_all add: put_sub_def sub_told_emit that)
  show "sub_follows ch tx s (sub_emit sub ev (answer_all (ss_waiters sub) (RUnit v) (put_sub c sub' s)))"
    if "sub_tells ev = Some (ss_state sub')"
    by (rule sub_follows_put [OF sub tx, where sts = "[ss_state sub']"]) (simp_all add: put_sub_def sub_told_emit that)
  show "sub_follows ch tx s (answer_all (ss_waiters sub) (RUnit v)
      (put_sub c sub' (announce sub (SE_Subscribed ctx # map SE_Publication pubs) s)))" if "ss_state sub' = Subscribed"
    by (rule sub_follows_put [OF sub tx, where sts = "[Subscribed]"])
      (simp_all add: put_sub_def sub_told_announce that)
next
  fix s :: actor and c v and sub :: sub_state and ev r
  assume sub: "hm_get (a_subs s) c = Some sub"
  show "sub_follows ch tx s (sub_emit sub ev (answer_all (ss_waiters sub) (RUnit v) (s\<lparr>a_subs := hm_remove c (a_subs s)\<rparr>)))"
    if "sub_tells ev = Some Unsubscribed"
    by (rule sub_follows_remove [OF sub, where sts = "[Unsubscribed]"]) (simp_all add: sub_told_emit that)
  show "sub_follows ch tx s (drop_all (ss_waiters sub) (answer (Some r) (RUnit v) (s\<lparr>a_subs := hm_remove c (a_subs s)\<rparr>)))"
    by (rule sub_follows_remove [OF sub, where sts = "[]"]) simp_all
next
  fix s :: actor and c and sub :: sub_state
  assume "hm_get (a_subs s) c = None" "ss_event_tx sub = None"
  then show "sub_follows ch tx s (put_sub c sub s)"
    unfolding sub_follows_def
    by (intro exI [of _ "[]"]) (auto simp: sub_view_def put_sub_def split: if_splits)
qed ((assumption | erule sub_follows_trans | rule sub_follows_register | erule sub_follows_keep
    | (rule sub_follows_same; simp add: track_def))+)

declare sub_mirror.refl [simp del]

lemma takes_sub_mirror: "sub_mirror.takes ch tx cs s t \<Longrightarrow> sub_follows ch tx s t"
  by (induction cs arbitrary: s) (auto intro: sub_follows_trans)

text \<open>
  C6. The user who follows the events of a subscription knows its state: in every run from a state in
  which \<open>tx\<close> is the event channel of the subscription of \<open>ch\<close> only, and in which \<open>tx\<close> is not handed over
  again, the states told on \<open>tx\<close> end in the state of the subscription as long as \<open>tx\<close> is its event channel.
\<close>

theorem sub_events_tell_state:
  assumes "rtranclp (\<lambda>s t. \<exists>cmds. actor_step env cmds s t \<and> attaches (\<lambda>c x. x \<noteq> tx) cmds) s t"
    and "hm_get (a_subs s) ch = Some sub"
    and "\<And>c sub'. hm_get (a_subs s) c = Some sub' \<Longrightarrow> ss_event_tx sub' = Some tx \<Longrightarrow> c = ch"
    and "hm_get (a_subs t) ch = Some sub'" and "ss_event_tx sub' = Some tx"
  shows "\<exists>sts. sub_told tx t = sub_told tx s @ sts \<and> ss_state sub' = last (ss_state sub # sts)"
proof -
  have "sub_follows ch tx s t"
    using assms(1)
  proof induction
    case base
    show ?case by (rule sub_follows_same) simp_all
  next
    case (step t u)
    then show ?case using takes_sub_mirror [OF sub_mirror.takes_step] by (blast intro: sub_follows_trans)
  qed
  then obtain sts where sts: "sub_told tx t = sub_told tx s @ sts"
    "\<forall>v. sub_view ch tx v s \<longrightarrow> sub_view ch tx (last (v # sts)) t"
    unfolding sub_follows_def by blast
  have "sub_view ch tx (ss_state sub) s"
    using assms(2,3) unfolding sub_view_def by auto
  with sts(2) have "sub_view ch tx (last (ss_state sub # sts)) t" by blast
  with assms(4,5) sts(1) show ?thesis unfolding sub_view_def by blast
qed

theorem sub_events_tell_state_witness:
  "last (sub_told 5 (handle_command demo_env (Subscribe ''news'' 9) (demo_registered\<lparr>a_subs :=
     hm_insert ''news'' (news_sub\<lparr>ss_event_tx := Some 5\<rparr>) hm_empty\<rparr>))) = Subscribing"
proof -
  let ?sub = "news_sub\<lparr>ss_event_tx := Some 5\<rparr>"
  let ?s = "demo_registered\<lparr>a_subs := hm_insert ''news'' ?sub hm_empty\<rparr>"
  let ?t = "handle_command demo_env (Subscribe ''news'' 9) ?s"
  have s: "a_state ?s = Connected" "sub_told 5 ?s = []" "hm_get (a_subs ?s) ''news'' = Some ?sub"
    by (simp_all add: demo_states sub_told_def List.map_filter_def)
  have "actor_step demo_env [Subscribe ''news'' 9] ?s ?t"
    using actor_step.connected_command [OF s(1), of demo_env "Some (Subscribe ''news'' 9)"] by simp
  then have "\<exists>cmds. actor_step demo_env cmds ?s ?t \<and> attaches (\<lambda>c x. x \<noteq> 5) cmds"
    by (intro exI [of _ "[Subscribe ''news'' 9]"]) (simp add: attaches_def)
  then have run: "rtranclp (\<lambda>s t. \<exists>cmds. actor_step demo_env cmds s t \<and> attaches (\<lambda>c x. x \<noteq> 5) cmds) ?s ?t"
    by blast
  have t: "hm_get (a_subs ?t) ''news'' = Some (?sub\<lparr>ss_state := Subscribing, ss_attempts := 0\<rparr>)"
    by (simp add: handle_subscribe_def Let_def case_prod_beta s(1) build_subscribe_command_def
        split: sum.split unit.split)
  have "c = ''news''" if "hm_get (a_subs ?s) c = Some sub'" for c sub'
    using that by (simp split: if_splits)
  from sub_events_tell_state [OF run s(3) this t] s(2) obtain sts
    where "sub_told 5 ?t = sts" "Subscribing = last (Unsubscribed # sts)" by auto
  then show ?thesis by (cases sts) simp_all
qed

end
