(* ===== verification/Waiters.thy ===== *)
theory Waiters
  imports Growth Run
begin

text \<open>
  The waiters of a subscription: they are told the moment it becomes subscribed, nobody joins them
  while it is, and nobody leaves them without being told.
\<close>

definition no_late_waiters :: "actor \<Rightarrow> bool" where
  "no_late_waiters s \<longleftrightarrow>
     (\<forall>ch sub. hm_get (a_subs s) ch = Some sub \<longrightarrow> ss_state sub = Subscribed \<longrightarrow> ss_waiters sub = [])"

lemma no_late_waiters_frame [simp]:
  "no_late_waiters (perform e s) = no_late_waiters s" "no_late_waiters (answer w v s) = no_late_waiters s"
  "no_late_waiters (answer_all ws v s) = no_late_waiters s" "no_late_waiters (drop_all ws s) = no_late_waiters s"
  "no_late_waiters (insert_pending i req s) = no_late_waiters s"
  "no_late_waiters (track req s) = no_late_waiters s" "no_late_waiters (register req s) = no_late_waiters s"
  "no_late_waiters (snd (next_cmd_id s)) = no_late_waiters s"
  "no_late_waiters (s\<lparr>a_client_event_tx := tx\<rparr>) = no_late_waiters s"
  "no_late_waiters (remove_pending i s) = no_late_waiters s"
  "no_late_waiters (drain_connect_waiters v s) = no_late_waiters s"
  "no_late_waiters (snd (send_command env cmd s)) = no_late_waiters s"
  "no_late_waiters (flush_batch env s) = no_late_waiters s"
  "no_late_waiters (s\<lparr>a_batch_queue := q\<rparr>) = no_late_waiters s"
  "no_late_waiters (s\<lparr>a_state := st, a_shared_state := n\<rparr>) = no_late_waiters s"
  "no_late_waiters (s\<lparr>a_connect_waiters := ws\<rparr>) = no_late_waiters s"
  "no_late_waiters (s\<lparr>a_ping_interval := p, a_last_data_received := d\<rparr>) = no_late_waiters s"
  by (simp_all add: no_late_waiters_def drain_connect_waiters_def track_def register_def flush_batch_def sink_send_def Let_def
      split: option.split)

lemma no_late_waiters_put:
  "no_late_waiters s \<Longrightarrow> (ss_state sub = Subscribed \<Longrightarrow> ss_waiters sub = []) \<Longrightarrow> no_late_waiters (put_sub ch sub s)"
  by (auto simp: no_late_waiters_def put_sub_def)

lemma no_late_waiters_remove: "no_late_waiters s \<Longrightarrow> no_late_waiters (s\<lparr>a_subs := hm_remove ch (a_subs s)\<rparr>)"
  by (simp add: no_late_waiters_def)

lemma no_late_waitersD:
  "no_late_waiters s \<Longrightarrow> hm_get (a_subs s) ch = Some sub \<Longrightarrow> ss_state sub = Subscribed \<Longrightarrow> ss_waiters sub = []"
  unfolding no_late_waiters_def by blast

interpretation prompt: field_invariant env no_late_waiters for env
proof
  fix s t :: actor
  show "same_core s t \<Longrightarrow> no_late_waiters s \<longrightarrow> no_late_waiters t"
    by (simp add: same_core_def no_late_waiters_def)
next
  fix s :: actor and ch :: string and sub sub' :: sub_state
  assume "hm_get (a_subs s) ch = Some sub" "ss_waiters sub' = ss_waiters sub"
    "ss_state sub' = Subscribed \<Longrightarrow> ss_state sub = Subscribed"
  then show "no_late_waiters s \<longrightarrow> no_late_waiters (put_sub ch sub' s)"
    using no_late_waitersD [of s ch sub] by (auto intro!: no_late_waiters_put)
qed (auto intro!: no_late_waiters_put simp: no_late_waiters_remove)

declare prompt.refl [simp del]

lemma reachable_prompt: "reachable env config cmds s \<Longrightarrow> no_late_waiters s"
  by (erule prompt.inv_reachable) (simp add: no_late_waiters_def new_actor_def)

section \<open>Who waits for a channel\<close>

definition waits :: "string \<Rightarrow> nat \<Rightarrow> actor \<Rightarrow> bool" where
  "waits ch w s \<longleftrightarrow> (case hm_get (a_subs s) ch of Some sub \<Rightarrow> w \<in> set (ss_waiters sub) | None \<Rightarrow> False)"

definition notified :: "nat \<Rightarrow> effect list \<Rightarrow> bool" where
  "notified w es \<longleftrightarrow> DropSender w \<in> set es \<or> (\<exists>v. Answer w v \<in> set es)"

lemma notified_simps [simp]: "\<not> notified w []" "notified w (es @ es') \<longleftrightarrow> notified w es \<or> notified w es'"
  by (auto simp: notified_def)

text \<open>A caller goes on waiting unless it is told.\<close>

definition unless_told :: "actor \<Rightarrow> actor \<Rightarrow> bool" where
  "unless_told s t \<longleftrightarrow>
     (\<exists>es. a_log t = a_log s @ es \<and> (\<forall>ch w. waits ch w s \<longrightarrow> waits ch w t \<or> notified w es))"

lemma unless_toldI:
  "a_log t = a_log s @ es \<Longrightarrow> (\<And>ch w. waits ch w s \<Longrightarrow> waits ch w t \<or> notified w es) \<Longrightarrow> unless_told s t"
  unfolding unless_told_def by blast

lemma unless_told_keeps:
  "prefix (a_log s) (a_log t) \<Longrightarrow> (\<And>ch w. waits ch w s \<Longrightarrow> waits ch w t) \<Longrightarrow> unless_told s t"
  unfolding unless_told_def prefix_def by blast

lemma unless_told_same: "prefix (a_log s) (a_log t) \<Longrightarrow> a_subs t = a_subs s \<Longrightarrow> unless_told s t"
  by (rule unless_told_keeps) (simp_all add: waits_def)

lemma unless_told_trans: "unless_told s t \<Longrightarrow> unless_told t u \<Longrightarrow> unless_told s u"
  unfolding unless_told_def by (metis append_assoc notified_simps(2))

lemma waits_put_sub:
  "hm_get (a_subs s) ch = Some sub \<Longrightarrow> set (ss_waiters sub) \<subseteq> set (ss_waiters sub') \<Longrightarrow>
   waits c w s \<Longrightarrow> waits c w (put_sub ch sub' s)"
  by (auto simp: waits_def put_sub_def split: if_splits)

lemma drop_all_log: "a_log (drop_all ws s) = a_log s @ map DropSender ws"
proof (induction ws arbitrary: s)
  case (Cons w ws)
  from Cons [of "drop_sender (Some w) s"] show ?case by (simp add: drop_all_def drop_sender_def perform_def)
qed (simp add: drop_all_def)

lemma notified_all: "w \<in> set ws \<Longrightarrow> notified w (map (\<lambda>w. Answer w v) ws)" "w \<in> set ws \<Longrightarrow> notified w (map DropSender ws)"
  by (auto simp: notified_def)

text \<open>The waiters of one subscription are told and forgotten together.\<close>

lemma unless_told_settle:
  assumes "hm_get (a_subs s) ch = Some sub" and "a_log t = a_log s"
    and "\<And>c. c \<noteq> ch \<Longrightarrow> hm_get (a_subs t) c = hm_get (a_subs s) c"
  shows "unless_told s (answer_all (ss_waiters sub) v t)"
proof (rule unless_toldI)
  show "a_log (answer_all (ss_waiters sub) v t) = a_log s @ map (\<lambda>w. Answer w v) (ss_waiters sub)"
    by (simp add: assms(2))
  show "waits c w (answer_all (ss_waiters sub) v t) \<or> notified w (map (\<lambda>w. Answer w v) (ss_waiters sub))"
    if "waits c w s" for c w
    using that assms(1,3) by (cases "c = ch") (auto simp: waits_def notified_all)
qed

interpretation waiters: actor_fields env unless_told "\<lambda>k r. unless_told" for env
proof
  fix s t u :: actor and r i :: nat and e x st cmd tx ev
  show "same_core s t \<Longrightarrow> unless_told s t"
    by (rule unless_told_same) (simp_all add: same_core_def)
  show "unless_told s t \<Longrightarrow> unless_told t u \<Longrightarrow> unless_told s u"
    by (rule unless_told_trans)
  show "unless_told s t \<Longrightarrow> unless_told t u \<Longrightarrow> unless_told s u"
    by (rule unless_told_trans)
  show "unless_told s t \<Longrightarrow> unless_told t u \<Longrightarrow> unless_told s u"
    by (rule unless_told_trans)
  show "silent e \<Longrightarrow> unless_told s (perform e s)"
    by (rule unless_told_same) (simp_all add: perform_def)
  show "unless_told s (perform (EmitClient tx ev) s)" "unless_told s (perform (EmitSub tx sev) s)" for sev
    by (rule unless_told_same; simp add: perform_def)+
  show "unless_told s (s\<lparr>a_client_event_tx := Some tx\<rparr>)" "unless_told s (s\<lparr>a_batch_queue := []\<rparr>)"
    "unless_told s (s\<lparr>a_state := st, a_shared_state := as_u8 st\<rparr>)"
    "unless_told s (s\<lparr>a_connect_waiters := a_connect_waiters s @ [r]\<rparr>)"
    "unless_told s (s\<lparr>a_ping_interval := p, a_last_data_received := d\<rparr>)" for p d
    by (rule unless_told_same; simp)+
  show "unless_told s (snd (send_command env cmd s))" "unless_told s (flush_batch env s)"
    "unless_told s (snd (next_cmd_id s))" "unless_told s (drain_connect_waiters (RUnit v) s)" for v
    by (rule unless_told_same, rule grows.send_step grows.flush_step grows.new_id grows.settle_connect,
      simp add: flush_batch_def sink_send_def drain_connect_waiters_def Let_def split: option.split)+
  show "unless_told s (answer (Some r) x s)" for x
    by (rule unless_told_same, rule grows.take_answer, simp)
next
  fix s t :: actor and i :: u32 and req x
  show gone: "unless_told s (remove_pending i s)"
    by (rule unless_told_same) simp_all
  assume "unless_told (remove_pending i s) t"
  moreover have "unless_told t (answer (pending_sender req) x t)"
    by (rule unless_told_same) (simp_all add: answer_def perform_def split: option.split)
  ultimately show "unless_told s (answer (pending_sender req) x t)"
    using gone unless_told_trans by blast
next
  fix s :: actor and req r
  show "unless_told s (track req s)" if "pending_sender req = None" "is_refresh req"
    by (rule unless_told_same [OF grows.track_internal [OF that]]) (simp add: track_def)
  show "unless_told s (register req s)" if "pending_sender req = None"
    by (rule unless_told_same [OF grows.register_internal [OF that]]) (simp add: register_def track_def)
  show "unless_told s (register req s)" if "pending_sender req = Some r"
    by (rule unless_told_same [OF grows.take_pending [OF that]]) (simp add: register_def track_def)
next
  fix s :: actor and ch and sub :: sub_state
  assume "hm_get (a_subs s) ch = None"
  then show "unless_told s (put_sub ch sub s)"
    by (intro unless_told_keeps) (auto simp: put_sub_def waits_def split: if_splits)
next
  fix s :: actor and ch and sub sub' :: sub_state
  assume sub: "hm_get (a_subs s) ch = Some sub"
  show "unless_told s (put_sub ch sub' s)" if "ss_waiters sub' = ss_waiters sub"
    by (rule unless_told_keeps) (simp add: put_sub_def, rule waits_put_sub [OF sub], auto simp: that)
  show "unless_told s (put_sub ch sub' s)" if "ss_waiters sub' = ss_waiters sub @ [r]" for r
    by (rule unless_told_keeps) (simp add: put_sub_def, rule waits_put_sub [OF sub], auto simp: that)
  show "unless_told s (answer_all (ss_waiters sub) (RUnit v) (put_sub ch sub' s))" for v
    by (rule unless_told_settle [OF sub]) (simp_all add: put_sub_def)
  show "unless_told s (answer_all (ss_waiters sub) (RUnit v) (s\<lparr>a_subs := hm_remove ch (a_subs s)\<rparr>))" for v
    by (rule unless_told_settle [OF sub]) simp_all
  show "unless_told s (drop_all (ss_waiters sub) (answer (Some r) (RUnit v) (s\<lparr>a_subs := hm_remove ch (a_subs s)\<rparr>)))"
    for r v
    by (rule unless_toldI [of _ _ "Answer r (RUnit v) # map DropSender (ss_waiters sub)"])
      (use sub in \<open>auto simp: drop_all_log answer_def perform_def waits_def notified_def split: option.splits if_splits\<close>)
qed

declare waiters.refl [simp del]

lemma takes_waiters: "waiters.takes cs s t \<Longrightarrow> unless_told s t"
  by (induction cs arbitrary: s) (auto intro: unless_told_trans)

lemma runs_waiters: "runs env P s t \<Longrightarrow> unless_told s t"
proof (induction rule: runs.induct)
  case (here s)
  show ?case by (rule unless_told_same) simp_all
next
  case (onward s t cmds u)
  from takes_waiters [OF waiters.takes_step [OF onward.hyps(2) attaches_any]] onward.IH
  show ?case by (rule unless_told_trans [rotated])
qed

text \<open>
  C9. Nobody is left in the list of waiters of a channel that is subscribed: whoever waited in that list
  at any earlier moment of the run has been answered since, or has had its sender dropped. (A caller
  whose own subscribe request is on its way is in the map of pending requests, not in this list, and
  waits for its reply.)
\<close>

theorem subscribed_nobody_waits:
  assumes "reachable env config cmds s" and "runs env P s t"
    and "hm_get (a_subs t) ch = Some sub" and "ss_state sub = Subscribed"
  shows "ss_waiters sub = [] \<and> (\<exists>es. a_log t = a_log s @ es \<and> (\<forall>w. waits ch w s \<longrightarrow> notified w es))"
proof -
  obtain cmds' where "reachable env config cmds' t"
    using reachable_runs [OF assms(2,1)] by blast
  then have none: "ss_waiters sub = []"
    by (rule no_late_waitersD [OF reachable_prompt assms(3,4)])
  then have "\<not> waits ch w t" for w by (simp add: waits_def assms(3))
  with runs_waiters [OF assms(2)] none show ?thesis
    unfolding unless_told_def by blast
qed

text \<open>In the run of \<open>Run\<close>, a second caller subscribes while the reply to the first is on its way.\<close>

definition second_caller :: actor where
  "second_caller = demo_subscribing\<lparr>a_subs := hm_insert ''news''
     (news_sub\<lparr>ss_state := Subscribing, ss_attempts := 0, ss_waiters := [10]\<rparr>) hm_empty\<rparr>"

definition both_subscribed :: actor where
  "both_subscribed = handle_connected_event demo_env (InFrame (Some (FrameData [49]))) second_caller"

lemma second_caller_steps:
  "reachable demo_env default_client_config (demo_commands @ [Subscribe ''news'' 10]) second_caller"
  "runs demo_env (\<lambda>_. True) second_caller both_subscribed"
proof -
  have st: "a_state demo_subscribing = Connected" "a_state second_caller = Connected"
    "a_stream second_caller \<noteq> None"
    by (simp_all add: demo_states second_caller_def)
  have "handle_command demo_env (Subscribe ''news'' 10) demo_subscribing = second_caller"
    by (simp add: demo_states second_caller_def handle_subscribe_def actor_ops)
  with actor_step.connected_command [OF st(1), of demo_env "Some (Subscribe ''news'' 10)"]
  have "actor_step demo_env [Subscribe ''news'' 10] demo_subscribing second_caller" by simp
  with demo_reachable(4) show "reachable demo_env default_client_config
      (demo_commands @ [Subscribe ''news'' 10]) second_caller" by (rule reachable.step)
  from actor_step.frame [OF st(2,3), of demo_env "Some (FrameData [49])"]
  show "runs demo_env (\<lambda>_. True) second_caller both_subscribed"
    unfolding both_subscribed_def by (rule runs_step) simp
qed

theorem subscribed_nobody_waits_witness:
  "waits ''news'' 10 second_caller \<and> \<not> waits ''news'' 10 both_subscribed \<and>
   (\<exists>es. a_log both_subscribed = a_log second_caller @ es \<and> notified 10 es)"
proof -
  obtain sub where sub: "hm_get (a_subs both_subscribed) ''news'' = Some sub" "ss_state sub = Subscribed"
    by (simp add: both_subscribed_def second_caller_def demo_states actor_ops handle_transport_data_def
        demo_reply_def dispatch_reply_def protocol_of_def default_client_config_def resolve_subscribe_def
        default_reply_def Let_def handle_subscribe_success_def recovering_def subscribed_sub_def
        default_subscribe_result_def answer_all_def)
  moreover have "waits ''news'' 10 second_caller" by (simp add: waits_def second_caller_def)
  ultimately show ?thesis
    using subscribed_nobody_waits [OF second_caller_steps sub] by (auto simp: waits_def)
qed

end
