(* ===== verification/Tasks.thy ===== *)
theory Tasks
  imports Bridge "HOL-Library.Sublist"
begin

text \<open>
  The two tasks of \<open>spawn_ws_task\<close> and the actor as they run side by side: one step of one of them at a
  time, on the two bounded channels between them. \<open>Bridge\<close> has the two loops each on its own. Of the
  actor only its calls on the two ends are events, each awaited before the next (\<open>br_blocked\<close>); its
  other inputs, commands and the ping deadline, are those of \<open>actor_step\<close>. A tokio channel is a list
  with a capacity.
\<close>

section \<open>The state\<close>

text \<open>
  The writer waits for data, or for the socket to take a message, or has ended: the channel was closed
  and drained, the socket refused a message, it was aborted, it panicked.
\<close>

datatype writer = WIdle | WSending ws_message | WClosed | WFailed | WAborted | WPanicked

text \<open>
  The reader waits for the socket, or for room for a frame (the last one, or not), or has ended.
\<close>

datatype reader = RNext | RForward transport_frame bool | RDone

text \<open>
  \<open>br_sender\<close> and \<open>br_receiver\<close>: the actor holds the sink and the stream. \<open>br_blocked\<close>: the actor is inside
  \<open>send_data\<close>, waiting for room. \<open>br_accepted\<close>, \<open>br_received\<close>, \<open>br_items\<close> and \<open>br_wire\<close> are what has passed so
  far: from the actor, to the actor, from the socket and to the socket.
\<close>

record bridge =
  br_sender :: bool
  br_receiver :: bool
  br_blocked :: "bytes option"
  br_accepted :: "bytes list"
  br_queue :: "bytes list"
  br_writer :: writer
  br_wire :: "ws_message list"
  br_items :: "(string + ws_message) list"
  br_reader :: reader
  br_frames :: "transport_frame list"
  br_received :: "transport_frame list"

definition new_bridge :: bridge where
  "new_bridge = \<lparr>br_sender = True, br_receiver = True, br_blocked = None, br_accepted = [], br_queue = [],
     br_writer = WIdle, br_wire = [], br_items = [], br_reader = RNext, br_frames = [], br_received = []\<rparr>"

definition channel_capacity :: nat where
  "channel_capacity = 256"

section \<open>The steps\<close>

datatype bridge_event =
    Send bytes | SendRefused bytes | SendBlocks bytes | SendResumes | SendFails | DropSink
  | Receives | EndOfStream | DropStream
  | WriterTakes | SocketTakes | SocketFails | WriterEnds
  | SocketYields "string + ws_message" | SocketEnds | Forwards | ForwardFails | Aborts

fun alive :: "writer \<Rightarrow> bool" where
  "alive WIdle = True"
| "alive (WSending m) = True"
| "alive _ = False"

definition enabled :: "bool \<Rightarrow> bridge \<Rightarrow> bridge option" where
  "enabled c b = (if c then Some b else None)"

text \<open>What the reading loop does with an item of the socket.\<close>

fun reader_after ::
  "(string \<Rightarrow> (u32 \<times> string \<times> bool) option) \<Rightarrow> (string + ws_message) \<Rightarrow> reader" where
  "reader_after advice (Inr (WsText t)) = RForward (FrameData t) False"
| "reader_after advice (Inr (WsBinary d)) = RForward (FrameData d) False"
| "reader_after advice (Inr (WsClose reason)) =
     RForward (FrameClose (map_option (\<lambda>(code, r). parse_close advice code r) reason)) True"
| "reader_after advice (Inr WsPing) = RNext"
| "reader_after advice (Inr WsPong) = RNext"
| "reader_after advice (Inr WsRaw) = RNext"
| "reader_after advice (Inl e) = RForward (FrameClose None) True"

text \<open>
  The state after an event, if the event can happen. A task that ends drops its end of a channel: the
  other side's sends fail, and what was queued is gone.
\<close>

fun bridge_step ::
  "bool \<Rightarrow> (string \<Rightarrow> (u32 \<times> string \<times> bool) option) \<Rightarrow> bridge_event \<Rightarrow> bridge \<Rightarrow> bridge option" where
  "bridge_step is_binary advice (Send d) b =
     enabled (br_sender b \<and> br_blocked b = None \<and> alive (br_writer b) \<and> length (br_queue b) < channel_capacity)
       (b\<lparr>br_queue := br_queue b @ [d], br_accepted := br_accepted b @ [d]\<rparr>)"
| "bridge_step is_binary advice (SendRefused d) b =
     enabled (br_sender b \<and> br_blocked b = None \<and> \<not> alive (br_writer b)) b"
| "bridge_step is_binary advice (SendBlocks d) b =
     enabled (br_sender b \<and> br_blocked b = None \<and> alive (br_writer b) \<and> channel_capacity \<le> length (br_queue b))
       (b\<lparr>br_blocked := Some d\<rparr>)"
| "bridge_step is_binary advice SendResumes b =
     (case br_blocked b of
        None \<Rightarrow> None
      | Some d \<Rightarrow> enabled (alive (br_writer b) \<and> length (br_queue b) < channel_capacity)
          (b\<lparr>br_blocked := None, br_queue := br_queue b @ [d], br_accepted := br_accepted b @ [d]\<rparr>))"
| "bridge_step is_binary advice SendFails b =
     enabled (br_blocked b \<noteq> None \<and> \<not> alive (br_writer b)) (b\<lparr>br_blocked := None\<rparr>)"
| "bridge_step is_binary advice DropSink b =
     enabled (br_sender b \<and> br_blocked b = None) (b\<lparr>br_sender := False\<rparr>)"
| "bridge_step is_binary advice Receives b =
     (case br_frames b of
        [] \<Rightarrow> None
      | f # fs \<Rightarrow> enabled (br_receiver b \<and> br_blocked b = None)
          (b\<lparr>br_frames := fs, br_received := br_received b @ [f]\<rparr>))"
| "bridge_step is_binary advice EndOfStream b =
     enabled (br_receiver b \<and> br_blocked b = None \<and> br_frames b = [] \<and> br_reader b = RDone) b"
| "bridge_step is_binary advice DropStream b =
     enabled (br_receiver b \<and> br_blocked b = None) (b\<lparr>br_receiver := False, br_frames := []\<rparr>)"
| "bridge_step is_binary advice WriterTakes b =
     (case br_queue b of
        [] \<Rightarrow> None
      | d # ds \<Rightarrow> enabled (br_writer b = WIdle)
          (case write_message is_binary d of
             None \<Rightarrow> b\<lparr>br_queue := [], br_writer := WPanicked\<rparr>
           | Some m \<Rightarrow> b\<lparr>br_queue := ds, br_writer := WSending m\<rparr>))"
| "bridge_step is_binary advice SocketTakes b =
     (case br_writer b of
        WSending m \<Rightarrow> Some (b\<lparr>br_writer := WIdle, br_wire := br_wire b @ [m]\<rparr>)
      | _ \<Rightarrow> None)"
| "bridge_step is_binary advice SocketFails b =
     (case br_writer b of
        WSending m \<Rightarrow> Some (b\<lparr>br_writer := WFailed, br_queue := []\<rparr>)
      | _ \<Rightarrow> None)"
| "bridge_step is_binary advice WriterEnds b =
     enabled (br_writer b = WIdle \<and> br_queue b = [] \<and> \<not> br_sender b) (b\<lparr>br_writer := WClosed\<rparr>)"
| "bridge_step is_binary advice (SocketYields item) b =
     enabled (br_reader b = RNext) (b\<lparr>br_items := br_items b @ [item], br_reader := reader_after advice item\<rparr>)"
| "bridge_step is_binary advice SocketEnds b = enabled (br_reader b = RNext) (b\<lparr>br_reader := RDone\<rparr>)"
| "bridge_step is_binary advice Forwards b =
     (case br_reader b of
        RForward f final \<Rightarrow> enabled (br_receiver b \<and> length (br_frames b) < channel_capacity)
          (b\<lparr>br_frames := br_frames b @ [f], br_reader := if final then RDone else RNext\<rparr>)
      | _ \<Rightarrow> None)"
| "bridge_step is_binary advice ForwardFails b =
     (case br_reader b of
        RForward f final \<Rightarrow> enabled (\<not> br_receiver b) (b\<lparr>br_reader := RDone\<rparr>)
      | _ \<Rightarrow> None)"
| "bridge_step is_binary advice Aborts b =
     enabled (br_reader b = RDone \<and> alive (br_writer b)) (b\<lparr>br_writer := WAborted, br_queue := []\<rparr>)"

fun bridge_run ::
  "bool \<Rightarrow> (string \<Rightarrow> (u32 \<times> string \<times> bool) option) \<Rightarrow> bridge_event list \<Rightarrow> bridge \<Rightarrow> bridge option" where
  "bridge_run is_binary advice [] b = Some b"
| "bridge_run is_binary advice (ev # evs) b =
     (case bridge_step is_binary advice ev b of
        None \<Rightarrow> None
      | Some b' \<Rightarrow> bridge_run is_binary advice evs b')"

lemma enabled_Some [simp]: "enabled c b = Some b' \<longleftrightarrow> c \<and> b = b'"
  by (auto simp: enabled_def)

lemma bridge_run_append:
  "bridge_run is_binary advice (evs @ evs') b
     = (case bridge_run is_binary advice evs b of None \<Rightarrow> None | Some b' \<Rightarrow> bridge_run is_binary advice evs' b')"
  by (induction evs arbitrary: b) (auto split: option.split)

text \<open>An invariant of the steps is one of the runs.\<close>

lemma bridge_run_inv:
  assumes "\<And>ev b b'. P b \<Longrightarrow> bridge_step is_binary advice ev b = Some b' \<Longrightarrow> P b'"
    and "bridge_run is_binary advice evs b = Some b'" and "P b"
  shows "P b'"
  using assms(2,3) by (induction evs arbitrary: b) (auto dest: assms(1) split: option.splits)

section \<open>From the actor to the socket\<close>

definition in_flight :: "writer \<Rightarrow> ws_message list" where
  "in_flight w = (case w of WSending m \<Rightarrow> [m] | _ \<Rightarrow> [])"

lemma in_flight_simps [simp]:
  "in_flight (WSending m) = [m]" "in_flight WIdle = []" "in_flight WClosed = []" "in_flight WFailed = []"
  "in_flight WAborted = []" "in_flight WPanicked = []"
  by (simp_all add: in_flight_def)

text \<open>While the writer lives, whatever was accepted is on the wire, in its hands or in the queue, in order.\<close>

definition writes_inv :: "bool \<Rightarrow> bridge \<Rightarrow> bool" where
  "writes_inv is_binary b \<longleftrightarrow>
     length (br_queue b) \<le> channel_capacity \<and>
     (alive (br_writer b) \<longrightarrow> map (write_message is_binary) (br_accepted b)
        = map Some (br_wire b @ in_flight (br_writer b)) @ map (write_message is_binary) (br_queue b)) \<and>
     (br_writer b = WClosed \<longrightarrow> map (write_message is_binary) (br_accepted b) = map Some (br_wire b)) \<and>
     (br_writer b = WPanicked \<longrightarrow> (\<exists>d \<in> set (br_accepted b). write_message is_binary d = None)) \<and>
     prefix (map Some (br_wire b)) (map (write_message is_binary) (br_accepted b))"

lemma writes_inv_step:
  assumes "writes_inv is_binary b" and "bridge_step is_binary advice ev b = Some b'"
  shows "writes_inv is_binary b'"
proof (cases ev)
  case WriterTakes
  with assms(2) obtain d ds where q: "br_queue b = d # ds" "br_writer b = WIdle" and
    b': "b' = (case write_message is_binary d of None \<Rightarrow> b\<lparr>br_queue := [], br_writer := WPanicked\<rparr>
           | Some m \<Rightarrow> b\<lparr>br_queue := ds, br_writer := WSending m\<rparr>)"
    by (auto split: list.splits)
  with assms(1) have eq: "map (write_message is_binary) (br_accepted b)
      = map Some (br_wire b) @ write_message is_binary d # map (write_message is_binary) ds"
    by (simp add: writes_inv_def)
  then have "write_message is_binary d \<in> write_message is_binary ` set (br_accepted b)"
    by (metis in_set_conv_decomp list.set_map)
  then have "write_message is_binary d = None \<Longrightarrow> \<exists>d \<in> set (br_accepted b). write_message is_binary d = None"
    by force
  with assms(1) eq q show ?thesis
    by (auto simp: writes_inv_def b' split: option.split)
qed (use assms in \<open>auto simp: writes_inv_def prefix_def split: option.split_asm list.split_asm writer.split_asm reader.split_asm\<close>)

lemma run_writes:
  "bridge_run is_binary advice evs new_bridge = Some b \<Longrightarrow> writes_inv is_binary b"
  by (rule bridge_run_inv [where P = "writes_inv is_binary", OF writes_inv_step])
    (assumption+, simp add: new_bridge_def writes_inv_def)

section \<open>From the socket to the actor\<close>

text \<open>What the reading loop makes of the items of the socket while the actor listens.\<close>

abbreviation frames_of ::
  "(string \<Rightarrow> (u32 \<times> string \<times> bool) option) \<Rightarrow> (string + ws_message) list \<Rightarrow> transport_frame list" where
  "frames_of advice items \<equiv> ws_read advice (map (\<lambda>i. (i, True)) items)"

fun pending_frame :: "reader \<Rightarrow> transport_frame list" where
  "pending_frame (RForward f final) = [f]"
| "pending_frame _ = []"

fun goes_on :: "reader \<Rightarrow> bool" where
  "goes_on RNext = True"
| "goes_on (RForward f final) = (\<not> final)"
| "goes_on RDone = False"

lemma goes_on_after: "goes_on (reader_after advice i) \<longleftrightarrow> \<not> ends_stream i"
  by (induction advice i rule: reader_after.induct) simp_all

lemma frames_of_snoc:
  "\<forall>i \<in> set items. \<not> ends_stream i \<Longrightarrow>
     frames_of advice (items @ [i]) = frames_of advice items @ pending_frame (reader_after advice i)"
proof (induction items)
  case Nil
  show ?case by (induction advice i rule: reader_after.induct) simp_all
next
  case (Cons j items)
  then show ?case by (induction advice j rule: reader_after.induct) simp_all
qed

definition reads_inv ::
  "(string \<Rightarrow> (u32 \<times> string \<times> bool) option) \<Rightarrow> bridge \<Rightarrow> bool" where
  "reads_inv advice b \<longleftrightarrow>
     length (br_frames b) \<le> channel_capacity \<and>
     (goes_on (br_reader b) \<longrightarrow> (\<forall>i \<in> set (br_items b). \<not> ends_stream i)) \<and>
     (br_receiver b \<longrightarrow> frames_of advice (br_items b)
        = br_received b @ br_frames b @ pending_frame (br_reader b)) \<and>
     prefix (br_received b) (frames_of advice (br_items b))"

lemma reads_inv_step:
  assumes "reads_inv advice b" and "bridge_step is_binary advice ev b = Some b'"
  shows "reads_inv advice b'"
proof (cases ev)
  case (SocketYields i)
  with assms(2) have r: "br_reader b = RNext"
    and b': "b' = b\<lparr>br_items := br_items b @ [i], br_reader := reader_after advice i\<rparr>" by auto
  from r assms(1) have "\<forall>i \<in> set (br_items b). \<not> ends_stream i" by (simp add: reads_inv_def)
  with frames_of_snoc [OF this] assms(1) r show ?thesis
    by (auto simp: reads_inv_def b' goes_on_after)
qed (use assms in \<open>auto simp: reads_inv_def prefix_def split: option.split_asm list.split_asm writer.split_asm reader.split_asm\<close>)

lemma run_reads:
  "bridge_run is_binary advice evs new_bridge = Some b \<Longrightarrow> reads_inv advice b"
  by (rule bridge_run_inv [where P = "reads_inv advice", OF reads_inv_step])
    (assumption+, simp add: new_bridge_def reads_inv_def)

section \<open>What the two directions promise\<close>

text \<open>
  The contract of the stream: the payloads before the first close or error, whole and in order, then
  one close frame with the advice of the server.
\<close>

definition stream_contract ::
  "(string \<Rightarrow> (u32 \<times> string \<times> bool) option) \<Rightarrow> (string + ws_message) list \<Rightarrow> transport_frame list" where
  "stream_contract advice items =
     map FrameData (concat (map payload (takeWhile (\<lambda>i. \<not> ends_stream i) items)))
       @ (case dropWhile (\<lambda>i. \<not> ends_stream i) items of [] \<Rightarrow> [] | i # _ \<Rightarrow> [close_frame advice i])"

lemma frames_of_contract: "frames_of advice items = stream_contract advice items"
  by (simp add: stream_contract_def ws_read_live)

text \<open>
  C33. The bridge between the socket and the actor, in every interleaving of its tasks: what the actor
  has received is at any moment a prefix of what the contract promises for the items the socket has
  yielded, it is all of it when the stream ends, and neither channel holds more than its capacity.
\<close>

theorem bridge_reads:
  assumes "bridge_run is_binary advice evs new_bridge = Some b"
  shows "prefix (br_received b) (stream_contract advice (br_items b)) \<and>
     (bridge_step is_binary advice EndOfStream b = Some b' \<longrightarrow>
        br_received b = stream_contract advice (br_items b)) \<and>
     length (br_frames b) \<le> channel_capacity \<and> length (br_queue b) \<le> channel_capacity"
  using run_reads [OF assms] run_writes [OF assms]
  by (auto simp: reads_inv_def writes_inv_def frames_of_contract)

theorem bridge_reads_witness:
  "stream_contract (\<lambda>_. None) [Inr (WsText [49]), Inr (WsClose None)] = [FrameData [49], FrameClose None]"
proof -
  let ?evs = "[SocketYields (Inr (WsText [49])), Forwards, SocketYields (Inr (WsClose None)), Receives,
    Forwards, Receives]"
  obtain b where b: "bridge_run False (\<lambda>_. None) ?evs new_bridge = Some b"
    "br_items b = [Inr (WsText [49]), Inr (WsClose None)]" "br_received b = [FrameData [49], FrameClose None]"
    "bridge_step False (\<lambda>_. None) EndOfStream b = Some b"
    by (simp add: new_bridge_def enabled_def channel_capacity_def)
  from bridge_reads [OF b(1), of b] b(2-4) show ?thesis by simp
qed

text \<open>
  The other direction: the socket gets, in order and each as one message, a prefix of what the sink has
  accepted; all of it when the actor has dropped the sink and the writer has come to its end.
\<close>

lemma bridge_writes:
  assumes "bridge_run is_binary advice evs new_bridge = Some b"
    and "\<And>d. d \<in> set (br_accepted b) \<Longrightarrow> write_message is_binary d = Some (msg d)"
  shows "prefix (br_wire b) (map msg (br_accepted b))" and "br_writer b \<noteq> WPanicked"
    and "br_writer b = WClosed \<Longrightarrow> br_wire b = map msg (br_accepted b)"
proof -
  have m: "map (write_message is_binary) (br_accepted b) = map Some (map msg (br_accepted b))"
    using assms(2) by simp
  note inv = run_writes [OF assms(1), unfolded writes_inv_def m]
  then obtain zs where "map Some (map msg (br_accepted b)) = map Some (br_wire b) @ zs"
    by (auto simp: prefix_def)
  then have "map msg (br_accepted b) = br_wire b @ map the zs"
    by (auto simp: comp_def dest: arg_cong [of _ _ "map the"])
  then show "prefix (br_wire b) (map msg (br_accepted b))" by simp
  show "br_writer b \<noteq> WPanicked" using inv assms(2) by auto
  show "br_wire b = map msg (br_accepted b)" if "br_writer b = WClosed"
    using inv that by (auto simp: comp_def dest: arg_cong [of _ _ "map the"])
qed

section \<open>What the tasks do not promise\<close>

text \<open>The events that set a writer free that waits for the socket.\<close>

fun releases :: "bridge_event \<Rightarrow> bool" where
  "releases SocketTakes = True"
| "releases SocketFails = True"
| "releases SocketEnds = True"
| "releases (SocketYields i) = ends_stream i"
| "releases _ = False"

text \<open>The socket takes nothing, the write channel is full, and a send waits for room.\<close>

definition stalled :: "bytes \<Rightarrow> bridge \<Rightarrow> bool" where
  "stalled d b \<longleftrightarrow> br_blocked b = Some d \<and> (\<exists>m. br_writer b = WSending m) \<and>
     length (br_queue b) = channel_capacity \<and> br_receiver b \<and> goes_on (br_reader b)"

lemma stalled_step:
  assumes "stalled d b" and "bridge_step is_binary advice ev b = Some b'" and "\<not> releases ev"
  shows "stalled d b' \<and> br_wire b' = br_wire b \<and> br_accepted b' = br_accepted b"
  using assms
  by (cases ev) (auto simp: stalled_def enabled_def goes_on_after split: reader.split_asm list.split_asm if_splits)

text \<open>The send stays where it is, and it is room in the channel that it waits for.\<close>

lemma stalled_waits: "stalled d b \<Longrightarrow> bridge_step is_binary advice SendResumes b = None"
  "stalled d b \<Longrightarrow> bridge_step is_binary advice SendFails b = None"
  by (auto simp: stalled_def enabled_def)

text \<open>What frees it: the socket takes the message and the writer takes the next one.\<close>

definition freed :: "bool \<Rightarrow> (string \<Rightarrow> (u32 \<times> string \<times> bool) option) \<Rightarrow> bridge \<Rightarrow> bool" where
  "freed is_binary advice b \<longleftrightarrow>
     (case bridge_run is_binary advice [SocketTakes, WriterTakes] b of
        Some b' \<Rightarrow> bridge_step is_binary advice SendResumes b' \<noteq> None \<or> bridge_step is_binary advice SendFails b' \<noteq> None
      | None \<Rightarrow> False)"

lemma stalled_freed:
  assumes "stalled d b"
  shows "freed is_binary advice b"
proof -
  obtain x xs where "br_queue b = x # xs"
    using assms by (cases "br_queue b") (auto simp: stalled_def channel_capacity_def)
  moreover obtain m where "br_writer b = WSending m" using assms by (auto simp: stalled_def)
  ultimately show ?thesis
    using assms
    by (cases "write_message is_binary x") (simp_all add: freed_def stalled_def enabled_def)
qed

text \<open>
  C39. A send into a full channel waits for the socket. Once the socket takes no more and the write
  channel is full, a send that waits for room does not return, whatever the server sends and the other
  task does, until the socket takes or refuses a message, closes or ends; nothing is written and
  nothing more is accepted meanwhile. It can return as soon as the socket has taken the message it
  holds up and the writer the next one.
\<close>

theorem full_socket_blocks_send:
  assumes "stalled d b" and "bridge_run is_binary advice evs b = Some b'" and "\<forall>ev \<in> set evs. \<not> releases ev"
  shows "br_blocked b' = Some d \<and>
     bridge_step is_binary advice SendResumes b' = None \<and> bridge_step is_binary advice SendFails b' = None \<and>
     br_wire b' = br_wire b \<and> br_accepted b' = br_accepted b \<and> freed is_binary advice b'"
proof -
  have b': "stalled d b' \<and> br_wire b' = br_wire b \<and> br_accepted b' = br_accepted b"
    using assms by (induction evs arbitrary: b) (fastforce dest: stalled_step split: option.split_asm)+
  then have "br_blocked b' = Some d" by (simp add: stalled_def)
  with b' stalled_waits [of d b'] stalled_freed [of d b'] show ?thesis by blast
qed

lemma many_sends:
  assumes "br_sender b" and "br_blocked b = None" and "alive (br_writer b)"
    and "length (br_queue b) + n \<le> channel_capacity"
  shows "bridge_run is_binary advice (replicate n (Send d)) b
     = Some (b\<lparr>br_queue := br_queue b @ replicate n d, br_accepted := br_accepted b @ replicate n d\<rparr>)"
  using assms
proof (induction n arbitrary: b)
  case (Suc n)
  let ?b = "b\<lparr>br_queue := br_queue b @ [d], br_accepted := br_accepted b @ [d]\<rparr>"
  from Suc.IH [of ?b] Suc.prems show ?case by (simp add: enabled_def)
qed simp

text \<open>Such a state is reached by 258 sends to a socket that takes nothing.\<close>

lemma stalled_reachable:
  "\<exists>b. bridge_run True advice ([Send d, WriterTakes] @ replicate 256 (Send d) @ [SendBlocks d]) new_bridge = Some b \<and>
     stalled d b \<and> br_reader b = RNext \<and> br_frames b = []"
proof -
  let ?b = "new_bridge\<lparr>br_accepted := [d], br_writer := WSending (WsBinary d)\<rparr>"
  have "bridge_run True advice [Send d, WriterTakes] new_bridge = Some ?b"
    by (simp add: new_bridge_def enabled_def channel_capacity_def write_message_def)
  moreover have "bridge_run True advice (replicate 256 (Send d)) ?b
      = Some (?b\<lparr>br_queue := br_queue ?b @ replicate 256 d, br_accepted := br_accepted ?b @ replicate 256 d\<rparr>)"
    by (rule many_sends) (simp_all add: new_bridge_def channel_capacity_def)
  ultimately show ?thesis
    unfolding bridge_run_append
    by (simp add: new_bridge_def enabled_def channel_capacity_def stalled_def)
qed

text \<open>A frame of the server arrives in the meantime, and the send still waits.\<close>

theorem full_socket_blocks_send_witness:
  "\<exists>evs b. bridge_run True (\<lambda>_. None) evs new_bridge = Some b \<and> br_frames b = [FrameData [50]] \<and>
     bridge_step True (\<lambda>_. None) SendResumes b = None \<and> freed True (\<lambda>_. None) b"
proof -
  let ?evs = "[Send [49], WriterTakes] @ replicate 256 (Send [49]) @ [SendBlocks [49]]"
  let ?next = "[SocketYields (Inr (WsBinary [50])), Forwards]"
  obtain b where b: "bridge_run True (\<lambda>_. None) ?evs new_bridge = Some b" "stalled [49] b"
    "br_reader b = RNext" "br_frames b = []"
    using stalled_reachable by blast
  moreover have "br_receiver b" using b(2) by (simp add: stalled_def)
  ultimately obtain b' where b': "bridge_run True (\<lambda>_. None) ?next b = Some b'" "br_frames b' = [FrameData [50]]"
    by (simp add: enabled_def channel_capacity_def)
  have "\<forall>ev \<in> set ?next. \<not> releases ev" by simp
  note waiting = full_socket_blocks_send [OF b(2) b'(1) this]
  have "bridge_run True (\<lambda>_. None) (?evs @ ?next) new_bridge = Some b'"
    using b(1) b'(1) unfolding bridge_run_append [of _ _ ?evs ?next] by simp
  then show ?thesis using waiting b'(2) by blast
qed

text \<open>
  What the sink has accepted need not be written: when the actor has dropped its ends (\<open>disconnect\<close>) and
  a message of the server arrives before the writer has emptied the queue, the reader ends, and its end
  aborts the writer.
\<close>

lemma abort_discards:
  "\<exists>b. bridge_run is_binary advice [Send d, DropSink, DropStream, SocketYields (Inr (WsText t)), ForwardFails, Aborts]
       new_bridge = Some b \<and> br_accepted b = [d] \<and> br_wire b = [] \<and> br_writer b = WAborted"
  by (simp add: new_bridge_def enabled_def channel_capacity_def)

end
