(* ===== verification/Wires.thy ===== *)
theory Wires
  imports HandlerLaws Tasks Run
begin

text \<open>
  What the actor writes: every frame is the encoding of a list of commands, alone or as a batch, in
  the protocol of the configuration. With the bridge of \<open>transport.rs\<close>: its writing task never
  panics on what a JSON client sends.
\<close>

section \<open>The invariant of the batch queue and the wire\<close>

definition is_message :: "env \<Rightarrow> protocol_type \<Rightarrow> bytes \<Rightarrow> bool" where
  "is_message env pt d \<longleftrightarrow> (\<exists>cs. cs \<noteq> [] \<and> encode_commands (env_codec env) pt cs = Inr d)"

definition wire_inv :: "env \<Rightarrow> protocol_type \<Rightarrow> actor \<Rightarrow> bool" where
  "wire_inv env pt s \<longleftrightarrow> cfg_protocol_type (a_config s) = pt \<and>
     (\<forall>d \<in> set (a_batch_queue s). \<exists>c. encode_commands (env_codec env) pt [c] = Inr d) \<and>
     (\<forall>conn d. Write conn d \<in> set (a_log s) \<longrightarrow> is_message env pt d)"

lemma queue_encodings:
  assumes "\<forall>d \<in> set ds. \<exists>c. encode_commands E pt [c] = Inr d"
  shows "\<exists>cs. length cs = length ds \<and> collect_results (map (\<lambda>c. encode_commands E pt [c]) cs) = Inr ds"
  using assms
proof (induction ds)
  case (Cons d ds)
  then obtain c cs where "encode_commands E pt [c] = Inr d" "length cs = length ds"
    "collect_results (map (\<lambda>c. encode_commands E pt [c]) cs) = Inr ds" by auto
  then show ?case by (intro exI [of _ "c # cs"]) simp
qed simp

lemma combined_message:
  assumes "\<forall>d \<in> set ds. \<exists>c. encode_commands (env_codec env) pt [c] = Inr d" and "ds \<noteq> []"
  shows "is_message env pt (combine_batch pt ds)"
proof -
  obtain cs where len: "length cs = length ds"
    and cs: "collect_results (map (\<lambda>c. encode_commands (env_codec env) pt [c]) cs) = Inr ds"
    using queue_encodings [OF assms(1)] by blast
  from len assms(2) have "cs \<noteq> []" by auto
  with codec.encode_all [OF cs] show ?thesis
    unfolding is_message_def by blast
qed

lemma wire_inv_write:
  assumes "wire_inv env pt s" and "is_message env pt d"
  shows "wire_inv env pt (snd (sink_send env conn d s))"
  using assms by (auto simp: wire_inv_def sink_send_def perform_def split: option.split)

lemma wire_inv_send: "wire_inv env pt s \<Longrightarrow> wire_inv env pt (snd (send_command env cmd s))"
proof -
  assume s: "wire_inv env pt s"
  then have pt: "protocol_of s = pt" by (simp add: wire_inv_def protocol_of_def)
  have "is_message env pt d" if "encode_commands (env_codec env) pt [cmd] = Inr d" for d
    using that unfolding is_message_def by blast
  with s pt show ?thesis
    by (auto simp: send_command_def wire_inv_write split: sum.split option.split)
      (auto simp: wire_inv_def)
qed

lemma wire_inv_flush: "wire_inv env pt s \<Longrightarrow> wire_inv env pt (flush_batch env s)"
proof -
  assume s: "wire_inv env pt s"
  then have pt: "protocol_of s = pt" by (simp add: wire_inv_def protocol_of_def)
  let ?s = "s\<lparr>a_batch_active := False, a_batch_queue := []\<rparr>"
  have "wire_inv env pt (s\<lparr>a_batch_active := False\<rparr>)" "wire_inv env pt ?s"
    using s by (simp_all add: wire_inv_def)
  moreover have "is_message env pt (combine_batch pt (a_batch_queue s))" if "a_batch_queue s \<noteq> []"
    using s that combined_message by (simp add: wire_inv_def)
  ultimately show ?thesis
    using pt wire_inv_write [of env pt ?s]
    by (simp add: flush_batch_def Let_def protocol_of_def split: option.split)
qed

lemma wire_inv_log: "wire_inv env pt s \<Longrightarrow> \<forall>conn d. e \<noteq> Write conn d \<Longrightarrow> wire_inv env pt (perform e s)"
  by (auto simp: wire_inv_def perform_def)

lemma wire_inv_answer: "wire_inv env pt s \<Longrightarrow> wire_inv env pt (answer w v s)"
  by (simp add: answer_def wire_inv_log split: option.split)

lemma wire_inv_drop: "wire_inv env pt s \<Longrightarrow> wire_inv env pt (drop_sender w s)"
  by (simp add: drop_sender_def wire_inv_log split: option.split)

lemma wire_inv_answer_all: "wire_inv env pt s \<Longrightarrow> wire_inv env pt (answer_all ws v s)"
  unfolding answer_all_def by (induction ws arbitrary: s) (simp_all add: wire_inv_answer)

lemma wire_inv_drop_all: "wire_inv env pt s \<Longrightarrow> wire_inv env pt (drop_all ws s)"
  unfolding drop_all_def by (induction ws arbitrary: s) (simp_all add: wire_inv_drop)

lemma wire_inv_fields [simp]:
  "wire_inv env pt (s\<lparr>a_state := st, a_shared_state := n\<rparr>) = wire_inv env pt s"
  "wire_inv env pt (s\<lparr>a_client_event_tx := tx\<rparr>) = wire_inv env pt s"
  "wire_inv env pt (snd (next_cmd_id s)) = wire_inv env pt s"
  "wire_inv env pt (s\<lparr>a_subs := m\<rparr>) = wire_inv env pt s"
  "wire_inv env pt (s\<lparr>a_pending := p\<rparr>) = wire_inv env pt s"
  "wire_inv env pt (s\<lparr>a_connect_waiters := ws\<rparr>) = wire_inv env pt s"
  "wire_inv env pt (s\<lparr>a_ping_interval := n', a_last_data_received := d\<rparr>) = wire_inv env pt s"
  "wire_inv env pt (put_sub ch sub s) = wire_inv env pt s"
  "wire_inv env pt (remove_pending i s) = wire_inv env pt s"
  by (simp_all add: wire_inv_def)

lemma wire_inv_insert_pending: "wire_inv env pt s \<Longrightarrow> wire_inv env pt (insert_pending i req s)"
  by (simp add: insert_pending_def Let_def wire_inv_drop split: option.split)

lemma wire_inv_track: "wire_inv env pt s \<Longrightarrow> wire_inv env pt (track req s)"
  unfolding track_def by (rule wire_inv_insert_pending) simp

lemma wire_inv_register: "wire_inv env pt s \<Longrightarrow> wire_inv env pt (register req s)"
  by (simp add: register_def schedule_request_timeout_def schedule_def wire_inv_log wire_inv_track)

interpretation wires: field_invariant env "wire_inv env pt" for env pt
proof
  fix s t :: actor and e :: effect
  show "same_core s t \<Longrightarrow> wire_inv env pt s \<longrightarrow> wire_inv env pt t"
    by (simp add: same_core_def wire_inv_def)
  show "silent e \<Longrightarrow> wire_inv env pt s \<longrightarrow> wire_inv env pt (perform e s)"
    by (auto intro: wire_inv_log)
  show "wire_inv env pt s \<longrightarrow> wire_inv env pt (s\<lparr>a_batch_queue := []\<rparr>)"
    by (simp add: wire_inv_def)
qed (auto simp: wire_inv_send wire_inv_flush wire_inv_answer wire_inv_answer_all wire_inv_drop_all
    wire_inv_log wire_inv_register wire_inv_track drain_connect_waiters_def)

declare wires.refl [simp del]

lemma reachable_wires: "reachable env config cmds s \<Longrightarrow> wire_inv env (cfg_protocol_type config) s"
  by (erule wires.inv_reachable) (simp add: wire_inv_def new_actor_def)

text \<open>
  C7. Everything the client ever writes on a connection is a message of the protocol: the encoding, in
  the protocol of the configuration, of a list of commands that is not empty.
\<close>

theorem writes_are_messages:
  assumes "reachable env config cmds s" and "Write conn d \<in> set (a_log s)"
  shows "\<exists>cs. cs \<noteq> [] \<and> encode_commands (env_codec env) (cfg_protocol_type config) cs = Inr d"
  using reachable_wires [OF assms(1)] assms(2) by (simp add: wire_inv_def is_message_def)

theorem writes_are_messages_witness:
  "\<exists>cs. cs \<noteq> [] \<and> encode_commands (env_codec demo_env) Json cs = Inr [123, 125]"
proof -
  have "Write 0 [123, 125] \<in> set (a_log demo_connected)" by (simp add: demo_states)
  from writes_are_messages [OF demo_reachable(2) this] show ?thesis
    by (simp add: default_client_config_def)
qed

section \<open>Through the bridge\<close>

text \<open>What a run has handed to the sink of one connection, in order.\<close>

definition written :: "nat \<Rightarrow> actor \<Rightarrow> bytes list" where
  "written conn s = concat (map (\<lambda>e. case e of
     Write c d \<Rightarrow> if c = conn then [d] else [] | _ \<Rightarrow> []) (a_log s))"

lemma written_iff: "d \<in> set (written conn s) \<longleftrightarrow> Write conn d \<in> set (a_log s)"
  by (auto simp: written_def split: effect.splits if_splits)

text \<open>
  C8. The writing task of the WebSocket bridge never panics for a JSON client. Whatever run of the actor
  fills the sink, and however the tasks are interleaved, every frame is valid UTF-8, and the socket
  gets the frames the sink has accepted in order, each as one text message; all of them when the
  writer has come to its end.
\<close>

theorem json_writer_never_panics:
  assumes "reachable env config cmds s" and "cfg_protocol_type config = Json"
    and "prints_text (env_codec env)"
    and "bridge_run False advice evs new_bridge = Some b" and "prefix (br_accepted b) (written conn s)"
  shows "br_writer b \<noteq> WPanicked \<and> prefix (br_wire b) (map WsText (br_accepted b)) \<and>
     (br_writer b = WClosed \<longrightarrow> br_wire b = map WsText (br_accepted b))"
proof -
  have "write_message False d = Some (WsText d)" if "d \<in> set (br_accepted b)" for d
  proof -
    have "d \<in> set (written conn s)" using that set_mono_prefix [OF assms(5)] by blast
    then have "is_message env Json d"
      using reachable_wires [OF assms(1)] assms(2) unfolding written_iff wire_inv_def by metis
    then obtain cs where "json_encode_commands (env_codec env) cs = Inr d"
      by (auto simp: is_message_def encode_commands_def)
    with json_encode_text [OF assms(3)] show ?thesis by (simp add: write_message_def is_text_def)
  qed
  from bridge_writes [OF assms(4) this] show ?thesis by blast
qed

text \<open>The two frames of the run of \<open>Run\<close>, written before the writer ends because the sink was dropped.\<close>

theorem json_writer_never_panics_witness:
  "\<exists>b. bridge_run False (\<lambda>_. None) [Send [123, 125], WriterTakes, Send [123, 125], SocketTakes, WriterTakes,
       DropSink, SocketTakes, WriterEnds] new_bridge = Some b \<and> br_wire b = [WsText [123, 125], WsText [123, 125]]"
proof -
  let ?evs = "[Send [123, 125], WriterTakes, Send [123, 125], SocketTakes, WriterTakes,
       DropSink, SocketTakes, WriterEnds]"
  have "prints_text (env_codec demo_env)"
    by (simp add: prints_text_def demo_env_def sample_codec_def is_text_def)
  moreover have "written 0 demo_subscribed = [[123, 125], [123, 125]]"
    by (simp add: written_def demo_states)
  moreover obtain b where "bridge_run False (\<lambda>_. None) ?evs new_bridge = Some b" "br_writer b = WClosed"
    "br_accepted b = [[123, 125], [123, 125]]"
    by (simp add: new_bridge_def enabled_def channel_capacity_def write_message_def)
  ultimately show ?thesis
    using json_writer_never_panics [OF demo_reachable(5), of "\<lambda>_. None" ?evs b 0]
    by (simp add: default_client_config_def)
qed

end
