(* ===== verification/EmbeddedJson.thy ===== *)
theory EmbeddedJson
  imports Errors
begin

text \<open>
  The serde module \<open>embedded_json\<close> of \<open>src/codec.rs\<close>: \<open>data\<close> fields are JSON documents inside the JSON
  message. \<open>serde_json\<close> is the record \<open>json_lib\<close>: parsing and printing a value, and the test for
  null. A field that has been serialized is a value, or the none that serde_json writes as null.
\<close>

record 'v json_lib =
  from_slice :: "bytes \<Rightarrow> string + 'v"
  to_vec :: "'v \<Rightarrow> string + bytes"
  null_value :: 'v

section \<open>The module\<close>

definition embedded_serialize :: "'v json_lib \<Rightarrow> bytes \<Rightarrow> string + 'v option" where
  "embedded_serialize L data =
     (if data = [] then Inr None
      else case from_slice L data of Inl e \<Rightarrow> Inl e | Inr v \<Rightarrow> Inr (Some v))"

definition embedded_deserialize :: "'v json_lib \<Rightarrow> 'v \<Rightarrow> string + bytes" where
  "embedded_deserialize L v = (if v = null_value L then Inr [] else to_vec L v)"

definition is_zero_u32 :: "u32 \<Rightarrow> bool" where
  "is_zero_u32 v = (v = 0)"

text \<open>What the receiver of a serialized field reads.\<close>

definition field_value :: "'v json_lib \<Rightarrow> 'v option \<Rightarrow> 'v" where
  "field_value L field = (case field of None \<Rightarrow> null_value L | Some v \<Rightarrow> v)"

section \<open>There and back\<close>

text \<open>
  The empty payload is null on the wire and empty again for the receiver; any other payload is what the
  library reads of it. What the library prints need not read back as the same value (floats), so no
  more is claimed for values.
\<close>

lemma empty_payload:
  "embedded_serialize L [] = Inr None"
  "embedded_deserialize L (field_value L None) = Inr []"
  by (simp_all add: embedded_serialize_def embedded_deserialize_def field_value_def)

lemma payload_sent:
  assumes "data \<noteq> []" and "from_slice L data = Inr v"
  shows "embedded_serialize L data = Inr (Some v)"
    and "v = null_value L \<Longrightarrow> embedded_deserialize L (field_value L (Some v)) = Inr []"
    and "v \<noteq> null_value L \<Longrightarrow> embedded_deserialize L (field_value L (Some v)) = to_vec L v"
  using assms by (simp_all add: embedded_serialize_def embedded_deserialize_def field_value_def)

end
